(* ===== verification/Prelude.thy ===== *)
theory Prelude
  imports Main "HOL-Library.Word" "HOL-Library.Char_ord" "HOL-Library.List_Lexorder"
    "HOL-Library.AList"
begin

unbundle bit_operations_syntax

section \<open>The parts of Go and of its standard library that the components share\<close>

text \<open>
  The prelude names the types every component uses (bytes, times, errors, results) and gives the
  definitions of the standard-library functions the sources call:
  \<^verbatim>\<open>binary.BigEndian\<close>, \<^verbatim>\<open>crc32.ChecksumIEEE\<close>, \<^verbatim>\<open>strings.Compare\<close>, \<^verbatim>\<open>strings.SplitN\<close> and the
  like. A Go \<^verbatim>\<open>string\<close> is a sequence of bytes, so it is a \<^typ>\<open>string\<close> (a list of 8-bit
  characters) and \<^verbatim>\<open>len\<close> is \<^const>\<open>length\<close>. A \<^verbatim>\<open>time.Time\<close> is the number of nanoseconds since
  the zero time, so \<^verbatim>\<open>IsZero\<close> is equality with 0; the value that \<^verbatim>\<open>time.Now\<close> returns is an
  argument of the operations that call it. A Go error is a value of type \<open>err\<close>; an operation
  that returns \<^verbatim>\<open>(T, error)\<close> returns \<open>err + 'a\<close>.
\<close>

named_theorems codec_simps \<open>round trips and lengths of the byte encodings\<close>
named_theorems str_simps \<open>facts on the string functions\<close>

type_synonym byte = "8 word"
type_synonym bytes = "8 word list"
type_synonym uint32 = "32 word"
type_synonym uint64 = "64 word"
type_synonym gotime = int

subsection \<open>Errors\<close>

text \<open>
  The error values the sources build or compare: the two context errors, the two end-of-file
  errors of \<^verbatim>\<open>io\<close>, a \<^verbatim>\<open>*net.OpError\<close> (with its text), an error with an RFC code made by
  \<^verbatim>\<open>errors.Normalize\<close>, an error made by \<^verbatim>\<open>fmt.Errorf\<close> without a cause, and one that wraps a
  cause with \<^verbatim>\<open>%w\<close> (\<open>Wrapf\<close> where the cause is the end of the text, \<open>WrapText\<close> with the whole text
  otherwise). \<open>Panic\<close> stands for a run-time panic (an index or a slice bound out of range, a
  write to a nil map, a nil dereference), which ends the call without a result.
\<close>

datatype err =
    Canceled
  | DeadlineExceeded
  | EOF
  | UnexpectedEOF
  | OpError string
  | ErrCode string
  | Errorf string
  | Wrapf string err
  | WrapText string err
  | Panic string

type_synonym 'a res = "err + 'a"

text \<open>The text of an error (\<^verbatim>\<open>err.Error()\<close>); a wrapping error prints its cause after its own text.\<close>

fun Error :: "err \<Rightarrow> string" where
  "Error Canceled = ''context canceled''"
| "Error DeadlineExceeded = ''context deadline exceeded''"
| "Error EOF = ''EOF''"
| "Error UnexpectedEOF = ''unexpected EOF''"
| "Error (OpError s) = s"
| "Error (ErrCode s) = s"
| "Error (Errorf s) = s"
| "Error (Wrapf s e) = s @ '': '' @ Error e"
| "Error (WrapText s e) = s"
| "Error (Panic s) = s"

text \<open>\<^verbatim>\<open>errors.Is\<close> on sentinels and \<^verbatim>\<open>errors.As\<close> for \<^verbatim>\<open>*net.OpError\<close> walk the chain of causes.\<close>

fun errors_Is :: "err \<Rightarrow> err \<Rightarrow> bool" where
  "errors_Is (Wrapf s e) t = (Wrapf s e = t \<or> errors_Is e t)"
| "errors_Is (WrapText s e) t = (WrapText s e = t \<or> errors_Is e t)"
| "errors_Is e t = (e = t)"

fun errors_As_OpError :: "err \<Rightarrow> bool" where
  "errors_As_OpError (OpError s) = True"
| "errors_As_OpError (Wrapf s e) = errors_As_OpError e"
| "errors_As_OpError (WrapText s e) = errors_As_OpError e"
| "errors_As_OpError e = False"

lemma errors_Is_refl [simp]: "errors_Is e e"
  by (cases e) auto

subsection \<open>Big-endian integers\<close>

definition PutUint32 :: "uint32 \<Rightarrow> bytes" where
  "PutUint32 w =
     [ucast (drop_bit 24 w), ucast (drop_bit 16 w), ucast (drop_bit 8 w), ucast w]"

text \<open>\<^verbatim>\<open>binary.BigEndian.Uint32\<close> of a slice of at least four bytes (the sources pass arrays of four).\<close>

fun Uint32 :: "bytes \<Rightarrow> uint32" where
  "Uint32 (a # b # c # d # r) =
     push_bit 24 (ucast a) OR push_bit 16 (ucast b) OR push_bit 8 (ucast c) OR ucast d"
| "Uint32 _ = 0"

lemma length_PutUint32 [simp, codec_simps]: "length (PutUint32 w) = 4"
  by (simp add: PutUint32_def)

lemma PutUint32_nonempty [simp]: "PutUint32 w \<noteq> []"
  by (simp add: PutUint32_def)

lemma Uint32_PutUint32 [simp, codec_simps]: "Uint32 (PutUint32 w @ r) = w"
proof (rule bit_word_eqI)
  fix n
  assume "n < LENGTH(32)"
  then consider "n < 8" | "8 \<le> n" "n < 16" | "16 \<le> n" "n < 24" | "24 \<le> n" "n < 32"
    by fastforce
  then show "bit (Uint32 (PutUint32 w @ r)) n = bit w n"
    by cases (auto simp: PutUint32_def bit_simps)
qed

lemma Uint32_PutUint32_exact [simp, codec_simps]: "Uint32 (PutUint32 w) = w"
  using Uint32_PutUint32 [of w "[]"] by simp

subsection \<open>CRC-32 (IEEE)\<close>

text \<open>
  \<^verbatim>\<open>crc32.ChecksumIEEE\<close>: the reflected polynomial 0xEDB88320, one bit at a time. The mirror on
  \<^typ>\<open>int\<close> evaluates quickly in the simplifier and is proved equal.
\<close>

definition crc_step :: "uint32 \<Rightarrow> uint32" where
  "crc_step c = (if odd c then drop_bit 1 c XOR 0xEDB88320 else drop_bit 1 c)"

definition crc_byte :: "byte \<Rightarrow> uint32 \<Rightarrow> uint32" where
  "crc_byte b c = (crc_step ^^ 8) (c XOR ucast b)"

definition ChecksumIEEE :: "bytes \<Rightarrow> uint32" where
  "ChecksumIEEE bs = NOT (fold crc_byte bs (NOT 0))"

definition crc_step_int :: "int \<Rightarrow> int" where
  "crc_step_int c = (if odd c then (c div 2) XOR 0xEDB88320 else c div 2)"

definition crc_byte_int :: "int \<Rightarrow> int \<Rightarrow> int" where
  "crc_byte_int b c = (crc_step_int ^^ 8) (c XOR b)"

lemma odd_uint_iff: "odd (uint (w :: uint32)) \<longleftrightarrow> odd w"
  by (simp flip: bit_0 add: bit_simps)

lemma take_bit_uint_byte: "take_bit 32 (uint (b :: byte)) = uint b"
  using uint_lt2p [of b] by (intro take_bit_int_eq_self) auto

lemma uint_not32: "uint (NOT (w :: uint32)) = 0xFFFFFFFF - uint w"
proof -
  have "uint (NOT w) = (- uint w - 1) mod 2 ^ 32"
    by (simp add: not_eq_complement uint_word_ariths mod_simps)
  also have "\<dots> = (- uint w - 1 + 2 ^ 32) mod 2 ^ 32"
    by (rule mod_add_self2 [symmetric])
  also have "\<dots> = - uint w - 1 + 2 ^ 32"
    using uint_lt2p [of w] less_le_trans [OF _ uint_ge_0, of "- 1" w]
    by (intro mod_pos_pos_trivial) simp_all
  finally show ?thesis by simp
qed

lemma uint_crc_step: "uint (crc_step c) = crc_step_int (uint c)"
  by (simp add: crc_step_def crc_step_int_def odd_uint_iff unsigned_xor_eq drop_bit_Suc
      uint_div)

lemma uint_crc_steps: "uint ((crc_step ^^ n) c) = (crc_step_int ^^ n) (uint c)"
  by (induction n) (simp_all add: uint_crc_step)

lemma uint_crc_byte: "uint (crc_byte b c) = crc_byte_int (uint b) (uint c)"
  by (simp add: crc_byte_def crc_byte_int_def uint_crc_steps unsigned_xor_eq unsigned_ucast_eq
      take_bit_uint_byte)

lemma uint_crc_fold: "uint (fold crc_byte bs c) = fold crc_byte_int (map uint bs) (uint c)"
  by (induction bs arbitrary: c) (simp_all add: uint_crc_byte)

lemma uint_ChecksumIEEE:
  "uint (ChecksumIEEE bs) = 0xFFFFFFFF - fold crc_byte_int (map uint bs) 0xFFFFFFFF"
  by (simp add: ChecksumIEEE_def uint_not32 uint_crc_fold unsigned_minus_1_eq_mask mask_eq_exp_minus_1)

lemma ChecksumIEEE_eval:
  "ChecksumIEEE bs = word_of_int (0xFFFFFFFF - fold crc_byte_int (map uint bs) 0xFFFFFFFF)"
  by (simp flip: uint_ChecksumIEEE)

lemma funpow_8: "(f ^^ 8) x = f (f (f (f (f (f (f (f x)))))))"
  by (simp add: numeral_eq_Suc)

lemmas crc_eval = ChecksumIEEE_eval crc_byte_int_def crc_step_int_def funpow_8

lemma ChecksumIEEE_check: "ChecksumIEEE [49, 50, 51, 52, 53, 54, 55, 56, 57] = 0xCBF43926"
  by (simp add: crc_eval)

subsection \<open>Maps\<close>

text \<open>
  A Go map is the association list of its entries. The order of the list stands for the order in
  which one iteration of the map visits the entries, which Go leaves unspecified: a theorem about
  an operation that ranges over a map holds for every such list. Entries have distinct keys.
  Storing is \<^const>\<open>AList.update\<close>, \<^verbatim>\<open>delete\<close> is \<^const>\<open>AList.delete\<close> and indexing is \<^const>\<open>map_of\<close>.
\<close>

type_synonym ('k, 'v) gomap = "('k \<times> 'v) list"

abbreviation gomap_ok :: "('k, 'v) gomap \<Rightarrow> bool" where
  "gomap_ok m \<equiv> distinct (map fst m)"

lemmas gomap_simps [simp] = update_conv' delete_conv'

lemma gomap_ok_update [simp]: "gomap_ok m \<Longrightarrow> gomap_ok (AList.update k v m)"
  by (rule distinct_update)

lemma gomap_ok_delete [simp]: "gomap_ok m \<Longrightarrow> gomap_ok (AList.delete k m)"
  by (rule distinct_delete)

lemma gomap_mem_iff: "gomap_ok m \<Longrightarrow> (k, v) \<in> set m \<longleftrightarrow> map_of m k = Some v"
  by (simp add: map_of_eq_Some_iff)

lemma set_update_gomap:
  assumes "gomap_ok m"
  shows "set (AList.update k v m) = insert (k, v) {p \<in> set m. fst p \<noteq> k}"
proof -
  have "(a, b) \<in> set (AList.update k v m) \<longleftrightarrow> (a, b) = (k, v) \<or> (a, b) \<in> set m \<and> a \<noteq> k" for a b
    using gomap_mem_iff [OF assms] gomap_mem_iff [OF gomap_ok_update [OF assms]] by force
  then show ?thesis by auto
qed

lemma set_delete_gomap: "set (AList.delete k m) = {p \<in> set m. fst p \<noteq> k}"
  by (auto simp: AList.delete_eq)

lemma find_append:
  "find P (xs @ ys) = (case find P xs of None \<Rightarrow> find P ys | Some x \<Rightarrow> Some x)"
  by (induction xs) auto

subsection \<open>Strings\<close>

definition strings_Compare :: "string \<Rightarrow> string \<Rightarrow> int" where
  "strings_Compare a b = (if a < b then - 1 else if b < a then 1 else 0)"

definition HasPrefix :: "string \<Rightarrow> string \<Rightarrow> bool" where
  "HasPrefix s p = (take (length p) s = p)"

definition HasSuffix :: "string \<Rightarrow> string \<Rightarrow> bool" where
  "HasSuffix s p = (length p \<le> length s \<and> drop (length s - length p) s = p)"

text \<open>\<^verbatim>\<open>strings.Index\<close>: the first offset at which the pattern occurs (\<^verbatim>\<open>-1\<close> in Go is \<^const>\<open>None\<close>).\<close>

fun strings_Index :: "string \<Rightarrow> string \<Rightarrow> nat option" where
  "strings_Index [] p = (if p = [] then Some 0 else None)"
| "strings_Index (c # s) p =
     (if HasPrefix (c # s) p then Some 0 else map_option Suc (strings_Index s p))"

definition Contains :: "string \<Rightarrow> string \<Rightarrow> bool" where
  "Contains s p = (strings_Index s p \<noteq> None)"

text \<open>Case mapping, on the ASCII letters.\<close>

definition char_lower :: "char \<Rightarrow> char" where
  "char_lower c = (if CHR ''A'' \<le> c \<and> c \<le> CHR ''Z'' then char_of (of_char c + 32 :: nat) else c)"

definition char_upper :: "char \<Rightarrow> char" where
  "char_upper c = (if CHR ''a'' \<le> c \<and> c \<le> CHR ''z'' then char_of (of_char c - 32 :: nat) else c)"

definition ToLower :: "string \<Rightarrow> string" where
  "ToLower s = map char_lower s"

definition ToUpper :: "string \<Rightarrow> string" where
  "ToUpper s = map char_upper s"

text \<open>\<^verbatim>\<open>strings.TrimSpace\<close> on the ASCII white space.\<close>

definition is_space :: "char \<Rightarrow> bool" where
  "is_space c = (c \<in> {CHR '' '', CHR 0x09, CHR 0x0A, CHR 0x0B, CHR 0x0C, CHR 0x0D})"

definition TrimSpace :: "string \<Rightarrow> string" where
  "TrimSpace s = rev (dropWhile is_space (rev (dropWhile is_space s)))"

text \<open>The verb \<^verbatim>\<open>%q\<close>, on strings with nothing to escape.\<close>

definition Quote :: "string \<Rightarrow> string" where
  "Quote s = [CHR 0x22] @ s @ [CHR 0x22]"

text \<open>
  The number of bytes of the first rune of a non-empty string, as \<^verbatim>\<open>utf8.DecodeRuneInString\<close> finds
  it: 2, 3 or 4 for a well-formed multi-byte sequence, and 1 for an ASCII or an invalid byte.
\<close>

definition byte_in :: "nat \<Rightarrow> nat \<Rightarrow> char \<Rightarrow> bool" where
  "byte_in lo hi c = (lo \<le> of_char c \<and> of_char c \<le> hi)"

fun rune_width :: "string \<Rightarrow> nat" where
  "rune_width (a # b # r) =
     (if byte_in 0xC2 0xDF a \<and> byte_in 0x80 0xBF b then 2
      else case r of
        [] \<Rightarrow> 1
      | c # r' \<Rightarrow>
          if byte_in 0x80 0xBF c
             \<and> (byte_in 0xE0 0xE0 a \<and> byte_in 0xA0 0xBF b \<or> byte_in 0xE1 0xEC a \<and> byte_in 0x80 0xBF b
                \<or> byte_in 0xED 0xED a \<and> byte_in 0x80 0x9F b \<or> byte_in 0xEE 0xEF a \<and> byte_in 0x80 0xBF b)
          then 3
          else case r' of
            [] \<Rightarrow> 1
          | d # _ \<Rightarrow>
              if byte_in 0x80 0xBF c \<and> byte_in 0x80 0xBF d
                 \<and> (byte_in 0xF0 0xF0 a \<and> byte_in 0x90 0xBF b \<or> byte_in 0xF1 0xF3 a \<and> byte_in 0x80 0xBF b
                    \<or> byte_in 0xF4 0xF4 a \<and> byte_in 0x80 0x8F b)
              then 4 else 1)"
| "rune_width _ = 1"

definition word_char :: "char \<Rightarrow> bool" where
  "word_char c =
     (byte_in 0x61 0x7A c \<or> byte_in 0x41 0x5A c \<or> byte_in 0x30 0x39 c \<or> c = CHR ''_'')"

text \<open>Every rune that is not an ASCII letter, a digit or an underscore becomes an underscore.\<close>

fun underscore_runes :: "string \<Rightarrow> string" where
  "underscore_runes [] = []"
| "underscore_runes (c # s) =
     (if word_char c then c # underscore_runes s
      else CHR ''_'' # underscore_runes (drop (rune_width (c # s) - 1) s))"

text \<open>The verb \<^verbatim>\<open>%08x\<close> on a 32-bit value.\<close>

definition hex_digit :: "nat \<Rightarrow> char" where
  "hex_digit n = (if n < 10 then char_of (48 + n) else char_of (87 + n))"

definition hex08 :: "uint32 \<Rightarrow> string" where
  "hex08 w = map (\<lambda>i. hex_digit (unat (drop_bit (4 * i) w AND 15))) [7, 6, 5, 4, 3, 2, 1, 0]"

text \<open>\<^verbatim>\<open>strings.Join\<close>.\<close>

fun strings_Join :: "string list \<Rightarrow> string \<Rightarrow> string" where
  "strings_Join [] sep = []"
| "strings_Join [x] sep = x"
| "strings_Join (x # y # r) sep = x @ sep @ strings_Join (y # r) sep"

text \<open>The decimal form of an integer (\<^verbatim>\<open>strconv.Itoa\<close> and the verb \<^verbatim>\<open>%d\<close>).\<close>

definition digit :: "nat \<Rightarrow> char" where
  "digit n = char_of (48 + n)"

fun nat_decimal :: "nat \<Rightarrow> string" where
  "nat_decimal n = (if n < 10 then [digit n] else nat_decimal (n div 10) @ [digit (n mod 10)])"

declare nat_decimal.simps [simp del]

definition Itoa :: "int \<Rightarrow> string" where
  "Itoa i = (if i < 0 then ''-'' @ nat_decimal (nat (- i)) else nat_decimal (nat i))"

definition decimal_value :: "string \<Rightarrow> nat" where
  "decimal_value s = foldl (\<lambda>n c. 10 * n + (of_char c - 48)) 0 s"

lemma decimal_value_digit: "d < 10 \<Longrightarrow> of_char (digit d) - 48 = (d :: nat)"
  unfolding digit_def of_char_of by simp

lemma decimal_value_snoc: "decimal_value (s @ [c]) = 10 * decimal_value s + (of_char c - 48)"
  by (simp add: decimal_value_def)

lemma decimal_value_nat_decimal [str_simps]: "decimal_value (nat_decimal n) = n"
proof (induction n rule: nat_decimal.induct)
  case (1 n)
  show ?case
  proof (cases "n < 10")
    case True
    then have "decimal_value (nat_decimal n) = of_char (digit n) - 48"
      by (subst nat_decimal.simps) (simp add: decimal_value_def)
    then show ?thesis
      by (simp only: decimal_value_digit [OF True])
  next
    case False
    have less: "n mod 10 < 10" by simp
    have "decimal_value (nat_decimal n)
        = 10 * decimal_value (nat_decimal (n div 10)) + (of_char (digit (n mod 10)) - 48)"
      by (subst nat_decimal.simps) (simp only: False if_False decimal_value_snoc)
    also have "\<dots> = 10 * (n div 10) + n mod 10"
      by (simp only: 1 [OF False] decimal_value_digit [OF less])
    finally show ?thesis by simp
  qed
qed

lemma nat_decimal_inject [str_simps]: "nat_decimal m = nat_decimal n \<longleftrightarrow> m = n"
proof
  assume "nat_decimal m = nat_decimal n"
  then have "decimal_value (nat_decimal m) = decimal_value (nat_decimal n)" by (rule arg_cong)
  then show "m = n" by (simp only: decimal_value_nat_decimal)
qed simp

lemma strings_Compare_eq_0 [str_simps]: "strings_Compare a b = 0 \<longleftrightarrow> a = b"
  by (auto simp: strings_Compare_def)

lemma strings_Compare_antisym: "strings_Compare b a = - strings_Compare a b"
  by (auto simp: strings_Compare_def)

lemma strings_Compare_le [str_simps]: "strings_Compare a b \<le> 0 \<longleftrightarrow> a \<le> b"
  by (auto simp: strings_Compare_def)

end
