(* ===== verification/Events.thy ===== *)
theory Events
  imports Prelude
begin

section \<open>The event model (pkg/event)\<close>

text \<open>
  The structs of \<^verbatim>\<open>pkg/event\<close> are records; a field carries a short prefix of its struct
  (\<open>pos_\<close>, \<open>ti_\<close>, \<open>ev_\<close>, ...) before its Go name. A pointer that may be nil is an \<^typ>\<open>'a option\<close>, a map
  that may be nil an optional \<open>gomap\<close>. An \<^verbatim>\<open>interface{}\<close> value is a \<open>gval\<close>; the floating
  point constructor carries the IEEE bits. \<^verbatim>\<open>time.Format\<close> depends on the zone of the host and is
  the argument \<open>Format\<close>.
\<close>

named_theorems event_simps \<open>what the accessors of the event model return\<close>

datatype gval =
    VNil
  | VBool bool
  | VInt int
  | VStr string
  | VBytes bytes
  | VFloat uint64
  | VTime gotime

subsection \<open>Positions (position.go)\<close>

datatype SourceType =
    SourceTypeUnspecified
  | SourceTypeMySQLGTID
  | SourceTypeMySQLFilePos
  | SourceTypePostgres
  | SourceTypeOracle
  | SourceTypeSQLServer
  | SourceTypeMongoDB

record Position =
  pos_BinlogFile :: string
  pos_BinlogPos :: uint32
  pos_LSN :: uint64
  pos_SCN :: uint64
  pos_Timestamp :: uint64
  pos_Order :: int
  pos_ResumeToken :: "bytes option"
  pos_ChangeLsn :: string
  pos_SeqVal :: string
  pos_CommitTime :: gotime
  pos_TxID :: string
  pos_SeqNo :: int
  pos_Total :: int

text \<open>The zero value \<^verbatim>\<open>Position{}\<close>.\<close>

definition Position_zero :: Position where
  "Position_zero =
     \<lparr> pos_BinlogFile = [], pos_BinlogPos = 0, pos_LSN = 0, pos_SCN = 0, pos_Timestamp = 0,
       pos_Order = 0, pos_ResumeToken = None, pos_ChangeLsn = [], pos_SeqVal = [],
       pos_CommitTime = 0, pos_TxID = [], pos_SeqNo = 0, pos_Total = 0 \<rparr>"

definition compareUint64 :: "uint64 \<Rightarrow> uint64 \<Rightarrow> int" where
  "compareUint64 a b = (if a < b then - 1 else if a > b then 1 else 0)"

definition Position_Compare :: "Position \<Rightarrow> Position \<Rightarrow> SourceType \<Rightarrow> int res" where
  "Position_Compare p other sourceType =
     (case sourceType of
        SourceTypePostgres \<Rightarrow> Inr (compareUint64 (pos_LSN p) (pos_LSN other))
      | SourceTypeOracle \<Rightarrow> Inr (compareUint64 (pos_SCN p) (pos_SCN other))
      | SourceTypeSQLServer \<Rightarrow>
          (let c = strings_Compare (pos_ChangeLsn p) (pos_ChangeLsn other) in
           if c \<noteq> 0 then Inr c else Inr (strings_Compare (pos_SeqVal p) (pos_SeqVal other)))
      | SourceTypeMySQLFilePos \<Rightarrow>
          (let c = strings_Compare (pos_BinlogFile p) (pos_BinlogFile other) in
           if c \<noteq> 0 then Inr c
           else Inr (compareUint64 (ucast (pos_BinlogPos p)) (ucast (pos_BinlogPos other))))
      | SourceTypeMySQLGTID \<Rightarrow>
          Inl (Errorf ''MySQL GTID mode does not use Compare(); use gtid_set membership instead'')
      | SourceTypeMongoDB \<Rightarrow>
          Inl (Errorf ''MongoDB does not use Compare(); use SetResumeAfter() instead'')
      | SourceTypeUnspecified \<Rightarrow>
          Inl (Errorf ''unsupported source type for comparison: 0''))"

definition Position_String :: "(gotime \<Rightarrow> string) \<Rightarrow> Position \<Rightarrow> string" where
  "Position_String Format p =
     (if pos_TxID p \<noteq> [] then
        pos_TxID p @ '':'' @ Itoa (pos_SeqNo p) @ '':'' @ Itoa (pos_Total p)
      else Format (pos_CommitTime p) @ '':'' @ Itoa (pos_SeqNo p))"

definition Position_IsZero :: "Position \<Rightarrow> bool" where
  "Position_IsZero p =
     (pos_CommitTime p = 0 \<and> pos_BinlogFile p = [] \<and> pos_LSN p = 0 \<and> pos_SCN p = 0
      \<and> pos_Timestamp p = 0 \<and> pos_ChangeLsn p = [] \<and> pos_SeqVal p = []
      \<and> (case pos_ResumeToken p of None \<Rightarrow> True | Some rt \<Rightarrow> length rt = 0))"

definition Position_Clone :: "Position \<Rightarrow> Position" where
  "Position_Clone p =
     \<lparr> pos_BinlogFile = pos_BinlogFile p, pos_BinlogPos = pos_BinlogPos p, pos_LSN = pos_LSN p,
       pos_SCN = pos_SCN p, pos_Timestamp = pos_Timestamp p, pos_Order = pos_Order p,
       pos_ResumeToken = (case pos_ResumeToken p of None \<Rightarrow> None | Some rt \<Rightarrow> Some (take (length rt) rt)),
       pos_ChangeLsn = pos_ChangeLsn p, pos_SeqVal = pos_SeqVal p,
       pos_CommitTime = pos_CommitTime p, pos_TxID = pos_TxID p, pos_SeqNo = pos_SeqNo p,
       pos_Total = pos_Total p \<rparr>"

subsection \<open>Sources, tables and schemas (source_info.go, table_info.go, schema_info.go)\<close>

record SourceInfo =
  src_Connector :: string
  src_Host :: string
  src_Port :: int
  src_Database :: string
  src_ClusterName :: string
  src_ServerName :: string
  src_Snapshot :: bool

definition SourceInfo_zero :: SourceInfo where
  "SourceInfo_zero =
     \<lparr> src_Connector = [], src_Host = [], src_Port = 0, src_Database = [], src_ClusterName = [],
       src_ServerName = [], src_Snapshot = False \<rparr>"

definition SourceInfo_String :: "SourceInfo \<Rightarrow> string" where
  "SourceInfo_String s =
     src_Connector s @ ''://'' @ src_Host s @ '':'' @ Itoa (src_Port s) @ ''/'' @ src_Database s"

record ColumnInfo =
  ci_Name :: string
  ci_Type :: string
  ci_Nullable :: bool
  ci_Length :: int
  ci_Scale :: int

record TableInfo =
  ti_Database :: string
  ti_Schema :: string
  ti_Table :: string
  ti_PrimaryKeyColumns :: "string list"
  ti_UniqueKeyColumns :: "string list"
  ti_Columns :: "ColumnInfo list"

definition TableInfo_zero :: TableInfo where
  "TableInfo_zero =
     \<lparr> ti_Database = [], ti_Schema = [], ti_Table = [], ti_PrimaryKeyColumns = [],
       ti_UniqueKeyColumns = [], ti_Columns = [] \<rparr>"

definition TableInfo_String :: "TableInfo \<Rightarrow> string" where
  "TableInfo_String t =
     (if ti_Schema t \<noteq> [] then ti_Database t @ ''.'' @ ti_Schema t @ ''.'' @ ti_Table t
      else ti_Database t @ ''.'' @ ti_Table t)"

definition HasPrimaryKey :: "TableInfo \<Rightarrow> bool" where
  "HasPrimaryKey t = (length (ti_PrimaryKeyColumns t) > 0)"

definition HasUniqueKey :: "TableInfo \<Rightarrow> bool" where
  "HasUniqueKey t = (length (ti_UniqueKeyColumns t) > 0)"

definition GetKeyColumns :: "TableInfo \<Rightarrow> string list" where
  "GetKeyColumns t =
     (if length (ti_PrimaryKeyColumns t) > 0 then ti_PrimaryKeyColumns t else ti_UniqueKeyColumns t)"

definition TableInfo_GetColumn :: "TableInfo \<Rightarrow> string \<Rightarrow> ColumnInfo option" where
  "TableInfo_GetColumn t name = find (\<lambda>c. ci_Name c = name) (ti_Columns t)"

definition TableInfo_Clone :: "TableInfo \<Rightarrow> TableInfo" where
  "TableInfo_Clone t =
     \<lparr> ti_Database = ti_Database t, ti_Schema = ti_Schema t, ti_Table = ti_Table t,
       ti_PrimaryKeyColumns = map id (ti_PrimaryKeyColumns t),
       ti_UniqueKeyColumns = map id (ti_UniqueKeyColumns t),
       ti_Columns = map id (ti_Columns t) \<rparr>"

record ColumnSchema =
  cs_Name :: string
  cs_Type :: string
  cs_Optional :: bool
  cs_Default :: gval

record SchemaInfo =
  si_Version :: int
  si_Columns :: "ColumnSchema list"
  si_PrimaryKey :: "string list"

definition SchemaInfo_GetColumn :: "SchemaInfo \<Rightarrow> string \<Rightarrow> ColumnSchema option" where
  "SchemaInfo_GetColumn s name = find (\<lambda>c. cs_Name c = name) (si_Columns s)"

text \<open>
  \<^verbatim>\<open>IsCompatible\<close> first builds a map from the names of the other schema's columns (a later column
  with the same name replaces the earlier one), then looks every column up in it.
\<close>

definition IsCompatible :: "SchemaInfo option \<Rightarrow> SchemaInfo option \<Rightarrow> bool" where
  "IsCompatible s other =
     (case (s, other) of
        (Some s, Some other) \<Rightarrow>
          (let otherCols = fold (\<lambda>c m. AList.update (cs_Name c) c m) (si_Columns other) [] in
           list_all (\<lambda>c. case map_of otherCols (cs_Name c) of
                           None \<Rightarrow> False
                         | Some oc \<Rightarrow> cs_Type c = cs_Type oc) (si_Columns s))
      | _ \<Rightarrow> False)"

subsection \<open>Rows (row_data.go)\<close>

record Field =
  fld_Name :: string
  fld_Value :: gval
  fld_Type :: string
  fld_Null :: bool

definition Field_zero :: Field where
  "Field_zero = \<lparr> fld_Name = [], fld_Value = VNil, fld_Type = [], fld_Null = False \<rparr>"

record RowData =
  row_Fields :: "(string, Field) gomap option"

definition RowData_zero :: RowData where
  "RowData_zero = \<lparr> row_Fields = None \<rparr>"

text \<open>Reading a nil map is reading an empty one; storing into it panics (\<^const>\<open>None\<close>).\<close>

definition fields_of :: "RowData \<Rightarrow> (string, Field) gomap" where
  "fields_of r = (case row_Fields r of None \<Rightarrow> [] | Some m \<Rightarrow> m)"

definition NewRowData :: RowData where
  "NewRowData = \<lparr> row_Fields = Some [] \<rparr>"

definition RowData_Get :: "RowData option \<Rightarrow> string \<Rightarrow> gval \<times> bool" where
  "RowData_Get r name =
     (case r of
        None \<Rightarrow> (VNil, False)
      | Some r \<Rightarrow> (case map_of (fields_of r) name of
                   None \<Rightarrow> (VNil, False)
                 | Some f \<Rightarrow> (fld_Value f, True)))"

definition RowData_GetField :: "RowData option \<Rightarrow> string \<Rightarrow> Field \<times> bool" where
  "RowData_GetField r name =
     (case r of
        None \<Rightarrow> (Field_zero, False)
      | Some r \<Rightarrow> (case map_of (fields_of r) name of
                   None \<Rightarrow> (Field_zero, False)
                 | Some f \<Rightarrow> (f, True)))"

definition RowData_Set :: "RowData \<Rightarrow> string \<Rightarrow> gval \<Rightarrow> string \<Rightarrow> RowData option" where
  "RowData_Set r name val typ =
     (case row_Fields r of
        None \<Rightarrow> None
      | Some m \<Rightarrow> Some (r\<lparr> row_Fields := Some (AList.update name
                     \<lparr> fld_Name = name, fld_Value = val, fld_Type = typ, fld_Null = (val = VNil) \<rparr> m) \<rparr>))"

definition RowData_SetNull :: "RowData \<Rightarrow> string \<Rightarrow> string \<Rightarrow> RowData option" where
  "RowData_SetNull r name typ =
     (case row_Fields r of
        None \<Rightarrow> None
      | Some m \<Rightarrow> Some (r\<lparr> row_Fields := Some (AList.update name
                     \<lparr> fld_Name = name, fld_Value = VNil, fld_Type = typ, fld_Null = True \<rparr> m) \<rparr>))"

definition RowData_Clone :: "RowData option \<Rightarrow> RowData option" where
  "RowData_Clone r =
     (case r of
        None \<Rightarrow> None
      | Some r \<Rightarrow> Some \<lparr> row_Fields = Some (fold (\<lambda>(k, v) m. AList.update k v m) (fields_of r) []) \<rparr>)"

definition RowData_IsEmpty :: "RowData option \<Rightarrow> bool" where
  "RowData_IsEmpty r = (case r of None \<Rightarrow> True | Some r \<Rightarrow> length (fields_of r) = 0)"

definition ColumnNames :: "RowData option \<Rightarrow> string list" where
  "ColumnNames r = (case r of None \<Rightarrow> [] | Some r \<Rightarrow> map fst (fields_of r))"

subsection \<open>Change events (change_event.go, transaction.go, heartbeat.go, ddl.go, schema_history.go)\<close>

datatype EventType =
    EventTypeInsert
  | EventTypeUpdate
  | EventTypeDelete
  | EventTypeTruncate
  | EventTypeDDL
  | EventTypeHeartbeat
  | EventTypeTombstone

record TransactionInfo =
  tx_ID :: string
  tx_TotalEvents :: int
  tx_EventIndex :: int
  tx_BeginTime :: gotime
  tx_CommitTime :: gotime

definition IsBegin :: "TransactionInfo option \<Rightarrow> bool" where
  "IsBegin t = (case t of None \<Rightarrow> False | Some t \<Rightarrow> tx_EventIndex t = 0)"

definition IsEnd :: "TransactionInfo option \<Rightarrow> bool" where
  "IsEnd t = (case t of None \<Rightarrow> False | Some t \<Rightarrow> tx_EventIndex t = tx_TotalEvents t - 1)"

definition IsSingleEvent :: "TransactionInfo option \<Rightarrow> bool" where
  "IsSingleEvent t = (case t of None \<Rightarrow> False | Some t \<Rightarrow> tx_TotalEvents t = 1)"

record ChangeEvent =
  ev_ID :: string
  ev_Source :: SourceInfo
  ev_Type :: EventType
  ev_Position :: Position
  ev_Table :: TableInfo
  ev_Before :: RowData
  ev_After :: RowData
  ev_Timestamp :: gotime
  ev_Transaction :: "TransactionInfo option"
  ev_Schema :: "SchemaInfo option"
  ev_Metadata :: "(string, string) gomap option"

definition GenerateEventID :: "(gotime \<Rightarrow> string) \<Rightarrow> SourceInfo \<Rightarrow> gotime \<Rightarrow> int \<Rightarrow> string" where
  "GenerateEventID Format source timestamp seqNo =
     src_Connector source @ '':'' @ src_Database source @ '':'' @ Format timestamp @ '':'' @ Itoa seqNo"

definition IsSnapshot :: "ChangeEvent \<Rightarrow> bool" where
  "IsSnapshot e = src_Snapshot (ev_Source e)"

definition IsDDL :: "ChangeEvent \<Rightarrow> bool" where
  "IsDDL e = (ev_Type e = EventTypeDDL)"

definition IsHeartbeat :: "ChangeEvent \<Rightarrow> bool" where
  "IsHeartbeat e = (ev_Type e = EventTypeHeartbeat)"

definition IsDataEvent :: "ChangeEvent \<Rightarrow> bool" where
  "IsDataEvent e =
     (ev_Type e = EventTypeInsert \<or> ev_Type e = EventTypeUpdate \<or> ev_Type e = EventTypeDelete)"

fun estimateValueSize :: "gval \<Rightarrow> nat" where
  "estimateValueSize VNil = 0"
| "estimateValueSize (VStr x) = length x"
| "estimateValueSize (VBytes x) = length x"
| "estimateValueSize v = 16"

definition ChangeEvent_Size :: "ChangeEvent option \<Rightarrow> nat" where
  "ChangeEvent_Size e =
     (case e of
        None \<Rightarrow> 0
      | Some e \<Rightarrow>
          (let n = length (src_Database (ev_Source e)) + length (ti_Database (ev_Table e))
                     + length (ti_Table (ev_Table e)) + 64;
               n = fold (\<lambda>(name, f) n. n + (length name + estimateValueSize (fld_Value f)))
                     (fields_of (ev_Before e)) n
           in fold (\<lambda>(name, f) n. n + (length name + estimateValueSize (fld_Value f)))
                (fields_of (ev_After e)) n))"

record HeartbeatEvent =
  hb_Source :: SourceInfo
  hb_Timestamp :: gotime
  hb_Position :: Position

text \<open>\<^verbatim>\<open>UnixNano\<close> of a time, in nanoseconds since 1970 (the zero time is the start of year 1).\<close>

definition UnixNano :: "gotime \<Rightarrow> int" where
  "UnixNano t = t - 62135596800000000000"

definition ToChangeEvent :: "HeartbeatEvent \<Rightarrow> ChangeEvent" where
  "ToChangeEvent h =
     \<lparr> ev_ID = src_Connector (hb_Source h) @ '':heartbeat:'' @ Itoa (UnixNano (hb_Timestamp h)),
       ev_Source = hb_Source h, ev_Type = EventTypeHeartbeat, ev_Position = hb_Position h,
       ev_Table = TableInfo_zero, ev_Before = RowData_zero, ev_After = RowData_zero,
       ev_Timestamp = hb_Timestamp h, ev_Transaction = None, ev_Schema = None, ev_Metadata = None \<rparr>"

definition NewHeartbeat :: "SourceInfo \<Rightarrow> Position \<Rightarrow> gotime \<Rightarrow> HeartbeatEvent" where
  "NewHeartbeat source pos now = \<lparr> hb_Source = source, hb_Timestamp = now, hb_Position = pos \<rparr>"

datatype DDLType = DDLTypeCreate | DDLTypeAlter | DDLTypeDrop | DDLTypeRename | DDLTypeTruncate

record DDLInfo =
  ddl_Type :: DDLType
  ddl_Statement :: string
  ddl_Database :: string
  ddl_Table :: string

record DDLEvent =
  de_ChangeEvent :: ChangeEvent
  de_DDL :: DDLInfo

text \<open>The two \<^verbatim>\<open>time.Now\<close> calls of \<^verbatim>\<open>NewDDLEvent\<close> are the two time arguments.\<close>

definition NewDDLEvent ::
  "(gotime \<Rightarrow> string) \<Rightarrow> SourceInfo \<Rightarrow> DDLInfo \<Rightarrow> Position \<Rightarrow> string \<Rightarrow> gotime \<Rightarrow> gotime \<Rightarrow> DDLEvent" where
  "NewDDLEvent Format source ddl pos stmt now1 now2 =
     \<lparr> de_ChangeEvent =
         \<lparr> ev_ID = GenerateEventID Format source now1 0, ev_Source = source, ev_Type = EventTypeDDL,
           ev_Position = pos, ev_Table = TableInfo_zero, ev_Before = RowData_zero,
           ev_After = RowData_zero, ev_Timestamp = now2, ev_Transaction = None, ev_Schema = None,
           ev_Metadata = None \<rparr>,
       de_DDL = ddl \<rparr>"

datatype DDLStatus =
    DDLStatusPending
  | DDLStatusApplying
  | DDLStatusCompleted
  | DDLStatusFailed
  | DDLStatusSkipped

record DDLRecord =
  dr_ID :: string
  dr_Position :: "Position option"
  dr_Database :: string
  dr_Table :: string
  dr_DDL :: string
  dr_NewTableInfo :: "TableInfo option"
  dr_Status :: DDLStatus
  dr_AppliedAt :: "gotime option"
  dr_CompletedAt :: "gotime option"
  dr_Error :: string
  dr_RetryCount :: int
  dr_CreatedAt :: gotime

record SchemaHistoryRecord =
  shr_Position :: Position
  shr_Database :: string
  shr_Schema :: string
  shr_Table :: string
  shr_DDL :: string
  shr_TableInfo :: "TableInfo option"
  shr_ChangeType :: string
  shr_DDLStatus :: DDLStatus
  shr_Timestamp :: gotime

subsection \<open>What the accessors promise\<close>

lemma Position_Clone_id [simp, event_simps]: "Position_Clone p = p"
  by (cases p) (simp add: Position_Clone_def split: option.split)

lemma TableInfo_Clone_id [simp, event_simps]: "TableInfo_Clone t = t"
  by (cases t) (simp add: TableInfo_Clone_def)

lemma Position_zero_IsZero [simp]: "Position_IsZero Position_zero"
  by (simp add: Position_zero_def Position_IsZero_def)

lemma compareUint64_eq_0: "compareUint64 a b = 0 \<longleftrightarrow> a = b"
  by (auto simp: compareUint64_def)

lemma compareUint64_antisym: "compareUint64 b a = - compareUint64 a b"
  by (auto simp: compareUint64_def)

lemma compareUint64_le: "compareUint64 a b \<le> 0 \<longleftrightarrow> a \<le> b"
  by (auto simp: compareUint64_def)

lemma map_of_fold_update:
  "map_of (fold (\<lambda>c m. AList.update (f c) c m) cs m0) k
     = (case find (\<lambda>c. f c = k) (rev cs) of None \<Rightarrow> map_of m0 k | Some c \<Rightarrow> Some c)"
  by (induction cs arbitrary: m0) (auto simp: find_append split: option.splits)

lemma IsCompatible_iff:
  "IsCompatible (Some s) (Some t) \<longleftrightarrow>
     (\<forall>c \<in> set (si_Columns s).
        \<exists>d. find (\<lambda>d. cs_Name d = cs_Name c) (rev (si_Columns t)) = Some d \<and> cs_Type c = cs_Type d)"
  by (auto simp: IsCompatible_def map_of_fold_update Let_def list_all_iff split: option.splits)

lemma RowData_Get_Set [event_simps]:
  "RowData_Set r name val typ = Some r' \<Longrightarrow>
     RowData_Get (Some r') n = (if n = name then (val, True) else RowData_Get (Some r) n)"
  by (auto simp: RowData_Set_def RowData_Get_def fields_of_def split: option.splits if_splits)

lemma RowData_Set_NewRowData: "\<exists>r'. RowData_Set NewRowData name val typ = Some r'"
  by (simp add: RowData_Set_def NewRowData_def)

subsection \<open>Comparators\<close>

text \<open>
  The interface of a three-way comparison: the sign flips when the arguments are exchanged and
  \<open>\<le>\<close> is transitive. \<^verbatim>\<open>compareUint64\<close> and \<^verbatim>\<open>strings.Compare\<close> provide it, the lexicographic
  combination of two comparators provides it again, and \<^verbatim>\<open>Position.Compare\<close> is built from these.
\<close>

locale comparator =
  fixes cmp :: "'a \<Rightarrow> 'a \<Rightarrow> int"
  assumes antisym: "cmp b a = - cmp a b"
    and trans: "cmp a b \<le> 0 \<Longrightarrow> cmp b c \<le> 0 \<Longrightarrow> cmp a c \<le> 0"
begin

lemma refl: "cmp a a = 0"
  using antisym [of a a] by simp

lemma total: "cmp a b \<le> 0 \<or> cmp b a \<le> 0"
  using antisym [of a b] by linarith

lemma pullback: "comparator (\<lambda>p q. cmp (f p) (f q))"
  by unfold_locales (rule antisym, rule trans)

lemma eq_trans: "cmp a b = 0 \<Longrightarrow> cmp b c = 0 \<Longrightarrow> cmp a c = 0"
  using trans [of a b c] trans [of c b a] antisym [of a b] antisym [of b c] antisym [of a c]
  by linarith

end

locale lex_comparator = fst: comparator cmp1 + snd: comparator cmp2
  for cmp1 :: "'a \<Rightarrow> 'a \<Rightarrow> int" and cmp2 :: "'b \<Rightarrow> 'b \<Rightarrow> int"
begin

lemma lex_antisym:
  "(if cmp1 b a \<noteq> 0 then cmp1 b a else cmp2 d c) = - (if cmp1 a b \<noteq> 0 then cmp1 a b else cmp2 c d)"
  using fst.antisym [of a b] snd.antisym [of c d] by auto

lemma lex_trans:
  assumes "(if cmp1 a b \<noteq> 0 then cmp1 a b else cmp2 x y) \<le> 0"
    and "(if cmp1 b c \<noteq> 0 then cmp1 b c else cmp2 y z) \<le> 0"
  shows "(if cmp1 a c \<noteq> 0 then cmp1 a c else cmp2 x z) \<le> 0"
proof (cases "cmp1 a c = 0")
  case True
  then have "cmp1 a b = 0" "cmp1 b c = 0"
    using assms fst.trans [of a b c] fst.trans [of b c a] fst.trans [of c a b]
      fst.antisym [of a b] fst.antisym [of b c] fst.antisym [of a c]
    by (simp_all split: if_splits)
  with True assms show ?thesis using snd.trans [of x y z] by simp
next
  case False
  have "cmp1 a b \<le> 0" "cmp1 b c \<le> 0" using assms by (simp_all split: if_splits)
  with False show ?thesis using fst.trans by auto
qed

end

sublocale lex_comparator \<subseteq> lex: comparator
  "\<lambda>p q. if cmp1 (fst p) (fst q) \<noteq> 0 then cmp1 (fst p) (fst q) else cmp2 (snd p) (snd q)"
  by unfold_locales (rule lex_antisym, rule lex_trans)

interpretation u64: comparator compareUint64
  by unfold_locales (auto simp: compareUint64_def split: if_splits)

interpretation str: comparator strings_Compare
  by unfold_locales (auto simp: strings_Compare_def split: if_splits)

interpretation file_pos: lex_comparator strings_Compare compareUint64
  by unfold_locales

interpretation lsn_seq: lex_comparator strings_Compare strings_Compare
  by unfold_locales

text \<open>The source types whose positions \<^verbatim>\<open>Compare\<close> orders.\<close>

definition comparable :: "SourceType \<Rightarrow> bool" where
  "comparable st =
     (st \<in> {SourceTypePostgres, SourceTypeOracle, SourceTypeSQLServer, SourceTypeMySQLFilePos})"

definition compare_value :: "SourceType \<Rightarrow> Position \<Rightarrow> Position \<Rightarrow> int" where
  "compare_value st p q = (case Position_Compare p q st of Inl _ \<Rightarrow> 0 | Inr c \<Rightarrow> c)"

lemma Position_Compare_ok:
  "comparable st \<Longrightarrow> Position_Compare p q st = Inr (compare_value st p q)"
  by (auto simp: comparable_def compare_value_def Position_Compare_def Let_def)

lemma comparator_compare_value: "comparable st \<Longrightarrow> comparator (compare_value st)"
proof -
  assume "comparable st"
  then consider "st = SourceTypePostgres" | "st = SourceTypeOracle" | "st = SourceTypeSQLServer"
    | "st = SourceTypeMySQLFilePos"
    by (auto simp: comparable_def)
  then show ?thesis
  proof cases
    case 1
    then have "compare_value st = (\<lambda>p q. compareUint64 (pos_LSN p) (pos_LSN q))"
      by (simp add: compare_value_def Position_Compare_def fun_eq_iff)
    then show ?thesis using u64.pullback [of pos_LSN] by simp
  next
    case 2
    then have "compare_value st = (\<lambda>p q. compareUint64 (pos_SCN p) (pos_SCN q))"
      by (simp add: compare_value_def Position_Compare_def fun_eq_iff)
    then show ?thesis using u64.pullback [of pos_SCN] by simp
  next
    case 3
    then have "compare_value st = (\<lambda>p q. if strings_Compare (pos_ChangeLsn p) (pos_ChangeLsn q) \<noteq> 0
        then strings_Compare (pos_ChangeLsn p) (pos_ChangeLsn q)
        else strings_Compare (pos_SeqVal p) (pos_SeqVal q))"
      by (simp add: compare_value_def Position_Compare_def Let_def fun_eq_iff)
    then show ?thesis
      using lsn_seq.lex.pullback [of "\<lambda>p. (pos_ChangeLsn p, pos_SeqVal p)"]
      by (simp only: fst_conv snd_conv)
  next
    case 4
    then have "compare_value st = (\<lambda>p q. if strings_Compare (pos_BinlogFile p) (pos_BinlogFile q) \<noteq> 0
        then strings_Compare (pos_BinlogFile p) (pos_BinlogFile q)
        else compareUint64 (ucast (pos_BinlogPos p)) (ucast (pos_BinlogPos q)))"
      by (simp add: compare_value_def Position_Compare_def Let_def fun_eq_iff)
    then show ?thesis
      using file_pos.lex.pullback [of "\<lambda>p. (pos_BinlogFile p, ucast (pos_BinlogPos p))"]
      by (simp only: fst_conv snd_conv)
  qed
qed



end
