(* ===== verification/Table_Lifecycle.thy ===== *)
theory Table_Lifecycle
  imports Events "HOL-Library.Sublist"
begin

section \<open>Table lifecycles (internal/source: table_lifecycle.go, global_min_position.go, lifecycle_store.go)\<close>

text \<open>
  The state machine of one table in the pipeline, the computation of the position from which the
  source must be read again, and the in-memory store of lifecycles. A method of
  \<^verbatim>\<open>*TableLifecycle\<close> holds the table's mutex from its first to its last statement, so it is one
  function on the record. A method that can fail returns before it writes any field, so an error
  leaves the record as it was.
\<close>

named_theorems lifecycle_simps \<open>what an operation of a lifecycle leaves in each field\<close>

record TableID =
  tid_Database :: string
  tid_Schema :: string
  tid_Table :: string

definition TableID_String :: "TableID \<Rightarrow> string" where
  "TableID_String t =
     (if tid_Schema t \<noteq> [] then tid_Database t @ ''.'' @ tid_Schema t @ ''.'' @ tid_Table t
      else tid_Database t @ ''.'' @ tid_Table t)"

text \<open>\<open>TableStateUnset\<close> is the empty string, the zero value of \<^verbatim>\<open>PreviousState\<close>.\<close>

datatype TableState =
    TableStatePending
  | TableStateSnapshotting
  | TableStateCatchingUp
  | TableStateStreaming
  | TableStateError
  | TableStatePaused
  | TableStateUnset

fun TableState_text :: "TableState \<Rightarrow> string" where
  "TableState_text TableStatePending = ''pending''"
| "TableState_text TableStateSnapshotting = ''snapshotting''"
| "TableState_text TableStateCatchingUp = ''catching_up''"
| "TableState_text TableStateStreaming = ''streaming''"
| "TableState_text TableStateError = ''error''"
| "TableState_text TableStatePaused = ''paused''"
| "TableState_text TableStateUnset = []"

text \<open>The map \<^verbatim>\<open>validTransitions\<close>; a state without an entry is \<^const>\<open>None\<close>.\<close>

fun validTransitions :: "TableState \<Rightarrow> TableState list option" where
  "validTransitions TableStatePending = Some [TableStateSnapshotting]"
| "validTransitions TableStateSnapshotting = Some [TableStateCatchingUp, TableStateError]"
| "validTransitions TableStateCatchingUp =
     Some [TableStateStreaming, TableStateCatchingUp, TableStateError, TableStatePaused]"
| "validTransitions TableStateStreaming = Some [TableStateError, TableStatePaused]"
| "validTransitions _ = None"

record CatchingUpProgress =
  cup_CurrentGTID :: string
  cup_EventSeq :: int
  cup_FileOffset :: int
  cup_UpsertUntil :: gotime

definition CatchingUpProgress_zero :: CatchingUpProgress where
  "CatchingUpProgress_zero =
     \<lparr> cup_CurrentGTID = [], cup_EventSeq = 0, cup_FileOffset = 0, cup_UpsertUntil = 0 \<rparr>"

record TableLifecycle =
  tl_TableID :: TableID
  tl_State :: TableState
  tl_PreviousState :: TableState
  tl_SnapshotPosition :: "Position option"
  tl_StreamPosition :: "Position option"
  tl_CatchingUpProgress :: CatchingUpProgress
  tl_RetryCount :: int
  tl_MaxRetries :: int
  tl_LastError :: string
  tl_LastStateChange :: gotime

definition NewTableLifecycle :: "TableID \<Rightarrow> gotime \<Rightarrow> TableLifecycle" where
  "NewTableLifecycle tableID now =
     \<lparr> tl_TableID = tableID, tl_State = TableStatePending, tl_PreviousState = TableStateUnset,
       tl_SnapshotPosition = None, tl_StreamPosition = None,
       tl_CatchingUpProgress = CatchingUpProgress_zero, tl_RetryCount = 0, tl_MaxRetries = 3,
       tl_LastError = [], tl_LastStateChange = now \<rparr>"

definition TransitionTo ::
  "TableLifecycle \<Rightarrow> TableState \<Rightarrow> Position option \<Rightarrow> gotime \<Rightarrow> TableLifecycle res" where
  "TransitionTo lc newState pos now =
     (case validTransitions (tl_State lc) of
        None \<Rightarrow> Inl (Errorf (''no transitions defined from state '' @ Quote (TableState_text (tl_State lc))))
      | Some allowed \<Rightarrow>
          if newState \<notin> set allowed then
            Inl (Errorf (''invalid transition from '' @ Quote (TableState_text (tl_State lc))
                   @ '' to '' @ Quote (TableState_text newState)))
          else
            let lc = lc\<lparr> tl_PreviousState := tl_State lc, tl_State := newState, tl_LastStateChange := now \<rparr>;
                lc = (if newState = TableStateSnapshotting \<and> pos \<noteq> None
                      then lc\<lparr> tl_SnapshotPosition := pos \<rparr> else lc);
                lc = (if pos \<noteq> None then lc\<lparr> tl_StreamPosition := pos \<rparr> else lc)
            in Inr lc)"

definition SetError :: "TableLifecycle \<Rightarrow> string \<Rightarrow> gotime \<Rightarrow> TableLifecycle" where
  "SetError lc msg now =
     lc\<lparr> tl_PreviousState := tl_State lc, tl_State := TableStateError, tl_LastError := msg,
         tl_LastStateChange := now \<rparr>"

definition ResetToPending ::
  "TableLifecycle \<Rightarrow> Position option \<Rightarrow> gotime \<Rightarrow> TableLifecycle res" where
  "ResetToPending lc newSnapshotPos now =
     (if tl_State lc \<noteq> TableStateError then
        Inl (Errorf (''ResetToPending only allowed from error state, current state: ''
               @ Quote (TableState_text (tl_State lc))))
      else
        let lc = lc\<lparr> tl_SnapshotPosition := newSnapshotPos \<rparr>;
            lc = lc\<lparr> tl_PreviousState := tl_State lc, tl_State := TableStatePending,
                     tl_LastStateChange := now \<rparr>;
            lc = lc\<lparr> tl_LastError := [] \<rparr>
        in Inr (lc\<lparr> tl_RetryCount := tl_RetryCount lc + 1 \<rparr>))"

definition Pause :: "TableLifecycle \<Rightarrow> gotime \<Rightarrow> TableLifecycle res" where
  "Pause lc now =
     (if tl_State lc \<noteq> TableStateCatchingUp \<and> tl_State lc \<noteq> TableStateStreaming then
        Inl (Errorf (''Pause only allowed from catching_up or streaming, current state: ''
               @ Quote (TableState_text (tl_State lc))))
      else Inr (lc\<lparr> tl_PreviousState := tl_State lc, tl_State := TableStatePaused,
                    tl_LastStateChange := now \<rparr>))"

definition Resume :: "TableLifecycle \<Rightarrow> gotime \<Rightarrow> TableLifecycle res" where
  "Resume lc now =
     (if tl_State lc \<noteq> TableStatePaused then
        Inl (Errorf (''Resume only allowed from paused state, current state: ''
               @ Quote (TableState_text (tl_State lc))))
      else Inr (lc\<lparr> tl_State := tl_PreviousState lc, tl_PreviousState := TableStatePaused,
                    tl_LastStateChange := now \<rparr>))"

definition GetState :: "TableLifecycle \<Rightarrow> TableState" where
  "GetState lc = tl_State lc"

definition UpdateStreamPosition :: "TableLifecycle \<Rightarrow> Position option \<Rightarrow> TableLifecycle" where
  "UpdateStreamPosition lc pos = lc\<lparr> tl_StreamPosition := pos \<rparr>"

definition UpdateCatchingUpProgress :: "TableLifecycle \<Rightarrow> CatchingUpProgress \<Rightarrow> TableLifecycle" where
  "UpdateCatchingUpProgress lc progress = lc\<lparr> tl_CatchingUpProgress := progress \<rparr>"

subsection \<open>The global minimum position (global_min_position.go)\<close>

definition effectivePosition :: "TableLifecycle \<Rightarrow> Position option" where
  "effectivePosition lc =
     (case tl_State lc of
        TableStatePending \<Rightarrow> None
      | TableStateSnapshotting \<Rightarrow> tl_SnapshotPosition lc
      | TableStateError \<Rightarrow> tl_SnapshotPosition lc
      | TableStateCatchingUp \<Rightarrow>
          if tl_StreamPosition lc \<noteq> None then tl_StreamPosition lc else tl_SnapshotPosition lc
      | TableStateStreaming \<Rightarrow>
          if tl_StreamPosition lc \<noteq> None then tl_StreamPosition lc else tl_SnapshotPosition lc
      | TableStatePaused \<Rightarrow>
          if tl_StreamPosition lc \<noteq> None then tl_StreamPosition lc else tl_SnapshotPosition lc
      | TableStateUnset \<Rightarrow> None)"

fun min_loop :: "Position option \<Rightarrow> TableLifecycle list \<Rightarrow> Position option" where
  "min_loop minPos [] = minPos"
| "min_loop minPos (lc # tables) =
     (case effectivePosition lc of
        None \<Rightarrow> min_loop minPos tables
      | Some pos \<Rightarrow>
          (case minPos of
             None \<Rightarrow> min_loop (Some pos) tables
           | Some mp \<Rightarrow>
               if pos_CommitTime pos < pos_CommitTime mp then min_loop (Some pos) tables
               else min_loop minPos tables))"

definition ComputeGlobalMinPosition :: "TableLifecycle list \<Rightarrow> Position option" where
  "ComputeGlobalMinPosition tables = min_loop None tables"

subsection \<open>The in-memory lifecycle store (lifecycle_store.go)\<close>

type_synonym MemoryLifecycleStore = "(string, (TableID, TableLifecycle) gomap) gomap"

definition NewMemoryLifecycleStore :: MemoryLifecycleStore where
  "NewMemoryLifecycleStore = []"

definition ls_tables :: "MemoryLifecycleStore \<Rightarrow> string \<Rightarrow> (TableID, TableLifecycle) gomap" where
  "ls_tables s taskID = (case map_of s taskID of None \<Rightarrow> [] | Some m \<Rightarrow> m)"

definition ls_Save :: "MemoryLifecycleStore \<Rightarrow> string \<Rightarrow> TableLifecycle \<Rightarrow> MemoryLifecycleStore" where
  "ls_Save s taskID lc =
     AList.update taskID (AList.update (tl_TableID lc) lc (ls_tables s taskID)) s"

definition ls_Get :: "MemoryLifecycleStore \<Rightarrow> string \<Rightarrow> TableID \<Rightarrow> TableLifecycle res" where
  "ls_Get s taskID tableID =
     (case map_of s taskID of
        None \<Rightarrow> Inl (Errorf (''task '' @ Quote taskID @ '' not found''))
      | Some tables \<Rightarrow>
          (case map_of tables tableID of
             None \<Rightarrow> Inl (Errorf (''table '' @ TableID_String tableID @ '' not found in task '' @ Quote taskID))
           | Some lc \<Rightarrow> Inr lc))"

definition ls_Delete :: "MemoryLifecycleStore \<Rightarrow> string \<Rightarrow> TableID \<Rightarrow> MemoryLifecycleStore" where
  "ls_Delete s taskID tableID =
     (case map_of s taskID of
        None \<Rightarrow> s
      | Some tables \<Rightarrow> AList.update taskID (AList.delete tableID tables) s)"

definition ls_List :: "MemoryLifecycleStore \<Rightarrow> string \<Rightarrow> TableLifecycle list" where
  "ls_List s taskID = (case map_of s taskID of None \<Rightarrow> [] | Some tables \<Rightarrow> map snd tables)"

definition ls_ListByState :: "MemoryLifecycleStore \<Rightarrow> string \<Rightarrow> TableState \<Rightarrow> TableLifecycle list" where
  "ls_ListByState s taskID state =
     (case map_of s taskID of
        None \<Rightarrow> []
      | Some tables \<Rightarrow> filter (\<lambda>lc. GetState lc = state) (map snd tables))"

definition ls_ListBySchema :: "MemoryLifecycleStore \<Rightarrow> string \<Rightarrow> string \<Rightarrow> TableLifecycle list" where
  "ls_ListBySchema s taskID schema =
     (case map_of s taskID of
        None \<Rightarrow> []
      | Some tables \<Rightarrow> filter (\<lambda>lc. tid_Database (tl_TableID lc) = schema) (map snd tables))"

section \<open>Lifecycle: what the operations do\<close>

lemma TransitionTo_cases:
  "TransitionTo lc ns pos now = Inr lc' \<longleftrightarrow>
     (\<exists>allowed. validTransitions (tl_State lc) = Some allowed \<and> ns \<in> set allowed)
     \<and> lc' = lc\<lparr> tl_PreviousState := tl_State lc, tl_State := ns, tl_LastStateChange := now,
               tl_SnapshotPosition := (if ns = TableStateSnapshotting \<and> pos \<noteq> None then pos
                                       else tl_SnapshotPosition lc),
               tl_StreamPosition := (if pos \<noteq> None then pos else tl_StreamPosition lc) \<rparr>"
  by (cases lc) (auto simp: TransitionTo_def Let_def split: option.splits)

lemma SetError_fields [lifecycle_simps]:
  "tl_State (SetError lc msg now) = TableStateError"
  "tl_PreviousState (SetError lc msg now) = tl_State lc"
  "tl_TableID (SetError lc msg now) = tl_TableID lc"
  "tl_RetryCount (SetError lc msg now) = tl_RetryCount lc"
  "tl_StreamPosition (SetError lc msg now) = tl_StreamPosition lc"
  by (simp_all add: SetError_def)

lemma ResetToPending_cases:
  "ResetToPending lc pos now = Inr lc' \<longleftrightarrow>
     tl_State lc = TableStateError
     \<and> lc' = lc\<lparr> tl_SnapshotPosition := pos, tl_PreviousState := TableStateError,
               tl_State := TableStatePending, tl_LastStateChange := now, tl_LastError := [],
               tl_RetryCount := tl_RetryCount lc + 1 \<rparr>"
  by (cases lc) (auto simp: ResetToPending_def Let_def)

lemma Pause_cases:
  "Pause lc now = Inr lc' \<longleftrightarrow>
     tl_State lc \<in> {TableStateCatchingUp, TableStateStreaming}
     \<and> lc' = lc\<lparr> tl_PreviousState := tl_State lc, tl_State := TableStatePaused, tl_LastStateChange := now \<rparr>"
  by (auto simp: Pause_def)

lemma Resume_cases:
  "Resume lc now = Inr lc' \<longleftrightarrow>
     tl_State lc = TableStatePaused
     \<and> lc' = lc\<lparr> tl_State := tl_PreviousState lc, tl_PreviousState := TableStatePaused, tl_LastStateChange := now \<rparr>"
  by (auto simp: Resume_def)

lemmas lifecycle_cases = TransitionTo_cases ResetToPending_cases Pause_cases Resume_cases

lemma validTransitions_mem [simp]:
  "validTransitions s = Some allowed \<Longrightarrow> t \<in> set allowed \<longleftrightarrow>
     (s, t) \<in> {(TableStatePending, TableStateSnapshotting),
               (TableStateSnapshotting, TableStateCatchingUp), (TableStateSnapshotting, TableStateError),
               (TableStateCatchingUp, TableStateStreaming), (TableStateCatchingUp, TableStateCatchingUp),
               (TableStateCatchingUp, TableStateError), (TableStateCatchingUp, TableStatePaused),
               (TableStateStreaming, TableStateError), (TableStateStreaming, TableStatePaused)}"
  by (cases s) auto

subsection \<open>Reachable lifecycles\<close>

text \<open>One step of a lifecycle is one successful call of one of the methods that write it.\<close>

inductive lc_step :: "TableLifecycle \<Rightarrow> TableLifecycle \<Rightarrow> bool" where
  step_TransitionTo: "TransitionTo lc ns pos now = Inr lc' \<Longrightarrow> lc_step lc lc'"
| step_SetError: "lc_step lc (SetError lc msg now)"
| step_ResetToPending: "ResetToPending lc pos now = Inr lc' \<Longrightarrow> lc_step lc lc'"
| step_Pause: "Pause lc now = Inr lc' \<Longrightarrow> lc_step lc lc'"
| step_Resume: "Resume lc now = Inr lc' \<Longrightarrow> lc_step lc lc'"
| step_UpdateStreamPosition: "lc_step lc (UpdateStreamPosition lc pos)"
| step_UpdateCatchingUpProgress: "lc_step lc (UpdateCatchingUpProgress lc progress)"

inductive_cases lc_stepE: "lc_step lc lc'"

text \<open>
  A run records the states the table has been in, the oldest first. A new lifecycle may be given a
  snapshot position before it is stored, as \<^verbatim>\<open>SnapshotScheduler.AddTable\<close> does.
\<close>

inductive lc_run :: "TableState list \<Rightarrow> TableLifecycle \<Rightarrow> bool" where
  run_new: "lc_run [TableStatePending] (NewTableLifecycle tableID now)"
| run_add: "lc_run [TableStatePending] ((NewTableLifecycle tableID now)\<lparr> tl_SnapshotPosition := pos \<rparr>)"
| run_step: "lc_run tr lc \<Longrightarrow> lc_step lc lc' \<Longrightarrow> lc_run (tr @ [tl_State lc']) lc'"

definition since_pending :: "TableState list \<Rightarrow> TableState list" where
  "since_pending tr = rev (takeWhile (\<lambda>s. s \<noteq> TableStatePending) (rev tr))"

lemma since_pending_snoc [simp]:
  "since_pending (tr @ [s]) = (if s = TableStatePending then [] else since_pending tr @ [s])"
  by (simp add: since_pending_def)

text \<open>
  The phases a table has gone through since it was last pending, by its state; a paused table is
  judged by the state it will resume to.
\<close>

fun phases :: "TableState \<Rightarrow> TableState list" where
  "phases TableStateSnapshotting = [TableStateSnapshotting]"
| "phases TableStateCatchingUp = [TableStateSnapshotting, TableStateCatchingUp]"
| "phases TableStateStreaming = [TableStateSnapshotting, TableStateCatchingUp, TableStateStreaming]"
| "phases _ = []"

definition lc_inv :: "TableState list \<Rightarrow> TableLifecycle \<Rightarrow> bool" where
  "lc_inv tr lc =
     (tl_State lc \<noteq> TableStateUnset
      \<and> (tl_State lc = TableStatePaused \<longrightarrow>
           tl_PreviousState lc \<in> {TableStateCatchingUp, TableStateStreaming}
           \<and> subseq (phases (tl_PreviousState lc)) (since_pending tr))
      \<and> subseq (phases (tl_State lc)) (since_pending tr)
      \<and> 0 \<le> tl_RetryCount lc)"

lemma subseq_snocI: "subseq xs ys \<Longrightarrow> subseq xs (ys @ [y])"
  by (rule subseq_order.trans) auto

lemma subseq_snoc_sameI: "subseq xs ys \<Longrightarrow> subseq (xs @ [y]) (ys @ [y])"
  by (rule list_emb_append_mono) auto

lemma phases_transition:
  assumes "validTransitions s = Some allowed" "ns \<in> set allowed" "subseq (phases s) p"
  shows "subseq (phases ns) (p @ [ns])"
  using assms subseq_snoc_sameI [OF assms(3), of ns] subseq_snocI [OF assms(3), of ns]
  by (cases s) (auto intro: list_emb_append2)

lemma lc_inv_step:
  assumes "lc_step lc lc'" and "lc_inv tr lc"
  shows "lc_inv (tr @ [tl_State lc']) lc'"
  using assms
proof cases
  case (step_TransitionTo ns pos now)
  then obtain allowed where allowed: "validTransitions (tl_State lc) = Some allowed" "ns \<in> set allowed"
    by (auto simp: lifecycle_cases)
  have "subseq (phases ns) (since_pending tr @ [ns])"
    using assms(2) by (intro phases_transition [OF allowed]) (simp add: lc_inv_def)
  with step_TransitionTo allowed show ?thesis
    using assms(2) by (auto simp: lifecycle_cases lc_inv_def intro: subseq_snocI)
next
  case (step_Resume now)
  then show ?thesis
    using assms(2) by (auto simp: lifecycle_cases lc_inv_def intro: subseq_snocI)
qed (use assms(2) in \<open>auto simp: lifecycle_cases lifecycle_simps lc_inv_def UpdateStreamPosition_def
       UpdateCatchingUpProgress_def intro: subseq_snocI\<close>)

lemma lc_inv_run: "lc_run tr lc \<Longrightarrow> lc_inv tr lc"
proof (induction rule: lc_run.induct)
  case (run_new tableID now)
  then show ?case by (simp add: lc_inv_def NewTableLifecycle_def)
next
  case (run_add tableID now pos)
  then show ?case by (simp add: lc_inv_def NewTableLifecycle_def)
next
  case (run_step tr lc lc')
  then show ?case by (blast intro: lc_inv_step)
qed

text \<open>
  C3. A table streams only after a snapshot and a catch-up: in every run of the lifecycle methods
  from \<^verbatim>\<open>NewTableLifecycle\<close>, if the table is in the state streaming, then since it was last pending
  it has been in snapshotting, then in catching_up, then in streaming. If it is paused, the state
  to which \<^verbatim>\<open>Resume\<close> returns it is catching_up or streaming and it has gone through the same phases
  up to that state. The state is never the empty one.
\<close>

theorem lifecycle_phases:
  assumes "lc_run tr lc"
  shows "tl_State lc \<noteq> TableStateUnset
    \<and> (tl_State lc = TableStateStreaming \<longrightarrow>
           subseq [TableStateSnapshotting, TableStateCatchingUp, TableStateStreaming] (since_pending tr))
    \<and> (tl_State lc = TableStatePaused \<longrightarrow>
           (\<exists>lc'. Resume lc now = Inr lc'
                \<and> tl_State lc' \<in> {TableStateCatchingUp, TableStateStreaming}
                \<and> subseq (phases (tl_State lc')) (since_pending tr)))"
  using lc_inv_run [OF assms] by (auto simp: lc_inv_def Resume_def)

theorem lifecycle_phases_witness:
  "\<exists>lc. lc_run [TableStatePending, TableStateSnapshotting, TableStateCatchingUp, TableStateStreaming,
                TableStatePaused] lc
      \<and> (\<exists>lc'. Resume lc 9 = Inr lc' \<and> tl_State lc' \<in> {TableStateCatchingUp, TableStateStreaming})"
proof -
  let ?l0 = "NewTableLifecycle \<lparr> tid_Database = ''db'', tid_Schema = [], tid_Table = ''t'' \<rparr> 1"
  obtain l1 where l1: "TransitionTo ?l0 TableStateSnapshotting None 2 = Inr l1"
    "tl_State l1 = TableStateSnapshotting"
    by (simp add: TransitionTo_def NewTableLifecycle_def)
  obtain l2 where l2: "TransitionTo l1 TableStateCatchingUp None 3 = Inr l2"
    "tl_State l2 = TableStateCatchingUp"
    using l1 by (simp add: TransitionTo_def)
  obtain l3 where l3: "TransitionTo l2 TableStateStreaming None 4 = Inr l3"
    "tl_State l3 = TableStateStreaming"
    using l2 by (simp add: TransitionTo_def)
  obtain l4 where l4: "Pause l3 5 = Inr l4" "tl_State l4 = TableStatePaused"
    using l3 by (simp add: Pause_def)
  have "lc_run ((([TableStatePending] @ [tl_State l1]) @ [tl_State l2]) @ [tl_State l3]) l3"
    by (intro run_step [OF run_step [OF run_step [OF run_new]]] step_TransitionTo) (fact l1 l2 l3)+
  then have run: "lc_run (((([TableStatePending] @ [tl_State l1]) @ [tl_State l2]) @ [tl_State l3]) @ [tl_State l4]) l4"
    by (rule run_step) (rule step_Pause [OF l4(1)])
  then show ?thesis
    using lifecycle_phases [OF run, of 9] l1 l2 l3 l4 by auto
qed

text \<open>
  C12. \<^verbatim>\<open>Resume\<close> after \<^verbatim>\<open>Pause\<close> puts the table back where it was: the state, both positions, the
  catch-up progress, the retry count and the last error are those before the pause; only
  \<^verbatim>\<open>PreviousState\<close> and the time of the change differ. A pause of a table that is neither catching
  up nor streaming, and a resume of one that is not paused, fail.
\<close>

theorem Pause_Resume:
  "(tl_State lc \<in> {TableStateCatchingUp, TableStateStreaming} \<longrightarrow>
      (\<exists>p. Pause lc t1 = Inr p \<and> tl_State p = TableStatePaused
         \<and> Resume p t2 = Inr (lc\<lparr> tl_PreviousState := TableStatePaused, tl_LastStateChange := t2 \<rparr>)))
   \<and> (tl_State lc \<notin> {TableStateCatchingUp, TableStateStreaming} \<longrightarrow> (\<exists>e. Pause lc t1 = Inl e))
   \<and> (tl_State lc \<noteq> TableStatePaused \<longrightarrow> (\<exists>e. Resume lc t1 = Inl e))"
  by (cases lc) (auto simp: Pause_def Resume_def)

theorem Pause_Resume_witness:
  "\<exists>lc p. tl_State lc = TableStateStreaming \<and> Pause lc 5 = Inr p
     \<and> Resume p 6 = Inr (lc\<lparr> tl_PreviousState := TableStatePaused, tl_LastStateChange := 6 \<rparr>)
     \<and> (\<exists>e. Resume lc 5 = Inl e)"
proof -
  let ?lc = "(NewTableLifecycle \<lparr> tid_Database = ''db'', tid_Schema = [], tid_Table = ''t'' \<rparr> 1)
               \<lparr> tl_State := TableStateStreaming \<rparr>"
  have st: "tl_State ?lc = TableStateStreaming" by simp
  obtain p where "Pause ?lc 5 = Inr p"
    "Resume p 6 = Inr (?lc\<lparr> tl_PreviousState := TableStatePaused, tl_LastStateChange := 6 \<rparr>)"
    using Pause_Resume [of ?lc 5 6] st by blast
  moreover have "\<exists>e. Resume ?lc 5 = Inl e"
    using Pause_Resume [of ?lc 5 6] st by simp
  ultimately show ?thesis using st by blast
qed

section \<open>The global minimum\<close>

lemma min_loop_spec:
  "case min_loop mp tables of
     None \<Rightarrow> mp = None \<and> (\<forall>lc \<in> set tables. effectivePosition lc = None)
   | Some p \<Rightarrow>
       (mp = Some p \<or> (\<exists>lc \<in> set tables. effectivePosition lc = Some p))
       \<and> (\<forall>q. mp = Some q \<or> (\<exists>lc \<in> set tables. effectivePosition lc = Some q)
              \<longrightarrow> pos_CommitTime p \<le> pos_CommitTime q)"
proof (induction mp tables rule: min_loop.induct)
  case (2 mp lc tables)
  show ?case
  proof (cases "effectivePosition lc")
    case None
    with 2(1) show ?thesis by (auto split: option.splits)
  next
    case (Some pos)
    show ?thesis
    proof (cases mp)
      case None
      with 2(2) [OF Some None] Some show ?thesis
        by (auto split: option.splits)
    next
      case mp: (Some m)
      show ?thesis
      proof (cases "pos_CommitTime pos < pos_CommitTime m")
        case True
        with 2(3) [OF Some mp True] Some mp show ?thesis
          by (auto split: option.splits)
      next
        case False
        with 2(4) [OF Some mp False] Some mp show ?thesis
          by (auto split: option.splits)
      qed
    qed
  qed
qed (auto split: option.splits)

text \<open>
  C8. \<^verbatim>\<open>ComputeGlobalMinPosition\<close> returns the effective position of one of the tables whose commit
  time is the least over all effective positions, whatever the order in which the tables are
  visited; it returns nil exactly when no table has an effective position.
\<close>

theorem ComputeGlobalMinPosition_minimum:
  "(ComputeGlobalMinPosition tables = None \<longleftrightarrow> (\<forall>lc \<in> set tables. effectivePosition lc = None))
   \<and> (\<forall>p. ComputeGlobalMinPosition tables = Some p \<longrightarrow>
         (\<exists>lc \<in> set tables. effectivePosition lc = Some p)
         \<and> (\<forall>lc \<in> set tables. \<forall>q. effectivePosition lc = Some q \<longrightarrow> pos_CommitTime p \<le> pos_CommitTime q))
   \<and> (set tables = set tables' \<longrightarrow>
         map_option pos_CommitTime (ComputeGlobalMinPosition tables)
           = map_option pos_CommitTime (ComputeGlobalMinPosition tables'))"
proof -
  note spec = min_loop_spec [of None, folded ComputeGlobalMinPosition_def]
  show ?thesis
  proof (intro conjI impI allI)
    show "ComputeGlobalMinPosition tables = None \<longleftrightarrow> (\<forall>lc \<in> set tables. effectivePosition lc = None)"
      using spec [of tables] by (auto split: option.splits)
  next
    assume eq: "set tables = set tables'"
    show "map_option pos_CommitTime (ComputeGlobalMinPosition tables)
           = map_option pos_CommitTime (ComputeGlobalMinPosition tables')"
      using spec [of tables] spec [of tables'] unfolding eq
      by (auto split: option.splits intro: order.antisym)
  qed (use spec [of tables] in \<open>auto split: option.splits\<close>)
qed

theorem ComputeGlobalMinPosition_minimum_witness:
  "\<exists>a b p. ComputeGlobalMinPosition [a, b] = Some p \<and> pos_CommitTime p = 7
     \<and> effectivePosition b = Some p \<and> pos_CommitTime p \<le> pos_CommitTime (the (effectivePosition a))
     \<and> map_option pos_CommitTime (ComputeGlobalMinPosition [b, a]) = Some 7
     \<and> ComputeGlobalMinPosition [] = None"
proof -
  let ?lc = "\<lambda>t. (NewTableLifecycle \<lparr> tid_Database = ''db'', tid_Schema = [], tid_Table = ''t'' \<rparr> 1)
      \<lparr> tl_State := TableStateStreaming, tl_StreamPosition := Some (Position_zero\<lparr> pos_CommitTime := t \<rparr>) \<rparr>"
  have e: "effectivePosition (?lc t) = Some (Position_zero\<lparr> pos_CommitTime := t \<rparr>)" for t
    by (simp add: effectivePosition_def)
  then have m: "ComputeGlobalMinPosition [?lc 9, ?lc 7] = Some (Position_zero\<lparr> pos_CommitTime := 7 \<rparr>)"
    by (simp add: ComputeGlobalMinPosition_def)
  moreover have "map_option pos_CommitTime (ComputeGlobalMinPosition [?lc 7, ?lc 9]) = Some 7"
    using ComputeGlobalMinPosition_minimum [of "[?lc 9, ?lc 7]" "[?lc 7, ?lc 9]"]
    unfolding m by (simp add: insert_commute del: map_option_eq_Some)
  moreover have "ComputeGlobalMinPosition [] = None"
    using ComputeGlobalMinPosition_minimum [of "[]"] by simp
  ultimately show ?thesis
    by (intro exI [of _ "?lc 9"] exI [of _ "?lc 7"]) (simp add: e)
qed

section \<open>The store contract\<close>

text \<open>
  What the scheduler and the binlog consumer rely on: a lookup after a save or a delete, that a
  stored lifecycle is filed under its own table ID, and that a listing holds each stored lifecycle
  once. The client lemmas are proved from these laws alone.
\<close>

locale lifecycle_store =
  fixes invar :: "'s \<Rightarrow> bool"
    and key :: "'v \<Rightarrow> 'k"
    and save :: "'s \<Rightarrow> 't \<Rightarrow> 'v \<Rightarrow> 's"
    and get :: "'s \<Rightarrow> 't \<Rightarrow> 'k \<Rightarrow> 'v option"
    and delete :: "'s \<Rightarrow> 't \<Rightarrow> 'k \<Rightarrow> 's"
    and listing :: "'s \<Rightarrow> 't \<Rightarrow> 'v list"
  assumes get_save: "invar s \<Longrightarrow> get (save s t v) t' k = (if t' = t \<and> k = key v then Some v else get s t' k)"
    and get_delete: "invar s \<Longrightarrow> get (delete s t k) t' k' = (if t' = t \<and> k' = k then None else get s t' k')"
    and get_key: "invar s \<Longrightarrow> get s t k = Some v \<Longrightarrow> key v = k"
    and set_listing: "invar s \<Longrightarrow> set (listing s t) = {v. get s t (key v) = Some v}"
    and distinct_listing: "invar s \<Longrightarrow> distinct (map key (listing s t))"
    and invar_save: "invar s \<Longrightarrow> invar (save s t v)"
    and invar_delete: "invar s \<Longrightarrow> invar (delete s t k)"
begin

lemma listing_save:
  "invar s \<Longrightarrow> set (listing (save s t v) t) = insert v {w \<in> set (listing s t). key w \<noteq> key v}"
  by (auto simp: set_listing invar_save get_save)

lemma listing_delete:
  "invar s \<Longrightarrow> set (listing (delete s t k) t) = {w \<in> set (listing s t). key w \<noteq> k}"
  by (auto simp: set_listing invar_delete get_delete)

lemma get_fold_save:
  "\<lbrakk>invar s; distinct (map key vs)\<rbrakk> \<Longrightarrow>
     get (fold (\<lambda>v s. save s t v) vs s) t' k
       = (if t' = t then case find (\<lambda>v. key v = k) vs of Some v \<Rightarrow> Some v | None \<Rightarrow> get s t k
          else get s t' k)"
proof (induction vs arbitrary: s)
  case (Cons a vs)
  have "find (\<lambda>v. key v = key a) vs = None"
    using Cons.prems by (simp add: find_None_iff) (metis image_eqI)
  with Cons show ?case by (auto simp: invar_save get_save split: option.splits)
qed simp

lemma invar_fold_save: "invar s \<Longrightarrow> invar (fold (\<lambda>v s. save s t v) vs s)"
  by (induction vs arbitrary: s) (simp_all add: invar_save)

end

definition ls_invar :: "MemoryLifecycleStore \<Rightarrow> bool" where
  "ls_invar s =
     (gomap_ok s \<and> (\<forall>(task, tables) \<in> set s.
        gomap_ok tables \<and> (\<forall>(k, lc) \<in> set tables. tl_TableID lc = k)))"

definition ls_lookup :: "MemoryLifecycleStore \<Rightarrow> string \<Rightarrow> TableID \<Rightarrow> TableLifecycle option" where
  "ls_lookup s taskID tableID = map_of (ls_tables s taskID) tableID"

lemma ls_Get_lookup:
  "ls_lookup s task k = (case ls_Get s task k of Inl _ \<Rightarrow> None | Inr lc \<Rightarrow> Some lc)"
  by (simp add: ls_lookup_def ls_Get_def ls_tables_def split: option.split)

lemma ls_Get_Inr: "ls_Get s task k = Inr lc \<longleftrightarrow> ls_lookup s task k = Some lc"
  by (auto simp: ls_Get_lookup split: sum.split)

lemma ls_invar_tables:
  assumes "ls_invar s"
  shows "gomap_ok (ls_tables s task)"
    and "(k, lc) \<in> set (ls_tables s task) \<Longrightarrow> tl_TableID lc = k"
  using assms by (auto simp: ls_invar_def ls_tables_def dest!: map_of_SomeD split: option.splits)

lemma ls_tables_Save:
  "ls_tables (ls_Save s task lc) t =
     (if t = task then AList.update (tl_TableID lc) lc (ls_tables s task) else ls_tables s t)"
  by (auto simp: ls_tables_def ls_Save_def)

lemma ls_tables_Delete:
  "ls_tables (ls_Delete s task k) t =
     (if t = task then AList.delete k (ls_tables s task) else ls_tables s t)"
  by (auto simp: ls_tables_def ls_Delete_def split: option.splits)

lemma ls_List_tables: "ls_List s task = map snd (ls_tables s task)"
  by (auto simp: ls_List_def ls_tables_def split: option.splits)

lemma ls_ListBySchema_tables:
  "ls_ListBySchema s task schema
     = filter (\<lambda>lc. tid_Database (tl_TableID lc) = schema) (ls_List s task)"
  by (auto simp: ls_ListBySchema_def ls_List_def split: option.splits)

lemma ls_ListByState_tables:
  "ls_ListByState s task st = filter (\<lambda>lc. tl_State lc = st) (ls_List s task)"
  by (auto simp: ls_ListByState_def ls_List_def GetState_def split: option.splits)

lemma ls_invar_Save: "ls_invar s \<Longrightarrow> ls_invar (ls_Save s task lc)"
  using ls_invar_tables [where s = s and task = task]
  by (auto simp: ls_invar_def ls_Save_def set_update_gomap)

lemma ls_invar_Delete: "ls_invar s \<Longrightarrow> ls_invar (ls_Delete s task k)"
  using ls_invar_tables [where s = s and task = task]
  by (auto simp: ls_invar_def ls_Delete_def set_update_gomap set_delete_gomap ls_tables_def
      split: option.splits)

lemma ls_invar_New [simp]: "ls_invar NewMemoryLifecycleStore"
  by (simp add: ls_invar_def NewMemoryLifecycleStore_def)

lemma ls_List_keys: "ls_invar s \<Longrightarrow> map tl_TableID (ls_List s task) = map fst (ls_tables s task)"
  using ls_invar_tables(2) [where s = s and task = task] by (auto simp: ls_List_tables)

interpretation mem: lifecycle_store ls_invar tl_TableID ls_Save ls_lookup ls_Delete ls_List
proof unfold_locales
  fix s :: MemoryLifecycleStore and t k v
  assume inv: "ls_invar s"
  note tables = ls_invar_tables [OF inv]
  show "ls_lookup s t k = Some v \<Longrightarrow> tl_TableID v = k"
    using tables by (auto simp: ls_lookup_def dest: map_of_SomeD)
  show "set (ls_List s t) = {v. ls_lookup s t (tl_TableID v) = Some v}"
    using tables by (force simp: ls_List_tables ls_lookup_def map_of_eq_Some_iff image_iff)
  show "distinct (map tl_TableID (ls_List s t))"
    using tables by (simp add: ls_List_keys inv)
qed (simp_all add: ls_lookup_def ls_tables_Save ls_tables_Delete ls_invar_Save ls_invar_Delete)

end
