(* ===== verification/Framing.thy ===== *)
theory Framing
  imports Prelude
begin

section \<open>Length-prefixed records\<close>

text \<open>
  The cache files and the local schema history are both sequences of framed records that are
  read back record by record with \<^verbatim>\<open>io.ReadFull\<close>. The locale \<open>framing\<close> is the contract between a
  writer \<open>enc\<close> and a reader \<open>dec\<close> of one record; what a whole file decodes to, complete or torn, is
  proved from the contract once for both.
\<close>

text \<open>
  \<^verbatim>\<open>io.ReadFull\<close> of \<open>n\<close> bytes from what is left of a file; \<open>fault\<close> is an error of the device, if
  there is one. It returns the bytes and the rest.
\<close>

definition ReadFull :: "err option \<Rightarrow> nat \<Rightarrow> bytes \<Rightarrow> (bytes \<times> bytes) res" where
  "ReadFull fault n f =
     (case fault of
        Some e \<Rightarrow> Inl e
      | None \<Rightarrow>
          if n = 0 then Inr ([], f)
          else if f = [] then Inl EOF
          else if length f < n then Inl UnexpectedEOF
          else Inr (take n f, drop n f))"

lemma ReadFull_length: "ReadFull flt n f = Inr (b, r) \<Longrightarrow> length f = n + length r \<and> length b = n"
  by (auto simp: ReadFull_def split: option.splits if_splits)

lemma ReadFull_append [simp]: "length b = n \<Longrightarrow> ReadFull None n (b @ r) = Inr (b, r)"
  by (auto simp: ReadFull_def)

lemma ReadFull_short:
  "length f < n \<Longrightarrow> ReadFull None n f = Inl (if f = [] then EOF else UnexpectedEOF)"
  by (auto simp: ReadFull_def)

lemma ReadFull_exact: "n = length b \<Longrightarrow> ReadFull None n b = Inr (b, [])"
  using ReadFull_append [of b n "[]"] by simp

text \<open>
  Decoding one record gives \<open>Inl None\<close> at a silent end, \<open>Inl (Some e)\<close> on an error, \<open>Inr (p, r)\<close> for a
  payload and the rest. \<open>decode_all\<close> decodes at most \<open>n\<close> records.
\<close>

type_synonym decoder = "bytes \<Rightarrow> err option + bytes \<times> bytes"

primrec decode_all :: "decoder \<Rightarrow> nat \<Rightarrow> bytes \<Rightarrow> bytes list \<times> err option" where
  "decode_all dec 0 f = ([], None)"
| "decode_all dec (Suc n) f =
     (case dec f of
        Inl er \<Rightarrow> ([], er)
      | Inr (p, r) \<Rightarrow> (p # fst (decode_all dec n r), snd (decode_all dec n r)))"

locale framing =
  fixes ok :: "bytes \<Rightarrow> bool"
    and enc :: "bytes \<Rightarrow> bytes"
    and dec :: decoder
  assumes dec_enc: "ok p \<Longrightarrow> dec (enc p @ r) = Inr (p, r)"
    and dec_torn: "ok p \<Longrightarrow> k < length (enc p) \<Longrightarrow> \<exists>er. dec (take k (enc p)) = Inl er"
    and dec_shorter: "dec f = Inr (p, r) \<Longrightarrow> length r < length f"
    and dec_end: "dec [] = Inl None"
begin

lemma enc_nonempty: "ok p \<Longrightarrow> enc p \<noteq> []"
  using dec_enc [of p "[]"] dec_end by auto

lemma decode_all_enough:
  "length f < n \<Longrightarrow> length f < m \<Longrightarrow> decode_all dec n f = decode_all dec m f"
proof (induction n arbitrary: m f)
  case (Suc n)
  then obtain m' where m: "m = Suc m'" by (cases m) auto
  show ?case
  proof (cases "dec f")
    case (Inr pr)
    then obtain p r where pr: "dec f = Inr (p, r)" by (cases pr) auto
    with Suc.prems m have "length r < n" "length r < m'" using dec_shorter [OF pr] by auto
    with Suc.IH [of r m'] pr m show ?thesis by simp
  qed (simp add: m)
qed simp

lemma decode_all_append:
  assumes "list_all ok ps" and "length (concat (map enc ps) @ t) < n"
  shows "decode_all dec n (concat (map enc ps) @ t)
    = (ps @ fst (decode_all dec (Suc (length t)) t), snd (decode_all dec (Suc (length t)) t))"
  using assms
proof (induction ps arbitrary: n)
  case Nil
  then show ?case using decode_all_enough [of t n "Suc (length t)"] by simp
next
  case (Cons p ps)
  then obtain m where n: "n = Suc m" by (cases n) auto
  have "length (concat (map enc ps) @ t) < m"
    using Cons.prems n enc_nonempty [of p] by (cases "enc p") auto
  with Cons n show ?case by (simp add: dec_enc)
qed

lemma decode_all_complete:
  "list_all ok ps \<Longrightarrow> length (concat (map enc ps)) < n \<Longrightarrow>
     decode_all dec n (concat (map enc ps)) = (ps, None)"
  using decode_all_append [of ps "[]" n] by (simp add: dec_end)

lemma decode_all_torn:
  assumes "list_all ok ps" "ok p" "k < length (enc p)"
    and "length (concat (map enc ps)) + k < n"
  shows "fst (decode_all dec n (concat (map enc ps) @ take k (enc p))) = ps"
proof -
  obtain er where "dec (take k (enc p)) = Inl er" using dec_torn assms by blast
  with assms show ?thesis by (subst decode_all_append) auto
qed

end

end
