(* ===== verification/Binlog_Cache.thy ===== *)
theory Binlog_Cache
  imports Events Framing
begin

section \<open>The binlog cache (internal/cache: cache_event.go, backend.go, local_backend.go)\<close>

text \<open>
  The file-backed buffer of change events of the tables that are not yet streaming. A record on
  disk is \<^verbatim>\<open>[4B len][4B CRC32][payload][4B len]\<close>; the CRC covers the length and the payload. The
  model goes down to the bytes of the files: a directory maps paths to inodes, an inode has a
  content, and an open handle refers to an inode, so that a handle to a removed file keeps its
  inode as it does under POSIX. \<^verbatim>\<open>json.Marshal\<close> and \<^verbatim>\<open>json.Unmarshal\<close> of a \<^verbatim>\<open>CacheEvent\<close> are
  the arguments \<open>marshal\<close> and \<open>unmarshal\<close>. What the operating system answers to the calls of one
  operation (an error of \<^verbatim>\<open>open\<close>, of the \<open>i\<close>-th \<^verbatim>\<open>write\<close>, of \<^verbatim>\<open>fsync\<close>, ...) is the argument \<open>os\<close>.
\<close>

named_theorems frame_simps \<open>one step of the record reader\<close>

record CacheEvent =
  ce_SourceType :: SourceType
  ce_Position :: bytes
  ce_TxID :: string
  ce_EventSeq :: int
  ce_IsBegin :: bool
  ce_IsCommit :: bool
  ce_Payload :: bytes
  ce_TimestampMs :: int
  ce_ByteOffset :: uint64
  ce_SeqVal :: string

definition NewCacheEvent :: "int \<Rightarrow> CacheEvent" where
  "NewCacheEvent nowMs =
     \<lparr> ce_SourceType = SourceTypeUnspecified, ce_Position = [], ce_TxID = [], ce_EventSeq = 0,
       ce_IsBegin = False, ce_IsCommit = False, ce_Payload = [], ce_TimestampMs = nowMs,
       ce_ByteOffset = 0, ce_SeqVal = [] \<rparr>"

definition SetPosition ::
  "(Position \<Rightarrow> bytes res) \<Rightarrow> CacheEvent \<Rightarrow> Position \<Rightarrow> CacheEvent res" where
  "SetPosition marshalPos e pos =
     (case marshalPos pos of Inl er \<Rightarrow> Inl er | Inr data \<Rightarrow> Inr (e\<lparr> ce_Position := data \<rparr>))"

definition GetPosition ::
  "(bytes \<Rightarrow> Position res) \<Rightarrow> CacheEvent \<Rightarrow> Position option res" where
  "GetPosition unmarshalPos e =
     (if length (ce_Position e) = 0 then Inr None
      else case unmarshalPos (ce_Position e) of Inl er \<Rightarrow> Inl er | Inr pos \<Rightarrow> Inr (Some pos))"

subsection \<open>Records\<close>

definition MaxRecordSize :: uint32 where
  "MaxRecordSize = 64 * 1024 * 1024"

definition recordOverhead :: nat where
  "recordOverhead = 12"

text \<open>
  The bytes \<^verbatim>\<open>marshalAndWrite\<close> builds for a payload. Lengths are \<^verbatim>\<open>uint32\<close>: from \<open>2 ^ 32 - 12\<close> bytes on
  the total length wraps and the slices of the buffer are out of range.
\<close>

definition record_bytes :: "bytes \<Rightarrow> bytes" where
  "record_bytes payload =
     (let payloadLen = (of_nat (length payload) :: uint32);
          crc = ChecksumIEEE (PutUint32 payloadLen @ payload)
      in PutUint32 payloadLen @ PutUint32 crc @ take (unat payloadLen) payload @ PutUint32 payloadLen)"

definition encode_record :: "bytes \<Rightarrow> bytes res" where
  "encode_record payload =
     (let payloadLen = (of_nat (length payload) :: uint32) in
      if unat payloadLen + recordOverhead \<ge> 2 ^ 32 then Inl (Panic ''slice bounds out of range'')
      else Inr (record_bytes payload))"

text \<open>
  What happens to one round of the reading goroutine besides reading: nothing, the context is
  done at the head of the round or when the event is to be sent, or the device fails at one of
  the four reads.
\<close>

datatype read_fault =
    NoFault
  | CancelHead
  | CancelSend
  | FailLen err
  | FailCrc err
  | FailPayload err
  | FailTail err

fun fault_len :: "read_fault \<Rightarrow> err option" where
  "fault_len (FailLen e) = Some e" | "fault_len _ = None"

fun fault_crc :: "read_fault \<Rightarrow> err option" where
  "fault_crc (FailCrc e) = Some e" | "fault_crc _ = None"

fun fault_payload :: "read_fault \<Rightarrow> err option" where
  "fault_payload (FailPayload e) = Some e" | "fault_payload _ = None"

fun fault_tail :: "read_fault \<Rightarrow> err option" where
  "fault_tail (FailTail e) = Some e" | "fault_tail _ = None"

text \<open>
  The part of a round that reads and checks one record: \<open>Inl None\<close> is the silent end at the end of
  the file, \<open>Inl (Some e)\<close> an error sent to the error channel, \<open>Inr (payload, rest)\<close> a record and
  what follows it.
\<close>

definition read_record :: "read_fault \<Rightarrow> bytes \<Rightarrow> err option + bytes \<times> bytes" where
  "read_record flt f =
     (case ReadFull (fault_len flt) 4 f of
        Inl e \<Rightarrow> if e \<noteq> EOF \<and> e \<noteq> UnexpectedEOF then Inl (Some (Wrapf ''read length prefix'' e)) else Inl None
      | Inr (lenBuf, f) \<Rightarrow>
          let payloadLen = Uint32 lenBuf in
          if payloadLen > MaxRecordSize then Inl (Some (Errorf (''record too large: '' @ Itoa (uint payloadLen)
                   @ '' bytes (max '' @ Itoa (uint MaxRecordSize) @ '')'')))
          else case ReadFull (fault_crc flt) 4 f of
            Inl e \<Rightarrow> Inl (Some (Wrapf ''read crc'' e))
          | Inr (crcBuf, f) \<Rightarrow>
              (case ReadFull (fault_payload flt) (unat payloadLen) f of
                 Inl e \<Rightarrow> Inl (Some (Wrapf ''read payload'' e))
               | Inr (payload, f) \<Rightarrow>
                   (case ReadFull (fault_tail flt) 4 f of
                      Inl e \<Rightarrow> Inl (Some (Wrapf ''read tail length'' e))
                    | Inr (tailBuf, f) \<Rightarrow>
                        if Uint32 tailBuf \<noteq> payloadLen then 
                          Inl (Some (Errorf (''tail length mismatch: header='' @ Itoa (uint payloadLen)
                                 @ '' tail='' @ Itoa (uint (Uint32 tailBuf)))))
                        else if Uint32 crcBuf \<noteq> ChecksumIEEE (lenBuf @ payload)
                        then 
                          Inl (Some (Errorf (''CRC32 mismatch: expected '' @ hex08 (Uint32 crcBuf)
                                 @ '' got '' @ hex08 (ChecksumIEEE (lenBuf @ payload)))))
                        else Inr (payload, f))))"

lemma read_record_shorter: "read_record flt f = Inr (payload, r) \<Longrightarrow> length r < length f"
  by (auto simp: read_record_def Let_def split: sum.splits if_splits dest!: ReadFull_length)

text \<open>
  The goroutine of \<^verbatim>\<open>Read\<close>: the events it sends and what it sends to the error channel. \<open>env i\<close> is
  what befalls the \<open>i\<close>-th round.
\<close>

function read_loop ::
  "(bytes \<Rightarrow> CacheEvent res) \<Rightarrow> (nat \<Rightarrow> read_fault) \<Rightarrow> string \<Rightarrow> int \<Rightarrow> nat \<Rightarrow> bool \<Rightarrow> bytes
     \<Rightarrow> CacheEvent list \<times> err option" where
  "read_loop unmarshal env fromTxID fromEventSeq i emitting f =
     (if env i = CancelHead then ([], None)
      else case read_record (env i) f of
        Inl er \<Rightarrow> ([], er)
      | Inr (payload, f') \<Rightarrow>
          (case unmarshal payload of
             Inl e \<Rightarrow> ([], Some (Wrapf ''unmarshal event'' e))
           | Inr ev \<Rightarrow>
               let emitting' = (emitting \<or> ce_TxID ev = fromTxID \<and> ce_EventSeq ev \<ge> fromEventSeq) in
               if emitting' then
                 if env i = CancelSend then ([], None)
                 else let (evs, er) = read_loop unmarshal env fromTxID fromEventSeq (i + 1) True f'
                      in (ev # evs, er)
               else read_loop unmarshal env fromTxID fromEventSeq (i + 1) False f'))"
  by pat_completeness auto
termination
  by (relation "measure (\<lambda>(_, _, _, _, _, _, f). length f)") (auto dest: read_record_shorter)

declare read_loop.simps [simp del]

subsection \<open>Files and handles\<close>

record FS =
  fs_dir :: "(string, nat) gomap"
  fs_data :: "nat \<Rightarrow> bytes"
  fs_next :: nat

text \<open>
  What the operating system answers to the calls of one operation. \<open>os_write i\<close> is what happens to
  the \<open>i\<close>-th write of the operation: success, or an error after \<open>k\<close> bytes have reached the file.
  \<open>os_readAt off n\<close> says whether a positioned read of \<open>n\<close> bytes at \<open>off\<close> fails.
\<close>

record OS =
  os_open :: "err option"
  os_write :: "nat \<Rightarrow> (nat \<times> err) option"
  os_sync :: "err option"
  os_remove :: "err option"
  os_stat :: "err option"
  os_readDir :: "err option"
  os_truncate :: "err option"
  os_close :: "string \<Rightarrow> err option"
  os_readAt :: "nat \<Rightarrow> nat \<Rightarrow> bool"
  os_read :: "nat \<Rightarrow> read_fault"

definition os_fine :: OS where
  "os_fine =
     \<lparr> os_open = None, os_write = (\<lambda>_. None), os_sync = None, os_remove = None, os_stat = None,
       os_readDir = None, os_truncate = None, os_close = (\<lambda>_. None), os_readAt = (\<lambda>_ _. False),
       os_read = (\<lambda>_. NoFault) \<rparr>"

datatype SyncMode = SyncModeEvery | SyncModeBatch | SyncModeNone

text \<open>
  The backend with the directory it is rooted at. A handle is the inode it was opened on. The
  mutexes are not modelled: each method below holds the lock of its table while it runs.
\<close>

record LocalBackend =
  lb_syncMode :: SyncMode
  lb_files :: "(string, nat) gomap"
  lb_fs :: FS

definition NewLocalBackend :: "err option \<Rightarrow> SyncMode \<Rightarrow> FS \<Rightarrow> LocalBackend res" where
  "NewLocalBackend mkdir syncMode fs =
     (case mkdir of
        Some e \<Rightarrow> Inl (Wrapf ''create base dir'' e)
      | None \<Rightarrow> Inr \<lparr> lb_syncMode = syncMode, lb_files = [], lb_fs = fs \<rparr>)"

definition sanitizeTableID :: "string \<Rightarrow> string" where
  "sanitizeTableID tableID = underscore_runes tableID"

text \<open>The name of the file inside \<^verbatim>\<open>baseDir\<close>.\<close>

definition filePath :: "string \<Rightarrow> string" where
  "filePath tableID = sanitizeTableID tableID @ ''.binlog''"

definition getFile :: "OS \<Rightarrow> LocalBackend \<Rightarrow> string \<Rightarrow> (nat \<times> LocalBackend) res" where
  "getFile os lb tableID =
     (case map_of (lb_files lb) tableID of
        Some h \<Rightarrow> Inr (h, lb)
      | None \<Rightarrow>
          (case os_open os of
             Some e \<Rightarrow> Inl (Wrapf (''open file for table '' @ tableID) e)
           | None \<Rightarrow>
               (case map_of (fs_dir (lb_fs lb)) (filePath tableID) of
                  Some h \<Rightarrow> Inr (h, lb\<lparr> lb_files := AList.update tableID h (lb_files lb) \<rparr>)
                | None \<Rightarrow>
                    let fs = lb_fs lb; h = fs_next fs in
                    Inr (h, lb\<lparr> lb_files := AList.update tableID h (lb_files lb),
                               lb_fs := fs\<lparr> fs_dir := AList.update (filePath tableID) h (fs_dir fs),
                                            fs_data := (fs_data fs)(h := []),
                                            fs_next := h + 1 \<rparr> \<rparr>))))"

definition fs_append :: "FS \<Rightarrow> nat \<Rightarrow> bytes \<Rightarrow> FS" where
  "fs_append fs h buf = fs\<lparr> fs_data := (fs_data fs)(h := fs_data fs h @ buf) \<rparr>"

definition marshalAndWrite ::
  "(CacheEvent \<Rightarrow> bytes res) \<Rightarrow> OS \<Rightarrow> nat \<Rightarrow> FS \<Rightarrow> nat \<Rightarrow> CacheEvent \<Rightarrow> FS \<times> err option" where
  "marshalAndWrite marshal os i fs h ev =
     (case marshal ev of
        Inl e \<Rightarrow> (fs, Some (Wrapf ''marshal event'' e))
      | Inr payload \<Rightarrow>
          (case encode_record payload of
             Inl e \<Rightarrow> (fs, Some e)
           | Inr buf \<Rightarrow>
               (case os_write os i of
                  None \<Rightarrow> (fs_append fs h buf, None)
                | Some (k, e) \<Rightarrow> (fs_append fs h (take k buf), Some (Wrapf ''write record'' e)))))"

definition maybeSync :: "OS \<Rightarrow> LocalBackend \<Rightarrow> err option" where
  "maybeSync os lb = (if lb_syncMode lb = SyncModeEvery then os_sync os else None)"

definition lb_Write ::
  "(CacheEvent \<Rightarrow> bytes res) \<Rightarrow> OS \<Rightarrow> LocalBackend \<Rightarrow> string \<Rightarrow> CacheEvent \<Rightarrow> LocalBackend \<times> err option" where
  "lb_Write marshal os lb tableID ev =
     (case getFile os lb tableID of
        Inl e \<Rightarrow> (lb, Some e)
      | Inr (h, lb) \<Rightarrow>
          (case marshalAndWrite marshal os 0 (lb_fs lb) h ev of
             (fs, Some e) \<Rightarrow> (lb\<lparr> lb_fs := fs \<rparr>, Some e)
           | (fs, None) \<Rightarrow> (lb\<lparr> lb_fs := fs \<rparr>, maybeSync os lb)))"

fun write_events ::
  "(CacheEvent \<Rightarrow> bytes res) \<Rightarrow> OS \<Rightarrow> nat \<Rightarrow> FS \<Rightarrow> nat \<Rightarrow> CacheEvent list \<Rightarrow> FS \<times> err option" where
  "write_events marshal os i fs h [] = (fs, None)"
| "write_events marshal os i fs h (ev # evs) =
     (case marshalAndWrite marshal os i fs h ev of
        (fs, Some e) \<Rightarrow> (fs, Some e)
      | (fs, None) \<Rightarrow> write_events marshal os (i + 1) fs h evs)"

definition lb_WriteBatch ::
  "(CacheEvent \<Rightarrow> bytes res) \<Rightarrow> OS \<Rightarrow> LocalBackend \<Rightarrow> string \<Rightarrow> CacheEvent list \<Rightarrow> LocalBackend \<times> err option" where
  "lb_WriteBatch marshal os lb tableID events =
     (case getFile os lb tableID of
        Inl e \<Rightarrow> (lb, Some e)
      | Inr (h, lb) \<Rightarrow>
          (case write_events marshal os 0 (lb_fs lb) h events of
             (fs, Some e) \<Rightarrow> (lb\<lparr> lb_fs := fs \<rparr>, Some e)
           | (fs, None) \<Rightarrow>
               (lb\<lparr> lb_fs := fs \<rparr>, if lb_syncMode lb \<noteq> SyncModeNone then os_sync os else None)))"

definition lb_Read ::
  "(bytes \<Rightarrow> CacheEvent res) \<Rightarrow> OS \<Rightarrow> LocalBackend \<Rightarrow> string \<Rightarrow> string \<Rightarrow> int
     \<Rightarrow> CacheEvent list \<times> err option" where
  "lb_Read unmarshal os lb tableID fromTxID fromEventSeq =
     (case map_of (fs_dir (lb_fs lb)) (filePath tableID) of
        None \<Rightarrow> ([], None)
      | Some h \<Rightarrow>
          (case os_open os of
             Some e \<Rightarrow> ([], Some (Wrapf (''open file for reading table '' @ tableID) e))
           | None \<Rightarrow> read_loop unmarshal (os_read os) fromTxID fromEventSeq 0 (fromTxID = [])
                       (fs_data (lb_fs lb) h)))"

definition lb_Delete :: "OS \<Rightarrow> LocalBackend \<Rightarrow> string \<Rightarrow> LocalBackend \<times> err option" where
  "lb_Delete os lb tableID =
     (let lb = lb\<lparr> lb_files := AList.delete tableID (lb_files lb) \<rparr>; fs = lb_fs lb in
      case map_of (fs_dir fs) (filePath tableID) of
        None \<Rightarrow> (lb, None)
      | Some h \<Rightarrow>
          (case os_remove os of
             Some e \<Rightarrow> (lb, Some (Wrapf (''remove file for table '' @ tableID) e))
           | None \<Rightarrow> (lb\<lparr> lb_fs := fs\<lparr> fs_dir := AList.delete (filePath tableID) (fs_dir fs) \<rparr> \<rparr>, None)))"

definition lb_Size :: "OS \<Rightarrow> LocalBackend \<Rightarrow> string \<Rightarrow> nat res" where
  "lb_Size os lb tableID =
     (case map_of (fs_dir (lb_fs lb)) (filePath tableID) of
        None \<Rightarrow> Inl (Wrapf (''stat file for table '' @ tableID) (Errorf ''no such file or directory''))
      | Some h \<Rightarrow>
          (case os_stat os of
             Some e \<Rightarrow> Inl (Wrapf (''stat file for table '' @ tableID) e)
           | None \<Rightarrow> Inr (length (fs_data (lb_fs lb) h))))"

definition lb_TotalSize :: "OS \<Rightarrow> LocalBackend \<Rightarrow> nat res" where
  "lb_TotalSize os lb =
     (case os_readDir os of
        Some e \<Rightarrow> Inl (Wrapf ''read base dir'' e)
      | None \<Rightarrow>
          fold (\<lambda>(name, h) r.
                  case r of
                    Inl e \<Rightarrow> Inl e
                  | Inr tot \<Rightarrow>
                      if \<not> HasSuffix name ''.binlog'' then Inr tot
                      else case os_stat os of
                        Some e \<Rightarrow> Inl (Wrapf (''stat '' @ name) e)
                      | None \<Rightarrow> Inr (tot + length (fs_data (lb_fs lb) h)))
            (fs_dir (lb_fs lb)) (Inr 0))"

definition lb_Exists :: "OS \<Rightarrow> LocalBackend \<Rightarrow> string \<Rightarrow> bool res" where
  "lb_Exists os lb tableID =
     (case os_stat os of
        Some e \<Rightarrow> Inl (Wrapf (''stat file for table '' @ tableID) e)
      | None \<Rightarrow> Inr (map_of (fs_dir (lb_fs lb)) (filePath tableID) \<noteq> None))"

definition lb_Sync :: "OS \<Rightarrow> LocalBackend \<Rightarrow> string \<Rightarrow> err option" where
  "lb_Sync os lb tableID =
     (case map_of (lb_files lb) tableID of None \<Rightarrow> None | Some h \<Rightarrow> os_sync os)"

definition lb_Close :: "OS \<Rightarrow> LocalBackend \<Rightarrow> LocalBackend \<times> err option" where
  "lb_Close os lb =
     (lb\<lparr> lb_files := [] \<rparr>,
      fold (\<lambda>(tableID, h) firstErr.
              case (os_close os tableID, firstErr) of
                (Some e, None) \<Rightarrow> Some (Wrapf (''close file for table '' @ tableID) e)
              | _ \<Rightarrow> firstErr)
        (lb_files lb) None)"

text \<open>
  One candidate end of file of \<^verbatim>\<open>TruncateToLastComplete\<close>: the position of the record that ends
  there, or \<^const>\<open>None\<close> where the code steps back by one byte. The checksum is taken of
  \<^verbatim>\<open>recordBuf[0 : 4+payloadLen]\<close>.
\<close>

definition trunc_try ::
  "(bytes \<Rightarrow> CacheEvent res) \<Rightarrow> (bytes \<Rightarrow> Position res) \<Rightarrow> OS \<Rightarrow> bytes \<Rightarrow> nat \<Rightarrow> Position option option" where
  "trunc_try unmarshal unmarshalPos os f fileSize =
     (if os_readAt os (fileSize - 4) 4 then None
      else let payloadLen = Uint32 (take 4 (drop (fileSize - 4) f)) in
        if payloadLen > MaxRecordSize then None
        else let recordSize = unat payloadLen + recordOverhead in
          if recordSize > fileSize then None
          else let recordStart = fileSize - recordSize in
            if os_readAt os recordStart 4 then None
            else if Uint32 (take 4 (drop recordStart f)) \<noteq> payloadLen then None
            else if os_readAt os recordStart recordSize then None
            else let recordBuf = take recordSize (drop recordStart f) in
              if Uint32 (take 4 (drop 4 recordBuf)) \<noteq> ChecksumIEEE (take (4 + unat payloadLen) recordBuf)
              then None
              else case unmarshal (take (unat payloadLen) (drop 8 recordBuf)) of
                Inl e \<Rightarrow> None
              | Inr ev \<Rightarrow> Some (case GetPosition unmarshalPos ev of Inl e \<Rightarrow> None | Inr pos \<Rightarrow> pos))"

function trunc_scan ::
  "(bytes \<Rightarrow> CacheEvent res) \<Rightarrow> (bytes \<Rightarrow> Position res) \<Rightarrow> OS \<Rightarrow> bytes \<Rightarrow> nat \<Rightarrow> (nat \<times> Position option) option" where
  "trunc_scan unmarshal unmarshalPos os f fileSize =
     (if fileSize < recordOverhead then None
      else case trunc_try unmarshal unmarshalPos os f fileSize of
        None \<Rightarrow> trunc_scan unmarshal unmarshalPos os f (fileSize - 1)
      | Some pos \<Rightarrow> Some (fileSize, pos))"
  by pat_completeness auto
termination
  by (relation "measure (\<lambda>(_, _, _, _, fileSize). fileSize)") (auto simp: recordOverhead_def)

declare trunc_scan.simps [simp del]

definition TruncateToLastComplete ::
  "(bytes \<Rightarrow> CacheEvent res) \<Rightarrow> (bytes \<Rightarrow> Position res) \<Rightarrow> OS \<Rightarrow> LocalBackend \<Rightarrow> string
     \<Rightarrow> LocalBackend \<times> Position option res" where
  "TruncateToLastComplete unmarshal unmarshalPos os lb tableID =
     (case map_of (fs_dir (lb_fs lb)) (filePath tableID) of
        None \<Rightarrow> (lb, Inr None)
      | Some h \<Rightarrow>
          (case os_open os of
             Some e \<Rightarrow> (lb, Inl (Wrapf ''open file'' e))
           | None \<Rightarrow>
               (case os_stat os of
                  Some e \<Rightarrow> (lb, Inl (Wrapf ''stat file'' e))
                | None \<Rightarrow>
                    let fs = lb_fs lb; f = fs_data fs h in
                    if length f = 0 then (lb, Inr None)
                    else (case trunc_scan unmarshal unmarshalPos os f (length f) of
                       Some (validEnd, pos) \<Rightarrow>
                         (case os_truncate os of
                            Some e \<Rightarrow> (lb, Inl (Wrapf ''truncate'' e))
                          | None \<Rightarrow>
                              (lb\<lparr> lb_fs := fs\<lparr> fs_data := (fs_data fs)(h := take validEnd f) \<rparr>,
                                   lb_files := AList.delete tableID (lb_files lb) \<rparr>, Inr pos))
                     | None \<Rightarrow>
                         (case os_truncate os of
                            Some e \<Rightarrow> (lb, Inl e)
                          | None \<Rightarrow> (lb\<lparr> lb_fs := fs\<lparr> fs_data := (fs_data fs)(h := []) \<rparr> \<rparr>, Inr None))))))"

section \<open>The records of a cache file\<close>

definition payload_ok :: "bytes \<Rightarrow> bool" where
  "payload_ok payload = (length payload \<le> 64 * 1024 * 1024)"

lemma payload_ok_len:
  assumes "payload_ok payload"
  shows "unat (of_nat (length payload) :: uint32) = length payload"
    and "\<not> (of_nat (length payload) :: uint32) > MaxRecordSize"
proof -
  show u: "unat (of_nat (length payload) :: uint32) = length payload"
    using assms by (simp add: payload_ok_def unat_of_nat)
  show "\<not> (of_nat (length payload) :: uint32) > MaxRecordSize"
    using assms unfolding word_less_nat_alt u by (simp add: payload_ok_def MaxRecordSize_def)
qed

lemma encode_record_ok: "payload_ok payload \<Longrightarrow> encode_record payload = Inr (record_bytes payload)"
  by (simp add: encode_record_def payload_ok_len(1) recordOverhead_def payload_ok_def)

lemma record_bytes_ok:
  assumes "payload_ok payload"
  defines "l \<equiv> PutUint32 (of_nat (length payload))"
  shows "record_bytes payload = l @ PutUint32 (ChecksumIEEE (l @ payload)) @ payload @ l"
  using payload_ok_len(1) [OF assms(1)] by (simp add: record_bytes_def l_def Let_def)

lemma read_record_complete:
  assumes "payload_ok payload"
  shows "read_record NoFault (record_bytes payload @ r) = Inr (payload, r)"
  using payload_ok_len [OF assms] by (simp add: record_bytes_ok [OF assms] read_record_def)

lemma take_append_cases:
  "take k (a @ b) = (if k \<le> length a then take k a else a @ take (k - length a) b)"
  by simp

lemma read_record_torn:
  assumes "payload_ok payload" and "k < length (record_bytes payload)"
  shows "\<exists>er. read_record NoFault (take k (record_bytes payload)) = Inl er"
proof -
  let ?l = "PutUint32 (of_nat (length payload))"
  let ?c = "PutUint32 (ChecksumIEEE (?l @ payload))"
  note len = payload_ok_len [OF assms(1)]
  have rec: "record_bytes payload = ?l @ ?c @ payload @ ?l" by (rule record_bytes_ok [OF assms(1)])
  from assms(2) have k: "k < length payload + 12" by (simp add: rec)
  then consider "k < 4" | "4 \<le> k" "k < 8" | "8 \<le> k" "k < 8 + length payload" | "8 + length payload \<le> k"
    by linarith
  then show ?thesis
  proof cases
    case 1
    then have "length (take k (record_bytes payload)) < 4" by (simp add: rec)
    then show ?thesis by (auto simp: read_record_def ReadFull_short)
  next
    case 2
    then have "take k (record_bytes payload) = ?l @ take (k - 4) ?c" by (simp add: rec)
    then show ?thesis using 2 len by (simp add: read_record_def ReadFull_short)
  next
    case 3
    then have "take k (record_bytes payload) = ?l @ ?c @ take (k - 8) payload" by (simp add: rec)
    then show ?thesis using 3 len by (simp add: read_record_def ReadFull_short)
  next
    case 4
    then have "take k (record_bytes payload) = ?l @ ?c @ payload @ take (k - 8 - length payload) ?l"
      by (simp add: rec)
    then show ?thesis using 4 k len by (simp add: read_record_def ReadFull_short)
  qed
qed

interpretation cache_frame: framing payload_ok record_bytes "read_record NoFault"
proof unfold_locales
  show "read_record NoFault [] = Inl None" by (simp add: read_record_def ReadFull_def)
qed (fact read_record_complete read_record_torn read_record_shorter)+

section \<open>Reading back what was written\<close>

text \<open>
  The hypothesis on \<^verbatim>\<open>encoding/json\<close>: the event has an encoding, of at most 64 MB, that decodes to
  the event.
\<close>

definition json_ok ::
  "(CacheEvent \<Rightarrow> bytes res) \<Rightarrow> (bytes \<Rightarrow> CacheEvent res) \<Rightarrow> CacheEvent \<Rightarrow> bool" where
  "json_ok marshal unmarshal ev =
     (case marshal ev of Inl _ \<Rightarrow> False | Inr p \<Rightarrow> payload_ok p \<and> unmarshal p = Inr ev)"

definition payload_of :: "(CacheEvent \<Rightarrow> bytes res) \<Rightarrow> CacheEvent \<Rightarrow> bytes" where
  "payload_of marshal ev = (case marshal ev of Inl _ \<Rightarrow> [] | Inr p \<Rightarrow> p)"

definition log_bytes :: "(CacheEvent \<Rightarrow> bytes res) \<Rightarrow> CacheEvent list \<Rightarrow> bytes" where
  "log_bytes marshal evs = concat (map record_bytes (map (payload_of marshal) evs))"

text \<open>The events of a read from the given transaction and sequence number on.\<close>

definition from_position :: "string \<Rightarrow> int \<Rightarrow> CacheEvent list \<Rightarrow> CacheEvent list" where
  "from_position fromTxID fromEventSeq evs =
     (if fromTxID = [] then evs
      else dropWhile (\<lambda>ev. \<not> (ce_TxID ev = fromTxID \<and> fromEventSeq \<le> ce_EventSeq ev)) evs)"

lemma json_okD:
  assumes "json_ok marshal unmarshal ev"
  shows "marshal ev = Inr (payload_of marshal ev)" "payload_ok (payload_of marshal ev)"
    "unmarshal (payload_of marshal ev) = Inr ev"
  using assms by (auto simp: json_ok_def payload_of_def split: sum.splits)

lemma log_bytes_simps [simp]:
  "log_bytes marshal [] = []"
  "log_bytes marshal (ev # evs) = record_bytes (payload_of marshal ev) @ log_bytes marshal evs"
  "log_bytes marshal (as @ bs) = log_bytes marshal as @ log_bytes marshal bs"
  by (simp_all add: log_bytes_def)

lemma read_loop_decode:
  assumes "list_all2 (\<lambda>p ev. unmarshal p = Inr ev) ps evs"
    and "decode_all (read_record NoFault) n f = (ps, er)" and "length f < n"
  shows "read_loop unmarshal (\<lambda>_. NoFault) tx seq i em f
     = (if em then evs
        else dropWhile (\<lambda>ev. \<not> (ce_TxID ev = tx \<and> seq \<le> ce_EventSeq ev)) evs, er)"
  using assms
proof (induction ps arbitrary: n f evs em i)
  case Nil
  from Nil(3) obtain m where n: "n = Suc m" by (cases n) auto
  with Nil show ?case
    by (subst read_loop.simps) (auto split: sum.splits prod.splits)
next
  case (Cons p ps)
  from Cons.prems(3) obtain m where n: "n = Suc m" by (cases n) auto
  from Cons.prems(1) obtain ev evs' where evs: "evs = ev # evs'" "unmarshal p = Inr ev"
    "list_all2 (\<lambda>p ev. unmarshal p = Inr ev) ps evs'"
    by (auto simp: list_all2_Cons1)
  from Cons.prems(2) n obtain r where r: "read_record NoFault f = Inr (p, r)"
    "decode_all (read_record NoFault) m r = (ps, er)"
    by (auto split: sum.splits prod.splits)
  have "length r < m" using read_record_shorter [OF r(1)] Cons.prems(3) n by simp
  note IH = Cons.IH [OF evs(3) r(2) this]
  show ?case
    by (subst read_loop.simps) (simp add: r evs IH Let_def)
qed

lemma unmarshal_payloads:
  "list_all (json_ok marshal unmarshal) evs \<Longrightarrow>
     list_all2 (\<lambda>p ev. unmarshal p = Inr ev) (map (payload_of marshal) evs) evs
     \<and> list_all payload_ok (map (payload_of marshal) evs)"
  by (induction evs) (auto dest: json_okD)

lemma read_loop_log:
  assumes "list_all (json_ok marshal unmarshal) evs"
  shows "read_loop unmarshal (\<lambda>_. NoFault) tx seq i (tx = []) (log_bytes marshal evs)
     = (from_position tx seq evs, None)"
  using read_loop_decode [OF conjunct1 [OF unmarshal_payloads [OF assms]]
      cache_frame.decode_all_complete [OF conjunct2 [OF unmarshal_payloads [OF assms]] lessI], of tx seq i "tx = []"]
  by (simp add: log_bytes_def from_position_def)

lemma read_loop_torn:
  assumes "list_all (json_ok marshal unmarshal) evs" "json_ok marshal unmarshal ev"
    and "k < length (record_bytes (payload_of marshal ev))"
  shows "fst (read_loop unmarshal (\<lambda>_. NoFault) tx seq i (tx = [])
      (log_bytes marshal evs @ take k (record_bytes (payload_of marshal ev))))
     = from_position tx seq evs"
proof -
  let ?f = "log_bytes marshal evs @ take k (record_bytes (payload_of marshal ev))"
  note ok = unmarshal_payloads [OF assms(1)]
  obtain er where "decode_all (read_record NoFault) (Suc (length ?f)) ?f = (map (payload_of marshal) evs, er)"
    using cache_frame.decode_all_torn [OF conjunct2 [OF ok] json_okD(2) [OF assms(2)] assms(3), of "Suc (length ?f)"]
    by (cases "decode_all (read_record NoFault) (Suc (length ?f)) ?f") (use assms(3) in \<open>simp add: log_bytes_def\<close>)
  from read_loop_decode [OF conjunct1 [OF ok] this lessI]
  show ?thesis by (simp add: from_position_def)
qed

subsection \<open>The backend refines one log per table\<close>

text \<open>
  The operations a client makes, and the specification: a log of events for each table. The tables
  the client uses are a set \<open>T\<close> on which \<^const>\<open>sanitizeTableID\<close> is injective.
\<close>

datatype cache_op =
    OpWrite string CacheEvent
  | OpWriteBatch string "CacheEvent list"
  | OpDelete string
  | OpClose

fun apply_op :: "(CacheEvent \<Rightarrow> bytes res) \<Rightarrow> OS \<Rightarrow> LocalBackend \<Rightarrow> cache_op \<Rightarrow> LocalBackend \<times> err option" where
  "apply_op marshal os lb (OpWrite t ev) = lb_Write marshal os lb t ev"
| "apply_op marshal os lb (OpWriteBatch t evs) = lb_WriteBatch marshal os lb t evs"
| "apply_op marshal os lb (OpDelete t) = lb_Delete os lb t"
| "apply_op marshal os lb OpClose = lb_Close os lb"

fun run_ops ::
  "(CacheEvent \<Rightarrow> bytes res) \<Rightarrow> LocalBackend \<Rightarrow> cache_op list \<Rightarrow> LocalBackend \<times> err option list" where
  "run_ops marshal lb [] = (lb, [])"
| "run_ops marshal lb (op # ops) =
     (let (lb1, e) = apply_op marshal os_fine lb op; (lb2, es) = run_ops marshal lb1 ops in (lb2, e # es))"

type_synonym cache_log = "string \<Rightarrow> CacheEvent list"

fun spec_op :: "cache_log \<Rightarrow> cache_op \<Rightarrow> cache_log" where
  "spec_op l (OpWrite t ev) = l(t := l t @ [ev])"
| "spec_op l (OpWriteBatch t evs) = l(t := l t @ evs)"
| "spec_op l (OpDelete t) = l(t := [])"
| "spec_op l OpClose = l"

fun op_ok :: "(CacheEvent \<Rightarrow> bool) \<Rightarrow> string set \<Rightarrow> cache_op \<Rightarrow> bool" where
  "op_ok P T (OpWrite t ev) = (t \<in> T \<and> P ev)"
| "op_ok P T (OpWriteBatch t evs) = (t \<in> T \<and> list_all P evs)"
| "op_ok P T (OpDelete t) = (t \<in> T)"
| "op_ok P T OpClose = True"

definition FS_empty :: FS where
  "FS_empty = \<lparr> fs_dir = [], fs_data = (\<lambda>_. []), fs_next = 0 \<rparr>"

text \<open>
  Every open handle of a table is on the inode that the table's path names, different paths name
  different inodes, and no path names an inode that is still to be allocated.
\<close>

definition lb_inv :: "string set \<Rightarrow> LocalBackend \<Rightarrow> bool" where
  "lb_inv T lb =
     ((\<forall>t h. map_of (lb_files lb) t = Some h \<longrightarrow> t \<in> T \<and> map_of (fs_dir (lb_fs lb)) (filePath t) = Some h)
      \<and> (\<forall>p q h. map_of (fs_dir (lb_fs lb)) p = Some h \<longrightarrow> map_of (fs_dir (lb_fs lb)) q = Some h \<longrightarrow> p = q)
      \<and> (\<forall>p h. map_of (fs_dir (lb_fs lb)) p = Some h \<longrightarrow> h < fs_next (lb_fs lb)))"

definition content :: "LocalBackend \<Rightarrow> string \<Rightarrow> bytes" where
  "content lb t =
     (case map_of (fs_dir (lb_fs lb)) (filePath t) of None \<Rightarrow> [] | Some h \<Rightarrow> fs_data (lb_fs lb) h)"

lemma filePath_eq: "inj_on sanitizeTableID T \<Longrightarrow> t \<in> T \<Longrightarrow> u \<in> T \<Longrightarrow> filePath t = filePath u \<longleftrightarrow> t = u"
  by (auto simp: filePath_def inj_on_def)

lemma os_fine_simps [simp]:
  "os_open os_fine = None" "os_write os_fine i = None" "os_sync os_fine = None"
  "os_remove os_fine = None" "os_read os_fine = (\<lambda>_. NoFault)" "os_close os_fine t = None"
  "os_stat os_fine = None" "os_truncate os_fine = None" "os_readAt os_fine a b = False"
  by (simp_all add: os_fine_def)

lemma content_files: "content (lb\<lparr> lb_files := x \<rparr>) = content lb"
  by (simp add: content_def fun_eq_iff split: option.split)

lemma lb_Read_content:
  "lb_Read unmarshal os_fine lb t tx seq
     = read_loop unmarshal (\<lambda>_. NoFault) tx seq 0 (tx = []) (content lb t)"
  by (auto simp: lb_Read_def content_def read_loop.simps [of _ _ _ _ _ _ "[]"]
      read_record_def ReadFull_def split: option.split)

lemma getFile_ok:
  assumes "os_open os = None" "lb_inv T lb" "t \<in> T"
  obtains h lb' where "getFile os lb t = Inr (h, lb')" "lb_inv T lb'"
    "map_of (fs_dir (lb_fs lb')) (filePath t) = Some h" "content lb' = content lb"
    "lb_syncMode lb' = lb_syncMode lb"
proof (cases "map_of (lb_files lb) t")
  case (Some h)
  with assms show thesis
    by (intro that [of h lb]) (auto simp: getFile_def lb_inv_def)
next
  case None
  show thesis
  proof (cases "map_of (fs_dir (lb_fs lb)) (filePath t)")
    case (Some h)
    with None assms show thesis
      by (intro that [of h "lb\<lparr> lb_files := AList.update t h (lb_files lb) \<rparr>"])
        (auto simp: getFile_def lb_inv_def content_def fun_eq_iff split: option.split)
  next
    case n2: None
    let ?fs = "lb_fs lb" and ?h = "fs_next (lb_fs lb)"
    let ?lb = "lb\<lparr> lb_files := AList.update t ?h (lb_files lb),
                   lb_fs := ?fs\<lparr> fs_dir := AList.update (filePath t) ?h (fs_dir ?fs),
                                fs_data := (fs_data ?fs)(?h := []), fs_next := ?h + 1 \<rparr> \<rparr>"
    have files: "\<And>u g. map_of (lb_files lb) u = Some g \<Longrightarrow> u \<in> T \<and> map_of (fs_dir ?fs) (filePath u) = Some g"
      and inj: "\<And>p q g. map_of (fs_dir ?fs) p = Some g \<Longrightarrow> map_of (fs_dir ?fs) q = Some g \<Longrightarrow> p = q"
      and bound: "\<And>p g. map_of (fs_dir ?fs) p = Some g \<Longrightarrow> g < ?h"
      using assms(2) unfolding lb_inv_def by blast+
    have "lb_inv T ?lb"
      unfolding lb_inv_def
    proof (intro conjI allI impI)
      fix u g
      assume "map_of (lb_files ?lb) u = Some g"
      then show "u \<in> T" "map_of (fs_dir (lb_fs ?lb)) (filePath u) = Some g"
        using files [of u g] assms(3) n2 by (auto split: if_splits)
    next
      fix p q g
      assume "map_of (fs_dir (lb_fs ?lb)) p = Some g" "map_of (fs_dir (lb_fs ?lb)) q = Some g"
      then show "p = q"
        using inj [of p g q] bound [of p g] bound [of q g] by (auto split: if_splits)
    next
      fix p g
      assume "map_of (fs_dir (lb_fs ?lb)) p = Some g"
      then show "g < fs_next (lb_fs ?lb)"
        using bound [of p g] by (auto split: if_splits)
    qed
    moreover have "content ?lb u = content lb u" for u
      using n2 bound [of "filePath u"] by (auto simp: content_def split: option.split)
    ultimately show thesis
      using None n2 assms by (intro that [of ?h ?lb]) (auto simp: getFile_def Let_def)
  qed
qed

lemma fs_append_append [simp]: "fs_append (fs_append fs h a) h b = fs_append fs h (a @ b)"
  by (simp add: fs_append_def)

lemma fs_append_Nil [simp]: "fs_append fs h [] = fs"
  by (simp add: fs_append_def)

lemma lb_inv_append [simp]: "lb_inv T (lb\<lparr> lb_fs := fs_append (lb_fs lb) h b \<rparr>) = lb_inv T lb"
  by (simp add: lb_inv_def fs_append_def)

lemma content_append:
  assumes "lb_inv T lb" "inj_on sanitizeTableID T" "t \<in> T" "u \<in> T"
    and "map_of (fs_dir (lb_fs lb)) (filePath t) = Some h"
  shows "content (lb\<lparr> lb_fs := fs_append (lb_fs lb) h b \<rparr>) u = (if u = t then content lb t @ b else content lb u)"
  using assms filePath_eq [OF assms(2-4)]
  by (auto simp: content_def fs_append_def lb_inv_def split: option.split)

lemma write_events_fine:
  "\<lbrakk>list_all (json_ok marshal unmarshal) evs; \<forall>n < length evs. os_write os (i + n) = None\<rbrakk> \<Longrightarrow>
     write_events marshal os i fs h (evs @ rest)
       = write_events marshal os (i + length evs) (fs_append fs h (log_bytes marshal evs)) h rest"
proof (induction evs arbitrary: i fs)
  case (Cons ev evs)
  have "\<forall>n < length evs. os_write os (Suc i + n) = None"
    using Cons.prems(2) by auto
  moreover have "os_write os i = None" using Cons.prems(2) by auto
  moreover have "json_ok marshal unmarshal ev" using Cons.prems(1) by simp
  ultimately show ?case
    using Cons json_okD [of marshal unmarshal ev]
    by (simp add: marshalAndWrite_def encode_record_ok)
qed simp

lemma WriteBatch_fine:
  assumes "lb_inv T lb" "inj_on sanitizeTableID T" "t \<in> T" "list_all (json_ok marshal unmarshal) evs"
  obtains lb' where "lb_WriteBatch marshal os_fine lb t evs = (lb', None)" "lb_inv T lb'"
    "\<And>u. u \<in> T \<Longrightarrow> content lb' u = (if u = t then content lb t @ log_bytes marshal evs else content lb u)"
proof -
  obtain h lb1 where g: "getFile os_fine lb t = Inr (h, lb1)" "lb_inv T lb1"
    "map_of (fs_dir (lb_fs lb1)) (filePath t) = Some h" "content lb1 = content lb"
    using getFile_ok [OF _ assms(1,3)] os_fine_simps(1) by metis
  have w: "write_events marshal os_fine 0 (lb_fs lb1) h evs = (fs_append (lb_fs lb1) h (log_bytes marshal evs), None)"
    using write_events_fine [OF assms(4), of os_fine 0 "lb_fs lb1" h "[]"] by simp
  show thesis
    by (rule that [of "lb1\<lparr> lb_fs := fs_append (lb_fs lb1) h (log_bytes marshal evs) \<rparr>"])
      (use g w content_append [OF g(2) assms(2,3) _ g(3)] in \<open>simp_all add: lb_WriteBatch_def\<close>)
qed

text \<open>Without faults a single write is a batch of one.\<close>

lemma Write_as_batch: "lb_Write marshal os_fine lb t ev = lb_WriteBatch marshal os_fine lb t [ev]"
  by (auto simp: lb_Write_def lb_WriteBatch_def maybeSync_def split: sum.splits prod.splits option.splits)

lemma Delete_fine:
  assumes "lb_inv T lb" "inj_on sanitizeTableID T" "t \<in> T"
  obtains lb' where "lb_Delete os_fine lb t = (lb', None)" "lb_inv T lb'"
    "\<And>u. u \<in> T \<Longrightarrow> content lb' u = (if u = t then [] else content lb u)"
proof -
  obtain lb' where d: "lb_Delete os_fine lb t = (lb', None)"
    by (cases "map_of (fs_dir (lb_fs lb)) (filePath t)") (simp_all add: lb_Delete_def Let_def)
  have files: "lb_files lb' = AList.delete t (lb_files lb)"
    and dir: "map_of (fs_dir (lb_fs lb')) = (map_of (fs_dir (lb_fs lb)))(filePath t := None)"
    and same: "fs_data (lb_fs lb') = fs_data (lb_fs lb)" "fs_next (lb_fs lb') = fs_next (lb_fs lb)"
    using d by (auto simp: lb_Delete_def Let_def fun_eq_iff split: option.splits)
  have path: "map_of (lb_files lb) u = Some h \<Longrightarrow> u \<noteq> t \<Longrightarrow> filePath u \<noteq> filePath t" for u h
    using assms filePath_eq [OF assms(2), of u t] by (auto simp: lb_inv_def)
  have "lb_inv T lb'"
    using assms(1) path unfolding lb_inv_def files dir same by (auto split: if_splits)
  moreover have "content lb' u = (if u = t then [] else content lb u)" if "u \<in> T" for u
    using filePath_eq [OF assms(2) that assms(3)] by (simp add: content_def dir same split: option.split)
  ultimately show thesis using d that by blast
qed

lemma Close_fine: "lb_Close os_fine lb = (lb\<lparr> lb_files := [] \<rparr>, None)"
proof -
  have "fold (\<lambda>(t, h) fe. case (os_close os_fine t, fe) of
      (Some e, None) \<Rightarrow> Some (Wrapf (''close file for table '' @ t) e) | _ \<Rightarrow> fe) xs None = None" for xs :: "(string, nat) gomap"
    by (induction xs) auto
  then show ?thesis by (simp add: lb_Close_def)
qed

lemma apply_op_refines:
  assumes "lb_inv T lb" "inj_on sanitizeTableID T" "op_ok (json_ok marshal unmarshal) T op"
    and "\<forall>u \<in> T. content lb u = log_bytes marshal (l u)"
  shows "snd (apply_op marshal os_fine lb op) = None"
    and "lb_inv T (fst (apply_op marshal os_fine lb op))"
    and "\<forall>u \<in> T. content (fst (apply_op marshal os_fine lb op)) u = log_bytes marshal (spec_op l op u)"
proof -
  have "snd (apply_op marshal os_fine lb op) = None \<and> lb_inv T (fst (apply_op marshal os_fine lb op))
    \<and> (\<forall>u \<in> T. content (fst (apply_op marshal os_fine lb op)) u = log_bytes marshal (spec_op l op u))"
  proof (cases op)
    case (OpWrite t ev)
    then have "t \<in> T" "list_all (json_ok marshal unmarshal) [ev]" using assms(3) by auto
    from WriteBatch_fine [OF assms(1,2) this] obtain lb' where
      "lb_WriteBatch marshal os_fine lb t [ev] = (lb', None)" "lb_inv T lb'"
      "\<And>u. u \<in> T \<Longrightarrow> content lb' u = (if u = t then content lb t @ log_bytes marshal [ev] else content lb u)"
      by blast
    then show ?thesis using OpWrite assms(4) \<open>t \<in> T\<close> by (simp add: Write_as_batch)
  next
    case (OpWriteBatch t evs)
    then have "t \<in> T" "list_all (json_ok marshal unmarshal) evs" using assms(3) by auto
    from WriteBatch_fine [OF assms(1,2) this] obtain lb' where
      "lb_WriteBatch marshal os_fine lb t evs = (lb', None)" "lb_inv T lb'"
      "\<And>u. u \<in> T \<Longrightarrow> content lb' u = (if u = t then content lb t @ log_bytes marshal evs else content lb u)"
      by blast
    then show ?thesis using OpWriteBatch assms(4) \<open>t \<in> T\<close> by simp
  next
    case (OpDelete t)
    then have "t \<in> T" using assms(3) by auto
    from Delete_fine [OF assms(1,2) this] obtain lb' where
      "lb_Delete os_fine lb t = (lb', None)" "lb_inv T lb'"
      "\<And>u. u \<in> T \<Longrightarrow> content lb' u = (if u = t then [] else content lb u)"
      by blast
    then show ?thesis using OpDelete assms(4) by simp
  next
    case OpClose
    then show ?thesis using assms(1,4) by (simp add: Close_fine lb_inv_def content_files)
  qed
  then show "snd (apply_op marshal os_fine lb op) = None"
    "lb_inv T (fst (apply_op marshal os_fine lb op))"
    "\<forall>u \<in> T. content (fst (apply_op marshal os_fine lb op)) u = log_bytes marshal (spec_op l op u)"
    by blast+
qed

lemma run_ops_refines:
  assumes "lb_inv T lb" "inj_on sanitizeTableID T" "list_all (op_ok (json_ok marshal unmarshal) T) ops"
    and "\<forall>u \<in> T. content lb u = log_bytes marshal (l u)"
  shows "list_all (\<lambda>e. e = None) (snd (run_ops marshal lb ops))
    \<and> lb_inv T (fst (run_ops marshal lb ops))
    \<and> (\<forall>u \<in> T. content (fst (run_ops marshal lb ops)) u = log_bytes marshal (foldl spec_op l ops u))"
  using assms
proof (induction ops arbitrary: lb l)
  case (Cons op ops)
  have "op_ok (json_ok marshal unmarshal) T op" using Cons.prems(3) by simp
  note step = apply_op_refines [OF Cons.prems(1,2) this Cons.prems(4)]
  have "list_all (op_ok (json_ok marshal unmarshal) T) ops" using Cons.prems(3) by simp
  note IH = Cons.IH [OF step(2) Cons.prems(2) this step(3)]
  then show ?case using step(1) by (simp add: case_prod_beta Let_def)
qed simp

lemma spec_ops_json_ok:
  assumes "list_all (op_ok P T) ops" "\<forall>u. list_all P (l u)"
  shows "list_all P (foldl spec_op l ops u)"
  using assms
proof (induction ops arbitrary: l)
  case (Cons op ops)
  have "\<forall>u. list_all P (spec_op l op u)" using Cons.prems by (cases op) auto
  with Cons show ?case by simp
qed simp

definition lb_fresh :: "SyncMode \<Rightarrow> LocalBackend" where
  "lb_fresh mode = \<lparr> lb_syncMode = mode, lb_files = [], lb_fs = FS_empty \<rparr>"

text \<open>
  C1. The cache refines one append-only log per table. After any sequence of \<^verbatim>\<open>Write\<close>,
  \<^verbatim>\<open>WriteBatch\<close>, \<^verbatim>\<open>Delete\<close> and \<^verbatim>\<open>Close\<close> calls on a fresh backend, made for tables whose sanitized names
  differ and with events whose JSON form is at most 64 MB and decodes to the event, and with no
  failure of the file system: every call succeeds, and \<^verbatim>\<open>Read\<close> of a table delivers, without an
  error, exactly the events the log of that table holds, in order, from the first event of the
  requested transaction with the requested sequence number on.
\<close>

theorem cache_refines_log:
  assumes "inj_on sanitizeTableID T" "list_all (op_ok (json_ok marshal unmarshal) T) ops" "t \<in> T"
  shows "list_all (\<lambda>e. e = None) (snd (run_ops marshal (lb_fresh mode) ops))
    \<and> lb_Read unmarshal os_fine (fst (run_ops marshal (lb_fresh mode) ops)) t fromTxID fromEventSeq
        = (from_position fromTxID fromEventSeq (foldl spec_op (\<lambda>_. []) ops t), None)"
proof -
  have "lb_inv T (lb_fresh mode)" "\<forall>u \<in> T. content (lb_fresh mode) u = log_bytes marshal []"
    by (simp_all add: lb_inv_def content_def lb_fresh_def FS_empty_def)
  from run_ops_refines [OF this(1) assms(1,2) this(2)]
  show ?thesis
    using assms(3) read_loop_log [OF spec_ops_json_ok [OF assms(2)]] by (simp add: lb_Read_content)
qed

text \<open>
  A codec for the witnesses of this theory: the event is its sequence number, in one byte.
\<close>

definition seq_event :: "int \<Rightarrow> CacheEvent" where
  "seq_event n = (NewCacheEvent 0)\<lparr> ce_TxID := ''g'', ce_EventSeq := n \<rparr>"

definition seq_marshal :: "CacheEvent \<Rightarrow> bytes res" where
  "seq_marshal ev = Inr [word_of_int (ce_EventSeq ev)]"

definition seq_unmarshal :: "bytes \<Rightarrow> CacheEvent res" where
  "seq_unmarshal b = (case b of [w] \<Rightarrow> Inr (seq_event (uint w)) | _ \<Rightarrow> Inl (Errorf ''json''))"

lemma json_ok_seq: "0 \<le> n \<Longrightarrow> n < 256 \<Longrightarrow> json_ok seq_marshal seq_unmarshal (seq_event n)"
  by (simp add: json_ok_def seq_marshal_def seq_unmarshal_def seq_event_def payload_ok_def uint_word_of_int)

theorem cache_refines_log_witness:
  "lb_Read seq_unmarshal os_fine
     (fst (run_ops seq_marshal (lb_fresh SyncModeBatch)
        [OpWrite ''db.a'' (seq_event 1), OpWriteBatch ''db.b'' [seq_event 5],
         OpWriteBatch ''db.a'' [seq_event 2, seq_event 3], OpDelete ''db.b'']))
     ''db.a'' ''g'' 2 = ([seq_event 2, seq_event 3], None)"
proof -
  let ?ops = "[OpWrite ''db.a'' (seq_event 1), OpWriteBatch ''db.b'' [seq_event 5],
         OpWriteBatch ''db.a'' [seq_event 2, seq_event 3], OpDelete ''db.b'']"
  have "inj_on sanitizeTableID {''db.a'', ''db.b''}"
    by (simp add: sanitizeTableID_def word_char_def byte_in_def)
  moreover have "list_all (op_ok (json_ok seq_marshal seq_unmarshal) {''db.a'', ''db.b''}) ?ops"
    by (simp add: json_ok_seq)
  ultimately have "lb_Read seq_unmarshal os_fine (fst (run_ops seq_marshal (lb_fresh SyncModeBatch) ?ops))
      ''db.a'' ''g'' 2 = (from_position ''g'' 2 (foldl spec_op (\<lambda>_. []) ?ops ''db.a''), None)"
    by (rule conjunct2 [OF cache_refines_log]) simp
  then show ?thesis by (simp add: from_position_def seq_event_def NewCacheEvent_def)
qed

subsection \<open>Torn batches\<close>

lemma write_events_torn:
  assumes "list_all (json_ok marshal unmarshal) (as @ [a])"
    and "\<forall>n < length as. os_write os n = None" "os_write os (length as) = Some (k, e)"
  shows "write_events marshal os 0 fs h (as @ a # bs)
    = (fs_append fs h (log_bytes marshal as @ take k (record_bytes (payload_of marshal a))),
       Some (Wrapf ''write record'' e))"
proof -
  have "json_ok marshal unmarshal a" using assms(1) by simp
  then show ?thesis
    using write_events_fine [of marshal unmarshal as os 0 fs h "a # bs"] assms
      json_okD [of marshal unmarshal a]
    by (simp add: marshalAndWrite_def encode_record_ok)
qed

text \<open>
  C26. A batch that is cut short. In a state reached by fault-free calls, let \<^verbatim>\<open>WriteBatch\<close> fail while
  it writes one of its records, after some of the bytes of that record have reached the file. Then
  it returns the error, and a later \<^verbatim>\<open>Read\<close> of the table delivers exactly the old events followed
  by the events of the batch whose records were written completely, and nothing of the torn
  record; the other tables read as before. (So a batch is not atomic: a proper prefix of it can
  remain.)
\<close>

theorem WriteBatch_torn:
  fixes mode :: SyncMode
  assumes "inj_on sanitizeTableID T" "list_all (op_ok (json_ok marshal unmarshal) T) ops" "t \<in> T"
    and "list_all (json_ok marshal unmarshal) (as @ a # bs)"
    and "os_open os = None" "\<forall>n < length as. os_write os n = None"
    and "os_write os (length as) = Some (k, e)" "k < length (record_bytes (payload_of marshal a))"
  defines "lb \<equiv> fst (run_ops marshal (lb_fresh mode) ops)"
    and "spec \<equiv> foldl spec_op (\<lambda>_. []) ops"
  shows "\<exists>lb'. lb_WriteBatch marshal os lb t (as @ a # bs) = (lb', Some (Wrapf ''write record'' e))
    \<and> fst (lb_Read unmarshal os_fine lb' t fromTxID fromEventSeq)
        = from_position fromTxID fromEventSeq (spec t @ as)
    \<and> (\<forall>u \<in> T - {t}. lb_Read unmarshal os_fine lb' u fromTxID fromEventSeq
        = (from_position fromTxID fromEventSeq (spec u), None))"
proof -
  have "lb_inv T (lb_fresh mode)" "\<forall>u \<in> T. content (lb_fresh mode) u = log_bytes marshal []"
    by (simp_all add: lb_inv_def content_def lb_fresh_def FS_empty_def)
  from run_ops_refines [OF this(1) assms(1,2) this(2)]
  have inv: "lb_inv T lb" and cont: "\<And>u. u \<in> T \<Longrightarrow> content lb u = log_bytes marshal (spec u)"
    by (simp_all add: lb_def spec_def)
  have ok: "list_all (json_ok marshal unmarshal) (spec u)" for u
    unfolding spec_def by (rule spec_ops_json_ok [OF assms(2)]) simp
  obtain h lb1 where g: "getFile os lb t = Inr (h, lb1)" "lb_inv T lb1"
    "map_of (fs_dir (lb_fs lb1)) (filePath t) = Some h" "content lb1 = content lb"
    using getFile_ok [OF assms(5) inv assms(3)] by metis
  let ?b = "log_bytes marshal as @ take k (record_bytes (payload_of marshal a))"
  let ?lb = "lb1\<lparr> lb_fs := fs_append (lb_fs lb1) h ?b \<rparr>"
  have w: "lb_WriteBatch marshal os lb t (as @ a # bs) = (?lb, Some (Wrapf ''write record'' e))"
    using write_events_torn [OF _ assms(6,7), of marshal unmarshal a "lb_fs lb1" h bs] assms(4)
    by (simp add: lb_WriteBatch_def g)
  have c: "content ?lb u = (if u = t then content lb t @ ?b else content lb u)" if "u \<in> T" for u
    using content_append [OF g(2) assms(1,3) that g(3)] g(4) by simp
  have "fst (lb_Read unmarshal os_fine ?lb t fromTxID fromEventSeq) = from_position fromTxID fromEventSeq (spec t @ as)"
    using read_loop_torn [of marshal unmarshal "spec t @ as" a k fromTxID fromEventSeq 0] assms(3,4,8) ok [of t]
    by (simp add: lb_Read_content c cont)
  moreover have "\<forall>u \<in> T - {t}. lb_Read unmarshal os_fine ?lb u fromTxID fromEventSeq
        = (from_position fromTxID fromEventSeq (spec u), None)"
    using read_loop_log [OF ok] by (simp add: lb_Read_content c cont)
  ultimately show ?thesis using w by blast
qed

theorem WriteBatch_torn_witness:
  "\<exists>lb'. lb_WriteBatch seq_marshal (os_fine\<lparr> os_write := (\<lambda>n. if n = 1 then Some (6, Errorf ''disk full'') else None) \<rparr>)
       (fst (run_ops seq_marshal (lb_fresh SyncModeNone) [OpWrite ''db.a'' (seq_event 1)]))
       ''db.a'' [seq_event 2, seq_event 3, seq_event 4] = (lb', Some (Wrapf ''write record'' (Errorf ''disk full'')))
     \<and> fst (lb_Read seq_unmarshal os_fine lb' ''db.a'' [] 0) = [seq_event 1, seq_event 2]"
proof -
  let ?os = "os_fine\<lparr> os_write := (\<lambda>n. if n = 1 then Some (6, Errorf ''disk full'') else None) \<rparr>"
  have len: "6 < length (record_bytes (payload_of seq_marshal (seq_event 3)))"
    by (simp add: record_bytes_def payload_of_def seq_marshal_def)
  show ?thesis
    using WriteBatch_torn [where T = "{''db.a''}" and marshal = seq_marshal and unmarshal = seq_unmarshal
        and ops = "[OpWrite ''db.a'' (seq_event 1)]" and t = "''db.a''" and as = "[seq_event 2]"
        and a = "seq_event 3" and bs = "[seq_event 4]" and os = ?os and k = 6
        and e = "Errorf ''disk full''" and mode = SyncModeNone and fromTxID = "[]" and fromEventSeq = 0] len
    by (auto simp: json_ok_seq from_position_def os_fine_def)
qed

subsection \<open>Name collisions\<close>

text \<open>
  Two different tables can share a cache file: \<^verbatim>\<open>sanitizeTableID\<close> maps both \<^verbatim>\<open>db.t_1\<close> and \<^verbatim>\<open>db_t.1\<close> to
  \<^verbatim>\<open>db_t_1\<close>, so an event written for the one is delivered by a read of the other, and after the
  deletion of the one (its catch-up is over) the events written for the other through its open
  handle are lost.
\<close>

theorem sanitizeTableID_collision:
  "sanitizeTableID ''db.t_1'' = sanitizeTableID ''db_t.1''
   \<and> lb_Read seq_unmarshal os_fine
       (fst (run_ops seq_marshal (lb_fresh SyncModeNone) [OpWrite ''db.t_1'' (seq_event 1)])) ''db_t.1'' [] 0
       = ([seq_event 1], None)
   \<and> lb_Read seq_unmarshal os_fine
       (fst (run_ops seq_marshal (lb_fresh SyncModeNone)
          [OpWrite ''db.t_1'' (seq_event 1), OpWrite ''db_t.1'' (seq_event 2), OpDelete ''db.t_1'',
           OpWrite ''db_t.1'' (seq_event 3)])) ''db_t.1'' [] 0
       = ([], None)"
proof -
  have s: "sanitizeTableID ''db.t_1'' = ''db_t_1''" "sanitizeTableID ''db_t.1'' = ''db_t_1''"
    by (simp_all add: sanitizeTableID_def word_char_def byte_in_def)
  have m: "marshalAndWrite seq_marshal os_fine i fs h (seq_event n)
      = (fs_append fs h (log_bytes seq_marshal [seq_event n]), None)" if "0 \<le> n" "n < 256" for i fs h n
    using json_okD [OF json_ok_seq [OF that]] by (simp add: marshalAndWrite_def encode_record_ok)
  have l: "list_all (json_ok seq_marshal seq_unmarshal) [seq_event 1]" by (simp add: json_ok_seq)
  have r: "read_loop seq_unmarshal (\<lambda>_. NoFault) [] 0 0 True (log_bytes seq_marshal [seq_event 1])
      = ([seq_event 1], None)"
    using read_loop_log [OF l, of "[]" 0 0] by (simp add: from_position_def)
  show ?thesis
    using s r
    by (simp add: lb_Read_def lb_Write_def lb_Delete_def getFile_def filePath_def lb_fresh_def FS_empty_def m
        maybeSync_def Let_def fs_append_def)
qed

subsection \<open>Truncation to the last complete record\<close>

lemma trunc_scan_bound:
  "trunc_scan unmarshal unmarshalPos os f n = Some (e, pos) \<Longrightarrow> recordOverhead \<le> e \<and> e \<le> n"
proof (induction n rule: less_induct)
  case (less n)
  from less.prems show ?case
    using less.IH [of "n - 1"]
    by (subst (asm) trunc_scan.simps) (force simp: recordOverhead_def split: if_splits option.splits)
qed

lemma Truncate_fs:
  fixes lb :: LocalBackend
  defines "fs \<equiv> lb_fs lb"
  shows "lb_fs (fst (TruncateToLastComplete unmarshal unmarshalPos os lb t)) = fs
    \<or> (\<exists>h n. map_of (fs_dir fs) (filePath t) = Some h
         \<and> lb_fs (fst (TruncateToLastComplete unmarshal unmarshalPos os lb t))
             = fs\<lparr> fs_data := (fs_data fs)(h := take n (fs_data fs h)) \<rparr>)"
proof (cases "map_of (fs_dir fs) (filePath t)")
  case (Some h)
  show ?thesis
  proof (cases "os_open os = None \<and> os_stat os = None \<and> os_truncate os = None \<and> fs_data fs h \<noteq> []")
    case True
    show ?thesis
    proof (cases "trunc_scan unmarshal unmarshalPos os (fs_data fs h) (length (fs_data fs h))")
      case None
      with Some True show ?thesis
        by (intro disjI2 exI [of _ h] exI [of _ 0]) (simp add: TruncateToLastComplete_def fs_def [symmetric] Let_def)
    next
      case (Some r)
      with \<open>map_of (fs_dir fs) (filePath t) = Some h\<close> True show ?thesis
        by (intro disjI2 exI [of _ h] exI [of _ "fst r"])
          (simp add: TruncateToLastComplete_def fs_def [symmetric] Let_def split: prod.split)
    qed
  next
    case False
    with Some show ?thesis
      by (intro disjI1) (auto simp: TruncateToLastComplete_def fs_def [symmetric] Let_def split: option.split)
  qed
qed (simp add: TruncateToLastComplete_def fs_def)

text \<open>
  \<^verbatim>\<open>TruncateToLastComplete\<close> always returns and only ever shortens: whatever the operating system
  answers and whatever the file holds, the content of the table's file afterwards is a prefix of
  its content before, and a table with another sanitized name keeps its content.
\<close>

theorem TruncateToLastComplete_prefix:
  assumes "lb_inv T lb" "t \<in> T"
  shows "(\<exists>n. content (fst (TruncateToLastComplete unmarshal unmarshalPos os lb t)) t = take n (content lb t))
    \<and> (\<forall>u. sanitizeTableID u \<noteq> sanitizeTableID t \<longrightarrow>
      content (fst (TruncateToLastComplete unmarshal unmarshalPos os lb t)) u = content lb u)"
proof (intro conjI allI impI)
  let ?lb = "fst (TruncateToLastComplete unmarshal unmarshalPos os lb t)"
  note fs = Truncate_fs [of unmarshal unmarshalPos os lb t]
  show "\<exists>n. content ?lb t = take n (content lb t)"
    using fs
  proof (elim disjE exE conjE)
    assume "lb_fs ?lb = lb_fs lb"
    then have "content ?lb t = take (length (content lb t)) (content lb t)"
      by (simp add: content_def split: option.split)
    then show ?thesis by blast
  next
    fix h n
    assume "map_of (fs_dir (lb_fs lb)) (filePath t) = Some h"
      "lb_fs ?lb = (lb_fs lb)\<lparr> fs_data := (fs_data (lb_fs lb))(h := take n (fs_data (lb_fs lb) h)) \<rparr>"
    then have "content ?lb t = take n (content lb t)" by (simp add: content_def)
    then show ?thesis by blast
  qed
next
  let ?lb = "fst (TruncateToLastComplete unmarshal unmarshalPos os lb t)"
  note fs = Truncate_fs [of unmarshal unmarshalPos os lb t]
  fix u
  assume "sanitizeTableID u \<noteq> sanitizeTableID t"
  then have "filePath u \<noteq> filePath t" by (simp add: filePath_def)
  moreover have "\<And>p q h. map_of (fs_dir (lb_fs lb)) p = Some h \<Longrightarrow> map_of (fs_dir (lb_fs lb)) q = Some h \<Longrightarrow> p = q"
    using assms(1) unfolding lb_inv_def by blast
  ultimately show "content ?lb u = content lb u"
    using fs by (elim disjE exE conjE) (auto simp: content_def split: option.split)
qed

lemma payload_seq [simp]: "payload_of seq_marshal (seq_event n) = [word_of_int n]"
  by (simp add: payload_of_def seq_marshal_def seq_event_def)

lemma lb_inv_seq: "lb_inv {''db.a''} (fst (run_ops seq_marshal (lb_fresh SyncModeNone) [OpWrite ''db.a'' (seq_event 7)]))
   \<and> content (fst (run_ops seq_marshal (lb_fresh SyncModeNone) [OpWrite ''db.a'' (seq_event 7)])) ''db.a''
      = record_bytes [7]"
proof -
  have "lb_inv {''db.a''} (lb_fresh SyncModeNone)" "\<forall>u \<in> {''db.a''}. content (lb_fresh SyncModeNone) u = log_bytes seq_marshal []"
    by (simp_all add: lb_inv_def content_def lb_fresh_def FS_empty_def)
  from run_ops_refines [OF this(1) _ _ this(2), of seq_unmarshal "[OpWrite ''db.a'' (seq_event 7)]"]
  show ?thesis
    by (simp add: json_ok_seq)
qed

theorem TruncateToLastComplete_prefix_witness:
  "\<exists>lb n. lb_inv {''db.a''} lb \<and> content lb ''db.a'' = record_bytes [7]
     \<and> content (fst (TruncateToLastComplete seq_unmarshal (\<lambda>_. Inl EOF) os_fine lb ''db.a'')) ''db.a''
         = take n (record_bytes [7])"
proof -
  let ?lb = "fst (run_ops seq_marshal (lb_fresh SyncModeNone) [OpWrite ''db.a'' (seq_event 7)])"
  have "\<exists>n. content (fst (TruncateToLastComplete seq_unmarshal (\<lambda>_. Inl EOF) os_fine ?lb ''db.a'')) ''db.a''
         = take n (content ?lb ''db.a'')"
    by (rule conjunct1 [OF TruncateToLastComplete_prefix]) (use lb_inv_seq in auto)
  then show ?thesis using lb_inv_seq by metis
qed

text \<open>
  \<^verbatim>\<open>TruncateToLastComplete\<close> checks the wrong bytes. For a file that ends in a complete record, read
  without faults, the scan rejects that record whenever the checksum that \<^verbatim>\<open>marshalAndWrite\<close> stored,
  which covers the length and the payload, differs from the checksum of the first \<open>4 + n\<close> bytes of the
  record, which are the length, the stored checksum and the payload without its last four bytes.
\<close>

theorem TruncateToLastComplete_checksum:
  assumes "payload_ok p"
    and "ChecksumIEEE (PutUint32 (of_nat (length p)) @ p)
      \<noteq> ChecksumIEEE (take (4 + length p) (PutUint32 (of_nat (length p))
           @ PutUint32 (ChecksumIEEE (PutUint32 (of_nat (length p)) @ p)) @ p))"
  shows "trunc_try unmarshal unmarshalPos os_fine (pre @ record_bytes p) (length (pre @ record_bytes p)) = None"
proof -
  define l where "l = PutUint32 (of_nat (length p))"
  let ?c = "PutUint32 (ChecksumIEEE (l @ p))"
  define f where "f = pre @ record_bytes p"
  define n where "n = length f"
  have rec: "record_bytes p = l @ ?c @ p @ l"
    unfolding l_def by (rule record_bytes_ok [OF assms(1)])
  have n: "n = length pre + (length p + 12)" by (simp add: n_def f_def rec l_def)
  have "take 4 (drop (n - 4) f) = l" by (simp add: n f_def rec l_def)
  moreover have "unat (Uint32 l) = length p" by (simp add: l_def payload_ok_len(1) [OF assms(1)])
  moreover have "n - (length p + recordOverhead) = length pre" by (simp add: n recordOverhead_def)
  moreover have buf: "take (length p + recordOverhead) (drop (length pre) f) = record_bytes p"
    by (simp add: f_def rec l_def recordOverhead_def)
  moreover have "Uint32 (take 4 (drop 4 (record_bytes p))) = ChecksumIEEE (l @ p)"
    by (simp add: rec l_def)
  moreover have "take (4 + length p) (record_bytes p) = take (4 + length p) (l @ ?c @ p)"
    by (simp add: rec l_def)
  ultimately have "trunc_try unmarshal unmarshalPos os_fine f n = None"
    using assms(2) by (simp add: trunc_try_def Let_def l_def [symmetric] del: take_append)
  then show ?thesis by (simp add: f_def n_def)
qed

lemma PutUint32_1: "PutUint32 1 = [0, 0, 0, 1]"
  by (simp add: PutUint32_def)

lemma crc_7: "ChecksumIEEE [0, 0, 0, 1, 7] = 0x415D53FF"
  by (simp add: crc_eval)

lemma PutUint32_crc_7: "PutUint32 0x415D53FF = [0x41, 0x5D, 0x53, 0xFF]"
  by (simp add: PutUint32_def)

lemma record_7: "record_bytes [7] = [0, 0, 0, 1, 0x41, 0x5D, 0x53, 0xFF, 7, 0, 0, 0, 1]"
  by (simp add: record_bytes_def PutUint32_1 crc_7 PutUint32_crc_7)

text \<open>The event is on disk and \<^verbatim>\<open>Read\<close> delivers it; after \<^verbatim>\<open>TruncateToLastComplete\<close> the file is empty.\<close>

theorem TruncateToLastComplete_checksum_witness:
  "\<exists>lb. lb = fst (run_ops seq_marshal (lb_fresh SyncModeNone) [OpWrite ''db.a'' (seq_event 7)])
     \<and> lb_Read seq_unmarshal os_fine lb ''db.a'' [] 0 = ([seq_event 7], None)
     \<and> content (fst (TruncateToLastComplete seq_unmarshal (\<lambda>_. Inl EOF) os_fine lb ''db.a'')) ''db.a'' = []"
proof -
  obtain lb where lb: "lb = fst (run_ops seq_marshal (lb_fresh SyncModeNone) [OpWrite ''db.a'' (seq_event 7)])"
    by blast
  then have c: "content lb ''db.a'' = record_bytes [7]" using lb_inv_seq by simp
  have r: "lb_Read seq_unmarshal os_fine lb ''db.a'' [] 0 = ([seq_event 7], None)"
    using read_loop_log [of seq_marshal seq_unmarshal "[seq_event 7]" "[]" 0 0]
    by (simp add: lb_Read_content c json_ok_seq from_position_def)
  obtain h where h: "map_of (fs_dir (lb_fs lb)) (filePath ''db.a'') = Some h"
    "fs_data (lb_fs lb) h = record_bytes [7]"
    using c by (auto simp: content_def record_7 split: option.splits)
  have len: "length (record_bytes [7]) = 13" "record_bytes [7] \<noteq> []" by (simp_all add: record_7)
  have t13: "trunc_try seq_unmarshal (\<lambda>_. Inl EOF) os_fine (record_bytes [7]) 13 = None"
    using TruncateToLastComplete_checksum [of "[7]" seq_unmarshal "\<lambda>_. Inl EOF" "[]"] len
    by (simp add: payload_ok_def PutUint32_1 crc_7 PutUint32_crc_7 crc_eval)
  have t12: "trunc_try seq_unmarshal (\<lambda>_. Inl EOF) os_fine (record_bytes [7]) 12 = None"
    by (simp add: trunc_try_def record_7 MaxRecordSize_def)
  have "trunc_scan seq_unmarshal (\<lambda>_. Inl EOF) os_fine (record_bytes [7]) 13 = None"
    by (subst trunc_scan.simps, subst trunc_scan.simps, subst trunc_scan.simps)
      (simp add: t12 t13 recordOverhead_def)
  then have "content (fst (TruncateToLastComplete seq_unmarshal (\<lambda>_. Inl EOF) os_fine lb ''db.a'')) ''db.a'' = []"
    using h len by (simp add: TruncateToLastComplete_def content_def Let_def)
  with lb r show ?thesis by blast
qed

end
