(* ===== verification/Scheduler.thy ===== *)
theory Scheduler
  imports Table_Lifecycle Binlog_Cache
begin

section \<open>The snapshot scheduler (internal/lifecycle/snapshot_scheduler.go)\<close>

text \<open>
  The scheduler moves the tables of one task between lifecycle states, in the in-memory lifecycle
  store, and deletes their binlog caches. A method holds the scheduler's mutex throughout, so it is
  one function of the state. The store hands out the stored lifecycle itself; a method that writes
  it saves it again under the same key, so working on the value and saving it is the same. \<open>os\<close> is
  what the operating system answers to the deletion of a cache file, \<open>now\<close> the time of a call.
\<close>

record SchedulerConfig =
  sc_MaxTableThreads :: int
  sc_MaxChunkThreads :: int
  sc_ChunkThreshold :: int
  sc_SmartOrder :: bool
  sc_MaxRetries :: int
  sc_RetryInterval :: int
  sc_BatchSize :: int
  sc_UpsertDuration :: int
  sc_TargetMode :: string

definition DefaultSchedulerConfig :: SchedulerConfig where
  "DefaultSchedulerConfig =
     \<lparr> sc_MaxTableThreads = 4, sc_MaxChunkThreads = 4, sc_ChunkThreshold = 1000000,
       sc_SmartOrder = True, sc_MaxRetries = 3, sc_RetryInterval = 5 * 60 * 1000000000,
       sc_BatchSize = 1000, sc_UpsertDuration = 60 * 1000000000,
       sc_TargetMode = ''drop-create-insert'' \<rparr>"

record SnapshotScheduler =
  ss_config :: SchedulerConfig
  ss_store :: MemoryLifecycleStore
  ss_cache :: LocalBackend
  ss_taskID :: string

definition NewSnapshotScheduler ::
  "SchedulerConfig \<Rightarrow> string \<Rightarrow> MemoryLifecycleStore \<Rightarrow> LocalBackend \<Rightarrow> SnapshotScheduler" where
  "NewSnapshotScheduler config taskID store cacheBackend =
     \<lparr> ss_config = config, ss_store = store, ss_cache = cacheBackend, ss_taskID = taskID \<rparr>"

definition ss_save :: "SnapshotScheduler \<Rightarrow> TableLifecycle \<Rightarrow> SnapshotScheduler" where
  "ss_save s lc = s\<lparr> ss_store := ls_Save (ss_store s) (ss_taskID s) lc \<rparr>"

definition AddTable ::
  "SnapshotScheduler \<Rightarrow> TableID \<Rightarrow> Position option \<Rightarrow> gotime \<Rightarrow> SnapshotScheduler \<times> err option" where
  "AddTable s tableID snapshotPos now =
     (ss_save s ((NewTableLifecycle tableID now)\<lparr> tl_SnapshotPosition := snapshotPos \<rparr>), None)"

definition get_err :: "TableID \<Rightarrow> err \<Rightarrow> err" where
  "get_err tableID e = Wrapf (''get table '' @ TableID_String tableID) e"

definition OnSnapshotComplete ::
  "SnapshotScheduler \<Rightarrow> TableID \<Rightarrow> gotime \<Rightarrow> SnapshotScheduler \<times> err option" where
  "OnSnapshotComplete s tableID now =
     (case ls_Get (ss_store s) (ss_taskID s) tableID of
        Inl e \<Rightarrow> (s, Some (get_err tableID e))
      | Inr lc \<Rightarrow>
          (case TransitionTo lc TableStateCatchingUp None now of
             Inl e \<Rightarrow> (s, Some (Wrapf (''transition '' @ TableID_String tableID @ '' to catching_up'') e))
           | Inr lc \<Rightarrow> (ss_save s lc, None)))"

definition OnSnapshotError ::
  "SnapshotScheduler \<Rightarrow> TableID \<Rightarrow> string \<Rightarrow> gotime \<Rightarrow> SnapshotScheduler \<times> err option" where
  "OnSnapshotError s tableID errMsg now =
     (case ls_Get (ss_store s) (ss_taskID s) tableID of
        Inl e \<Rightarrow> (s, Some (get_err tableID e))
      | Inr lc \<Rightarrow> (ss_save s (SetError lc errMsg now), None))"

definition ss_drop_cache :: "OS \<Rightarrow> SnapshotScheduler \<Rightarrow> TableID \<Rightarrow> SnapshotScheduler \<times> err option" where
  "ss_drop_cache os s tableID =
     (let (lb, er) = lb_Delete os (ss_cache s) (TableID_String tableID) in
      (s\<lparr> ss_cache := lb \<rparr>,
       map_option (Wrapf (''delete cache for '' @ TableID_String tableID)) er))"

definition OnCaughtUp ::
  "OS \<Rightarrow> SnapshotScheduler \<Rightarrow> TableID \<Rightarrow> gotime \<Rightarrow> SnapshotScheduler \<times> err option" where
  "OnCaughtUp os s tableID now =
     (case ls_Get (ss_store s) (ss_taskID s) tableID of
        Inl e \<Rightarrow> (s, Some (get_err tableID e))
      | Inr lc \<Rightarrow>
          (case TransitionTo lc TableStateStreaming None now of
             Inl e \<Rightarrow> (s, Some (Wrapf (''transition '' @ TableID_String tableID @ '' to streaming'') e))
           | Inr lc \<Rightarrow> ss_drop_cache os (ss_save s lc) tableID))"

text \<open>
  The part that \<^verbatim>\<open>RestartTable\<close> and the loop of \<^verbatim>\<open>RestartSchema\<close> have in common: error first if the
  table is not in the error state, then back to pending. \<open>now1\<close> and \<open>now2\<close> are the times of the two
  changes.
\<close>

definition restart_lc ::
  "TableLifecycle \<Rightarrow> Position option \<Rightarrow> gotime \<Rightarrow> gotime \<Rightarrow> TableLifecycle res" where
  "restart_lc lc newPos now1 now2 =
     (let lc = (if GetState lc \<noteq> TableStateError then SetError lc ''restart requested'' now1 else lc)
      in ResetToPending lc newPos now2)"

definition RestartTable ::
  "OS \<Rightarrow> SnapshotScheduler \<Rightarrow> TableID \<Rightarrow> Position option \<Rightarrow> bool \<Rightarrow> gotime \<Rightarrow> gotime
     \<Rightarrow> SnapshotScheduler \<times> err option" where
  "RestartTable os s tableID newPos force now1 now2 =
     (case ls_Get (ss_store s) (ss_taskID s) tableID of
        Inl e \<Rightarrow> (s, Some (get_err tableID e))
      | Inr lc \<Rightarrow>
          if \<not> force \<and> GetState lc = TableStateStreaming then
            (s, Some (Errorf (''table '' @ TableID_String tableID @ '' is streaming, use force=true to restart'')))
          else case restart_lc lc newPos now1 now2 of
            Inl e \<Rightarrow> (s, Some (Wrapf (''reset table '' @ TableID_String tableID @ '' to pending'') e))
          | Inr lc \<Rightarrow> ss_drop_cache os (ss_save s lc) tableID)"

fun restart_loop ::
  "(nat \<Rightarrow> OS) \<Rightarrow> (nat \<Rightarrow> gotime) \<Rightarrow> Position option \<Rightarrow> bool \<Rightarrow> nat \<Rightarrow> SnapshotScheduler \<Rightarrow> TableLifecycle list
     \<Rightarrow> TableID list \<Rightarrow> SnapshotScheduler \<times> TableID list \<times> err option" where
  "restart_loop os now newPos force i s [] restarted = (s, restarted, None)"
| "restart_loop os now newPos force i s (lc # lcs) restarted =
     (let tableID = tl_TableID lc in
      if \<not> force \<and> GetState lc = TableStateStreaming then
        restart_loop os now newPos force (i + 1) s lcs restarted
      else case restart_lc lc newPos (now i) (now i) of
        Inl e \<Rightarrow> (s, restarted, Some (Wrapf (''reset table '' @ TableID_String tableID @ '' to pending'') e))
      | Inr lc \<Rightarrow>
          (case ss_drop_cache (os i) (ss_save s lc) tableID of
             (s, Some e) \<Rightarrow> (s, restarted, Some e)
           | (s, None) \<Rightarrow> restart_loop os now newPos force (i + 1) s lcs (restarted @ [tableID])))"

definition RestartSchema ::
  "(nat \<Rightarrow> OS) \<Rightarrow> (nat \<Rightarrow> gotime) \<Rightarrow> SnapshotScheduler \<Rightarrow> string \<Rightarrow> Position option \<Rightarrow> bool
     \<Rightarrow> SnapshotScheduler \<times> TableID list \<times> err option" where
  "RestartSchema os now s schema newPos force =
     restart_loop os now newPos force 0 s (ls_ListBySchema (ss_store s) (ss_taskID s) schema) []"

definition PauseTable ::
  "SnapshotScheduler \<Rightarrow> TableID \<Rightarrow> gotime \<Rightarrow> SnapshotScheduler \<times> err option" where
  "PauseTable s tableID now =
     (case ls_Get (ss_store s) (ss_taskID s) tableID of
        Inl e \<Rightarrow> (s, Some (get_err tableID e))
      | Inr lc \<Rightarrow>
          (case Pause lc now of
             Inl e \<Rightarrow> (s, Some (Wrapf (''pause table '' @ TableID_String tableID) e))
           | Inr lc \<Rightarrow> (ss_save s lc, None)))"

definition ResumeTable ::
  "SnapshotScheduler \<Rightarrow> TableID \<Rightarrow> gotime \<Rightarrow> SnapshotScheduler \<times> err option" where
  "ResumeTable s tableID now =
     (case ls_Get (ss_store s) (ss_taskID s) tableID of
        Inl e \<Rightarrow> (s, Some (get_err tableID e))
      | Inr lc \<Rightarrow>
          (case Resume lc now of
             Inl e \<Rightarrow> (s, Some (Wrapf (''resume table '' @ TableID_String tableID) e))
           | Inr lc \<Rightarrow> (ss_save s lc, None)))"

definition GetGlobalMinPosition :: "SnapshotScheduler \<Rightarrow> Position option" where
  "GetGlobalMinPosition s = ComputeGlobalMinPosition (ls_List (ss_store s) (ss_taskID s))"

definition ListErrors :: "SnapshotScheduler \<Rightarrow> TableLifecycle list" where
  "ListErrors s = ls_ListByState (ss_store s) (ss_taskID s) TableStateError"

section \<open>Restarting\<close>

abbreviation ss_lookup :: "SnapshotScheduler \<Rightarrow> TableID \<Rightarrow> TableLifecycle option" where
  "ss_lookup s t \<equiv> ls_lookup (ss_store s) (ss_taskID s) t"

abbreviation ss_inv :: "SnapshotScheduler \<Rightarrow> bool" where
  "ss_inv s \<equiv> ls_invar (ss_store s)"

definition restarted :: "TableLifecycle \<Rightarrow> Position option \<Rightarrow> gotime \<Rightarrow> TableLifecycle" where
  "restarted lc newPos now =
     lc\<lparr> tl_SnapshotPosition := newPos, tl_PreviousState := TableStateError, tl_State := TableStatePending,
         tl_LastStateChange := now, tl_LastError := [], tl_RetryCount := tl_RetryCount lc + 1 \<rparr>"

lemma restart_lc_ok: "restart_lc lc newPos now1 now2 = Inr (restarted lc newPos now2)"
  by (cases lc) (simp add: restart_lc_def restarted_def GetState_def SetError_def ResetToPending_def Let_def)

lemma restarted_key [simp]: "tl_TableID (restarted lc newPos now) = tl_TableID lc"
  by (simp add: restarted_def)

lemma ss_save_simps [simp]:
  "ss_taskID (ss_save s lc) = ss_taskID s" "ss_cache (ss_save s lc) = ss_cache s"
  "ss_store (ss_save s lc) = ls_Save (ss_store s) (ss_taskID s) lc"
  by (simp_all add: ss_save_def)

lemma ss_drop_cache_fst [simp]:
  "ss_store (fst (ss_drop_cache os s t)) = ss_store s" "ss_taskID (fst (ss_drop_cache os s t)) = ss_taskID s"
  "ss_cache (fst (ss_drop_cache os s t)) = fst (lb_Delete os (ss_cache s) (TableID_String t))"
  by (simp_all add: ss_drop_cache_def case_prod_beta Let_def)

lemma ss_inv_save [simp]: "ss_inv s \<Longrightarrow> ls_invar (ls_Save (ss_store s) (ss_taskID s) lc)"
  by (rule mem.invar_save)

lemma ls_Get_cases:
  obtains (found) lc where "ls_lookup s task t = Some lc" "ls_Get s task t = Inr lc"
    | (missing) e where "ls_lookup s task t = None" "ls_Get s task t = Inl e"
  by (cases "ls_Get s task t") (simp_all add: ls_Get_lookup)

text \<open>
  C9. \<^verbatim>\<open>RestartTable\<close>. An unknown table is an error and changes nothing. A streaming table without
  \<^verbatim>\<open>force\<close> is refused and nothing changes. Otherwise the table is pending afterwards with the new
  snapshot position, no error text and one more retry, all other tables are as before, and its cache
  file has been deleted; the only error that can then be returned is that of the deletion.
\<close>

theorem RestartTable_spec:
  assumes "ss_inv s"
  shows "case ss_lookup s t of
      None \<Rightarrow> fst (RestartTable os s t newPos force now1 now2) = s
              \<and> snd (RestartTable os s t newPos force now1 now2) \<noteq> None
    | Some lc \<Rightarrow>
        if \<not> force \<and> tl_State lc = TableStateStreaming then
          fst (RestartTable os s t newPos force now1 now2) = s
          \<and> snd (RestartTable os s t newPos force now1 now2) \<noteq> None
        else
          (\<forall>u. ss_lookup (fst (RestartTable os s t newPos force now1 now2)) u
              = (if u = t then Some (restarted lc newPos now2) else ss_lookup s u))
          \<and> ss_cache (fst (RestartTable os s t newPos force now1 now2))
              = fst (lb_Delete os (ss_cache s) (TableID_String t))
          \<and> (snd (RestartTable os s t newPos force now1 now2) = None
               \<longleftrightarrow> snd (lb_Delete os (ss_cache s) (TableID_String t)) = None)"
proof (rule ls_Get_cases [of "ss_store s" "ss_taskID s" t])
  fix e
  assume "ls_lookup (ss_store s) (ss_taskID s) t = None" "ls_Get (ss_store s) (ss_taskID s) t = Inl e"
  then show ?thesis by (simp add: RestartTable_def)
next
  fix lc
  assume lc: "ls_lookup (ss_store s) (ss_taskID s) t = Some lc" "ls_Get (ss_store s) (ss_taskID s) t = Inr lc"
  have key: "tl_TableID lc = t" using mem.get_key [OF assms lc(1)] .
  show ?thesis
  proof (cases "\<not> force \<and> tl_State lc = TableStateStreaming")
    case True
    with lc show ?thesis by (simp add: RestartTable_def GetState_def)
  next
    case False
    then have "RestartTable os s t newPos force now1 now2
        = ss_drop_cache os (ss_save s (restarted lc newPos now2)) t"
      by (auto simp: RestartTable_def lc restart_lc_ok GetState_def)
    with False lc key show ?thesis
      by (auto simp: mem.get_save [OF assms] ss_drop_cache_def case_prod_beta Let_def)
  qed
qed

text \<open>A scheduler with two tables, for the witnesses: \<^verbatim>\<open>db.a\<close> in the given state and \<^verbatim>\<open>db.b\<close> pending.\<close>

definition wit_tid :: "string \<Rightarrow> TableID" where
  "wit_tid t = \<lparr> tid_Database = ''db'', tid_Schema = [], tid_Table = t \<rparr>"

definition wit_lc :: "string \<Rightarrow> TableState \<Rightarrow> TableLifecycle" where
  "wit_lc t st = (NewTableLifecycle (wit_tid t) 1)\<lparr> tl_State := st \<rparr>"

definition wit_sched :: "TableState \<Rightarrow> SnapshotScheduler" where
  "wit_sched st =
     NewSnapshotScheduler DefaultSchedulerConfig ''task''
       (ls_Save (ls_Save NewMemoryLifecycleStore ''task'' (wit_lc ''a'' st)) ''task'' (wit_lc ''b'' TableStatePending))
       (lb_fresh SyncModeNone)"

lemma wit_sched_inv: "ss_inv (wit_sched st)"
  by (simp add: wit_sched_def NewSnapshotScheduler_def mem.invar_save)

lemma wit_sched_lookup:
  "ss_lookup (wit_sched st) (wit_tid ''a'') = Some (wit_lc ''a'' st)"
  "ss_lookup (wit_sched st) (wit_tid ''b'') = Some (wit_lc ''b'' TableStatePending)"
  "ss_lookup (wit_sched st) (wit_tid ''c'') = None"
  by (simp_all add: wit_sched_def NewSnapshotScheduler_def mem.get_save mem.invar_save wit_lc_def wit_tid_def
      NewTableLifecycle_def) (simp add: ls_lookup_def ls_tables_def NewMemoryLifecycleStore_def)

theorem RestartTable_spec_witness:
  "ss_lookup (fst (RestartTable os_fine (wit_sched TableStateStreaming) (wit_tid ''a'') None True 3 4)) (wit_tid ''a'')
     = Some (restarted (wit_lc ''a'' TableStateStreaming) None 4)
   \<and> fst (RestartTable os_fine (wit_sched TableStateStreaming) (wit_tid ''a'') None False 3 4)
     = wit_sched TableStateStreaming"
proof -
  have st: "tl_State (wit_lc ''a'' TableStateStreaming) = TableStateStreaming" by (simp add: wit_lc_def)
  show ?thesis
    using RestartTable_spec [OF wit_sched_inv [of TableStateStreaming],
          where t = "wit_tid ''a''" and os = os_fine and newPos = None and force = True and ?now1.0 = 3 and ?now2.0 = 4]
      RestartTable_spec [OF wit_sched_inv [of TableStateStreaming],
          where t = "wit_tid ''a''" and os = os_fine and newPos = None and force = False and ?now1.0 = 3 and ?now2.0 = 4]
    by (simp add: wit_sched_lookup st)
qed

lemma lb_Delete_ok:
  "os_remove os = None \<Longrightarrow> snd (lb_Delete os lb t) = None"
  "os_remove os = None \<Longrightarrow> map_of (fs_dir (lb_fs (fst (lb_Delete os lb t)))) p
     = (if p = filePath t then None else map_of (fs_dir (lb_fs lb)) p)"
  by (auto simp: lb_Delete_def Let_def split: option.split)

definition eligible :: "bool \<Rightarrow> TableLifecycle \<Rightarrow> bool" where
  "eligible force lc = (force \<or> tl_State lc \<noteq> TableStateStreaming)"

lemma restart_loop_spec:
  assumes "ss_inv s" "distinct (map tl_TableID lcs)" "\<forall>i. os_remove (os i) = None"
  shows "\<exists>s'. restart_loop os now newPos force i s lcs acc
        = (s', acc @ map tl_TableID (filter (eligible force) lcs), None)
    \<and> ss_inv s' \<and> ss_taskID s' = ss_taskID s
    \<and> (\<forall>lc \<in> set lcs. eligible force lc \<longrightarrow>
         (\<exists>j. ss_lookup s' (tl_TableID lc) = Some (restarted lc newPos (now j)))
         \<and> map_of (fs_dir (lb_fs (ss_cache s'))) (filePath (TableID_String (tl_TableID lc))) = None)
    \<and> (\<forall>u. u \<notin> tl_TableID ` set (filter (eligible force) lcs) \<longrightarrow> ss_lookup s' u = ss_lookup s u)
    \<and> (\<forall>p. map_of (fs_dir (lb_fs (ss_cache s))) p = None \<longrightarrow> map_of (fs_dir (lb_fs (ss_cache s'))) p = None)"
  using assms
proof (induction lcs arbitrary: i s acc)
  case (Cons lc lcs)
  show ?case
  proof (cases "eligible force lc")
    case False
    then have "restart_loop os now newPos force i s (lc # lcs) acc = restart_loop os now newPos force (i + 1) s lcs acc"
      by (simp add: eligible_def GetState_def Let_def)
    with False Cons.IH [OF Cons.prems(1) _ Cons.prems(3), of "i + 1" acc] Cons.prems(2) show ?thesis by simp
  next
    case True
    let ?s1 = "fst (ss_drop_cache (os i) (ss_save s (restarted lc newPos (now i))) (tl_TableID lc))"
    have er: "ss_drop_cache (os i) (ss_save s (restarted lc newPos (now i))) (tl_TableID lc) = (?s1, None)"
      using Cons.prems(3) lb_Delete_ok(1) [of "os i"] by (simp add: ss_drop_cache_def case_prod_beta Let_def)
    have loop: "restart_loop os now newPos force i s (lc # lcs) acc
        = restart_loop os now newPos force (i + 1) ?s1 lcs (acc @ [tl_TableID lc])"
    proof -
      obtain s1 where "ss_drop_cache (os i) (ss_save s (restarted lc newPos (now i))) (tl_TableID lc) = (s1, None)"
        using er by blast
      with True show ?thesis by (auto simp: eligible_def GetState_def Let_def restart_lc_ok)
    qed
    have inv: "ss_inv ?s1" using Cons.prems(1) by simp
    have look: "ss_lookup ?s1 u = (if u = tl_TableID lc then Some (restarted lc newPos (now i)) else ss_lookup s u)" for u
      by (simp add: mem.get_save [OF Cons.prems(1)])
    have dir: "map_of (fs_dir (lb_fs (ss_cache ?s1))) p
        = (if p = filePath (TableID_String (tl_TableID lc)) then None else map_of (fs_dir (lb_fs (ss_cache s))) p)" for p
      using Cons.prems(3) lb_Delete_ok(2) [of "os i"] by simp
    have nin: "tl_TableID lc \<notin> tl_TableID ` set (filter (eligible force) lcs)" "distinct (map tl_TableID lcs)"
      using Cons.prems(2) by auto
    from Cons.IH [OF inv nin(2) Cons.prems(3), of "i + 1" "acc @ [tl_TableID lc]"]
    obtain s' where s': "restart_loop os now newPos force (i + 1) ?s1 lcs (acc @ [tl_TableID lc])
        = (s', (acc @ [tl_TableID lc]) @ map tl_TableID (filter (eligible force) lcs), None)"
      "ss_inv s'" "ss_taskID s' = ss_taskID ?s1"
      "\<forall>lc \<in> set lcs. eligible force lc \<longrightarrow>
         (\<exists>j. ss_lookup s' (tl_TableID lc) = Some (restarted lc newPos (now j)))
         \<and> map_of (fs_dir (lb_fs (ss_cache s'))) (filePath (TableID_String (tl_TableID lc))) = None"
      "\<forall>u. u \<notin> tl_TableID ` set (filter (eligible force) lcs) \<longrightarrow> ss_lookup s' u = ss_lookup ?s1 u"
      "\<forall>p. map_of (fs_dir (lb_fs (ss_cache ?s1))) p = None \<longrightarrow> map_of (fs_dir (lb_fs (ss_cache s'))) p = None"
      by blast
    show ?thesis
      unfolding loop s'(1)
    proof (intro exI [of _ s'] conjI ballI allI impI)
      fix lc' assume lc': "lc' \<in> set (lc # lcs)" "eligible force lc'"
      show "\<exists>j. ss_lookup s' (tl_TableID lc') = Some (restarted lc' newPos (now j))"
        using lc' s'(4) s'(5) nin(1) look by auto
      show "map_of (fs_dir (lb_fs (ss_cache s'))) (filePath (TableID_String (tl_TableID lc'))) = None"
        using lc' s'(4,6) dir by auto
    next
      fix u assume "u \<notin> tl_TableID ` set (filter (eligible force) (lc # lcs))"
      then show "ss_lookup s' u = ss_lookup s u" using s'(5) look True by simp
    qed (use s' dir True in auto)
  qed
qed simp

text \<open>
  \<^verbatim>\<open>RestartSchema\<close> restarts exactly the tables it may: when no cache file fails to be removed, it
  returns without error the identifiers of the tables of the schema that are not streaming (all of
  them with \<^verbatim>\<open>force\<close>), in the order visited; each of these is pending with the new position and has
  no cache file any more, and every other table of the task is as before.
\<close>

theorem RestartSchema_spec:
  fixes schema :: string and force :: bool
  assumes "ss_inv s" "\<forall>i. os_remove (os i) = None"
  defines "lcs \<equiv> filter (eligible force) (ls_ListBySchema (ss_store s) (ss_taskID s) schema)"
  shows "\<exists>s'. RestartSchema os now s schema newPos force = (s', map tl_TableID lcs, None)
    \<and> set lcs = {lc. ss_lookup s (tl_TableID lc) = Some lc \<and> tid_Database (tl_TableID lc) = schema
                   \<and> (force \<or> tl_State lc \<noteq> TableStateStreaming)}
    \<and> (\<forall>lc \<in> set lcs. (\<exists>t. ss_lookup s' (tl_TableID lc) = Some (restarted lc newPos t))
         \<and> map_of (fs_dir (lb_fs (ss_cache s'))) (filePath (TableID_String (tl_TableID lc))) = None)
    \<and> (\<forall>u. u \<notin> tl_TableID ` set lcs \<longrightarrow> ss_lookup s' u = ss_lookup s u)"
proof -
  let ?all = "ls_ListBySchema (ss_store s) (ss_taskID s) schema"
  have "distinct (map tl_TableID ?all)"
    using mem.distinct_listing [OF assms(1), of "ss_taskID s"]
    by (simp add: ls_ListBySchema_tables distinct_map_filter)
  from restart_loop_spec [OF assms(1) this assms(2), of now newPos force 0 "[]"]
  obtain s' where s': "restart_loop os now newPos force 0 s ?all [] = (s', map tl_TableID lcs, None)"
    "\<forall>lc \<in> set ?all. eligible force lc \<longrightarrow>
         (\<exists>j. ss_lookup s' (tl_TableID lc) = Some (restarted lc newPos (now j)))
         \<and> map_of (fs_dir (lb_fs (ss_cache s'))) (filePath (TableID_String (tl_TableID lc))) = None"
    "\<forall>u. u \<notin> tl_TableID ` set lcs \<longrightarrow> ss_lookup s' u = ss_lookup s u"
    by (auto simp: lcs_def)
  have "set lcs = {lc. ss_lookup s (tl_TableID lc) = Some lc \<and> tid_Database (tl_TableID lc) = schema
                   \<and> (force \<or> tl_State lc \<noteq> TableStateStreaming)}"
    using mem.set_listing [OF assms(1), of "ss_taskID s"]
    by (auto simp: lcs_def ls_ListBySchema_tables eligible_def)
  moreover have "\<forall>lc \<in> set lcs. (\<exists>t. ss_lookup s' (tl_TableID lc) = Some (restarted lc newPos t))
         \<and> map_of (fs_dir (lb_fs (ss_cache s'))) (filePath (TableID_String (tl_TableID lc))) = None"
    using s'(2) by (auto simp: lcs_def)
  ultimately show ?thesis using s'(1,3) by (auto simp: RestartSchema_def)
qed

theorem RestartSchema_spec_witness:
  "\<exists>s'. RestartSchema (\<lambda>_. os_fine) (\<lambda>_. 7) (wit_sched TableStateStreaming) ''db'' None False = (s', [wit_tid ''b''], None)
     \<and> (\<exists>t. ss_lookup s' (wit_tid ''b'') = Some (restarted (wit_lc ''b'' TableStatePending) None t))
     \<and> ss_lookup s' (wit_tid ''a'') = Some (wit_lc ''a'' TableStateStreaming)"
proof -
  have l: "filter (eligible False) (ls_ListBySchema (ss_store (wit_sched TableStateStreaming))
      (ss_taskID (wit_sched TableStateStreaming)) ''db'') = [wit_lc ''b'' TableStatePending]"
    by (simp add: ls_ListBySchema_def wit_sched_def NewSnapshotScheduler_def ls_Save_def ls_tables_def
        NewMemoryLifecycleStore_def wit_lc_def wit_tid_def NewTableLifecycle_def eligible_def)
  have k: "tl_TableID (wit_lc ''b'' TableStatePending) = wit_tid ''b''"
    by (simp add: wit_lc_def NewTableLifecycle_def)
  have "wit_tid ''a'' \<noteq> wit_tid ''b''" by (simp add: wit_tid_def)
  then show ?thesis
    using RestartSchema_spec [OF wit_sched_inv [of TableStateStreaming],
          where os = "\<lambda>_. os_fine" and schema = "''db''" and force = False and now = "\<lambda>_. 7" and newPos = None]
    by (auto simp: l k wit_sched_lookup)
qed

section \<open>Runs of the scheduler\<close>

text \<open>
  The calls made on the scheduler. \<open>SStart\<close> is the call no component makes: a transition of a stored
  table to snapshotting, with its position, followed by a save.
\<close>

datatype sched_op =
    SAdd TableID "Position option" gotime
  | SComplete TableID gotime
  | SError TableID string gotime
  | SCaughtUp OS TableID gotime
  | SRestart OS TableID "Position option" bool gotime gotime
  | SRestartSchema "nat \<Rightarrow> OS" "nat \<Rightarrow> gotime" string "Position option" bool
  | SPause TableID gotime
  | SResume TableID gotime
  | SStart TableID "Position option" gotime

fun sched_step :: "SnapshotScheduler \<Rightarrow> sched_op \<Rightarrow> SnapshotScheduler" where
  "sched_step s (SAdd t pos now) = fst (AddTable s t pos now)"
| "sched_step s (SComplete t now) = fst (OnSnapshotComplete s t now)"
| "sched_step s (SError t msg now) = fst (OnSnapshotError s t msg now)"
| "sched_step s (SCaughtUp os t now) = fst (OnCaughtUp os s t now)"
| "sched_step s (SRestart os t pos force now1 now2) = fst (RestartTable os s t pos force now1 now2)"
| "sched_step s (SRestartSchema os now schema pos force) = fst (RestartSchema os now s schema pos force)"
| "sched_step s (SPause t now) = fst (PauseTable s t now)"
| "sched_step s (SResume t now) = fst (ResumeTable s t now)"
| "sched_step s (SStart t pos now) =
     (case ls_Get (ss_store s) (ss_taskID s) t of
        Inl _ \<Rightarrow> s
      | Inr lc \<Rightarrow> (case TransitionTo lc TableStateSnapshotting pos now of Inl _ \<Rightarrow> s | Inr lc \<Rightarrow> ss_save s lc))"

text \<open>
  A property of lifecycles that a new lifecycle has and that every method of the lifecycle keeps
  holds of every stored lifecycle throughout.
\<close>

definition ss_all :: "(TableLifecycle \<Rightarrow> bool) \<Rightarrow> SnapshotScheduler \<Rightarrow> bool" where
  "ss_all P s = (ss_inv s \<and> (\<forall>t lc. ss_lookup s t = Some lc \<longrightarrow> P lc))"

lemma ss_all_save: "ss_all P s \<Longrightarrow> P lc \<Longrightarrow> ss_all P (ss_save s lc)"
  by (simp add: ss_all_def mem.get_save)

lemma ss_all_store: "ss_store s' = ss_store s \<Longrightarrow> ss_taskID s' = ss_taskID s \<Longrightarrow> ss_all P s' = ss_all P s"
  by (simp add: ss_all_def)

lemma ss_all_drop_cache [simp]: "ss_all P (fst (ss_drop_cache os s t)) = ss_all P s"
  by (rule ss_all_store) simp_all

lemma restart_loop_all:
  assumes "ss_all P s" "\<forall>lc \<in> set lcs. P lc" "\<And>lc pos now. P lc \<Longrightarrow> P (restarted lc pos now)"
  shows "ss_all P (fst (restart_loop os now newPos force i s lcs acc))"
  using assms(1,2)
proof (induction lcs arbitrary: i s acc)
  case (Cons lc lcs)
  let ?d = "ss_drop_cache (os i) (ss_save s (restarted lc newPos (now i))) (tl_TableID lc)"
  have "ss_all P (fst ?d)" using Cons.prems assms(3) by (simp add: ss_all_save)
  then show ?case
    using Cons by (cases ?d; cases "snd ?d") (auto simp: Let_def restart_lc_ok)
qed simp

lemma sched_step_all:
  assumes "ss_all P s"
    and new: "\<And>t now pos. P ((NewTableLifecycle t now)\<lparr> tl_SnapshotPosition := pos \<rparr>)"
    and step: "\<And>lc lc'. P lc \<Longrightarrow> lc_step lc lc' \<Longrightarrow> P lc'"
  shows "ss_all P (sched_step s op)"
proof -
  have P: "ls_Get (ss_store s) (ss_taskID s) t = Inr lc \<Longrightarrow> P lc" for t lc
    using assms(1) by (simp add: ss_all_def ls_Get_Inr)
  have save: "ss_all P (ss_save s lc')" if "ls_Get (ss_store s) (ss_taskID s) t = Inr lc" "lc_step lc lc'" for t lc lc'
    using step [OF P [OF that(1)] that(2)] ss_all_save [OF assms(1)] by blast
  have restart: "P (restarted lc pos now)" if "P lc" for lc pos now
  proof (cases "tl_State lc = TableStateError")
    case True
    then show ?thesis
      using step [OF that step_ResetToPending [of lc pos now]] by (simp add: lifecycle_cases restarted_def)
  next
    case False
    have "P (SetError lc ''restart requested'' now)" using step [OF that step_SetError] by blast
    from step [OF this step_ResetToPending [of _ pos now]] show ?thesis
      by (simp add: lifecycle_cases restarted_def SetError_def)
  qed
  show ?thesis
  proof (cases op)
    case (SRestartSchema os now schema pos force)
    have "\<forall>lc \<in> set (ls_ListBySchema (ss_store s) (ss_taskID s) schema). P lc"
      using assms(1) mem.set_listing [of "ss_store s" "ss_taskID s"] by (auto simp: ss_all_def ls_ListBySchema_tables)
    then show ?thesis
      using SRestartSchema restart_loop_all [OF assms(1) _ restart] by (simp add: RestartSchema_def)
  next
    case (SAdd t pos now)
    then show ?thesis using ss_all_save [OF assms(1) new] by (simp add: AddTable_def)
  next
    case (SRestart os t pos force now1 now2)
    then show ?thesis
      using assms(1) ss_all_save [OF assms(1) restart] P
      by (auto simp: RestartTable_def restart_lc_ok split: sum.split)
  qed (use assms(1) save in \<open>auto simp: OnSnapshotComplete_def OnSnapshotError_def OnCaughtUp_def PauseTable_def
         ResumeTable_def split: sum.split intro: step_TransitionTo step_SetError step_Pause step_Resume\<close>)
qed

lemma sched_run_all:
  assumes "ss_all P s"
    and "\<And>t now pos. P ((NewTableLifecycle t now)\<lparr> tl_SnapshotPosition := pos \<rparr>)"
    and "\<And>lc lc'. P lc \<Longrightarrow> lc_step lc lc' \<Longrightarrow> P lc'"
  shows "ss_all P (foldl sched_step s ops)"
  using assms(1)
proof (induction ops arbitrary: s)
  case (Cons op ops)
  then show ?case using sched_step_all [OF Cons.prems assms(2,3)] by simp
qed simp

text \<open>
  C30. Every table the scheduler stores follows the lifecycle: after any sequence of calls (with any
  answers of the file system, and with the start of snapshots as an extra call) on a scheduler with
  an empty store, each stored table is filed under its own identifier and has a run of the lifecycle
  methods behind it. So a streaming table has been snapshotted and has caught up since it was last
  pending or restarted, and a paused one can be resumed to catching_up or streaming.
\<close>

theorem scheduler_lifecycles:
  assumes "ss_lookup (foldl sched_step (NewSnapshotScheduler config task NewMemoryLifecycleStore cache) ops) t = Some lc"
  shows "tl_TableID lc = t \<and> (\<exists>tr. lc_run tr lc
    \<and> (tl_State lc = TableStateStreaming \<longrightarrow>
         subseq [TableStateSnapshotting, TableStateCatchingUp, TableStateStreaming] (since_pending tr))
    \<and> (tl_State lc = TableStatePaused \<longrightarrow> tl_PreviousState lc \<in> {TableStateCatchingUp, TableStateStreaming}))"
proof -
  let ?s = "foldl sched_step (NewSnapshotScheduler config task NewMemoryLifecycleStore cache) ops"
  have "ss_all (\<lambda>lc. \<exists>tr. lc_run tr lc) (NewSnapshotScheduler config task NewMemoryLifecycleStore cache)"
    by (simp add: ss_all_def NewSnapshotScheduler_def) (simp add: ls_lookup_def ls_tables_def NewMemoryLifecycleStore_def)
  then have all: "ss_all (\<lambda>lc. \<exists>tr. lc_run tr lc) ?s"
    by (rule sched_run_all) (blast intro: run_add run_step)+
  then obtain tr where tr: "lc_run tr lc" using assms by (auto simp: ss_all_def)
  have "tl_TableID lc = t" using all assms mem.get_key by (auto simp: ss_all_def)
  with tr lc_inv_run [OF tr] show ?thesis by (auto simp: lc_inv_def)
qed

theorem scheduler_lifecycles_witness:
  "\<exists>lc tr. ss_lookup (foldl sched_step (NewSnapshotScheduler DefaultSchedulerConfig ''task'' NewMemoryLifecycleStore
        (lb_fresh SyncModeNone)) [SAdd (wit_tid ''a'') None 1, SStart (wit_tid ''a'') None 2,
        SComplete (wit_tid ''a'') 3, SCaughtUp os_fine (wit_tid ''a'') 4]) (wit_tid ''a'') = Some lc
     \<and> tl_State lc = TableStateStreaming \<and> lc_run tr lc
     \<and> subseq [TableStateSnapshotting, TableStateCatchingUp, TableStateStreaming] (since_pending tr)"
proof -
  let ?s = "foldl sched_step (NewSnapshotScheduler DefaultSchedulerConfig ''task'' NewMemoryLifecycleStore
        (lb_fresh SyncModeNone)) [SAdd (wit_tid ''a'') None 1, SStart (wit_tid ''a'') None 2,
        SComplete (wit_tid ''a'') 3, SCaughtUp os_fine (wit_tid ''a'') 4]"
  obtain lc where lc: "ss_lookup ?s (wit_tid ''a'') = Some lc" "tl_State lc = TableStateStreaming"
    by (simp add: NewSnapshotScheduler_def AddTable_def OnSnapshotComplete_def OnCaughtUp_def ls_Get_def ls_Save_def
        ls_tables_def ls_lookup_def NewMemoryLifecycleStore_def ss_save_def NewTableLifecycle_def TransitionTo_def
        ss_drop_cache_def case_prod_beta Let_def)
  from scheduler_lifecycles [OF lc(1)] lc show ?thesis by blast
qed

text \<open>The calls that the components make: all but the start of a snapshot.\<close>

fun is_start :: "sched_op \<Rightarrow> bool" where
  "is_start (SStart t pos now) = True"
| "is_start _ = False"

lemma sched_step_idle:
  assumes "ss_all (\<lambda>lc. tl_State lc \<in> {TableStatePending, TableStateError}) s" "\<not> is_start op"
  shows "ss_all (\<lambda>lc. tl_State lc \<in> {TableStatePending, TableStateError}) (sched_step s op)"
proof -
  let ?P = "\<lambda>lc. tl_State lc \<in> {TableStatePending, TableStateError}"
  have P: "ls_Get (ss_store s) (ss_taskID s) t = Inr lc \<Longrightarrow> tl_State lc \<in> {TableStatePending, TableStateError}" for t lc
    using assms(1) by (auto simp: ss_all_def ls_Get_Inr)
  have restart: "?P (restarted lc pos now)" for lc pos now by (simp add: restarted_def)
  show ?thesis
  proof (cases op)
    case (SRestartSchema os now schema pos force)
    have "\<forall>lc \<in> set (ls_ListBySchema (ss_store s) (ss_taskID s) schema). ?P lc"
      using assms(1) mem.set_listing [of "ss_store s" "ss_taskID s"] by (auto simp: ss_all_def ls_ListBySchema_tables)
    then show ?thesis
      using SRestartSchema restart_loop_all [OF assms(1) _ restart] by (simp add: RestartSchema_def)
  next
    case (SAdd t pos now)
    then show ?thesis using ss_all_save [OF assms(1)] by (simp add: AddTable_def NewTableLifecycle_def)
  next
    case (SRestart os t pos force now1 now2)
    then show ?thesis
      using assms(1) ss_all_save [OF assms(1) restart] by (auto simp: RestartTable_def restart_lc_ok split: sum.split)
  next
    case (SError t msg now)
    then show ?thesis
      using assms(1) ss_all_save [OF assms(1), of "SetError _ _ _"]
      by (auto simp: OnSnapshotError_def lifecycle_simps split: sum.split)
  qed (use assms P in \<open>auto simp: OnSnapshotComplete_def OnCaughtUp_def PauseTable_def ResumeTable_def
         lifecycle_cases split: sum.split dest!: P\<close>)
qed

text \<open>
  C31. Nothing starts a snapshot. The scheduler has no operation that moves a table from pending to
  snapshotting, and no other component does it: after any sequence of the scheduler's own operations
  on an empty store every table is still pending or in error, so no table ever reaches snapshotting,
  catching_up or streaming.
\<close>

theorem scheduler_never_snapshots:
  assumes "list_all (\<lambda>op. \<not> is_start op) ops"
    and "ss_lookup (foldl sched_step (NewSnapshotScheduler config task NewMemoryLifecycleStore cache) ops) t = Some lc"
  shows "tl_State lc \<in> {TableStatePending, TableStateError}"
proof -
  let ?P = "\<lambda>lc. tl_State lc \<in> {TableStatePending, TableStateError}"
  have "ss_all ?P s \<Longrightarrow> ss_all ?P (foldl sched_step s ops)" for s
    using assms(1)
  proof (induction ops arbitrary: s)
    case (Cons op ops)
    then show ?case using sched_step_idle [OF Cons.prems(1), of op] by simp
  qed simp
  moreover have "ss_all ?P (NewSnapshotScheduler config task NewMemoryLifecycleStore cache)"
    by (simp add: ss_all_def NewSnapshotScheduler_def) (simp add: ls_lookup_def ls_tables_def NewMemoryLifecycleStore_def)
  ultimately show ?thesis using assms(2) by (auto simp: ss_all_def)
qed

theorem scheduler_never_snapshots_witness:
  "\<exists>lc. ss_lookup (foldl sched_step (NewSnapshotScheduler DefaultSchedulerConfig ''task'' NewMemoryLifecycleStore
        (lb_fresh SyncModeNone)) [SAdd (wit_tid ''a'') None 1, SComplete (wit_tid ''a'') 2]) (wit_tid ''a'') = Some lc
     \<and> tl_State lc \<in> {TableStatePending, TableStateError}"
proof -
  let ?ops = "[SAdd (wit_tid ''a'') None 1, SComplete (wit_tid ''a'') 2]"
  have "\<exists>lc. ss_lookup (foldl sched_step (NewSnapshotScheduler DefaultSchedulerConfig ''task''
      NewMemoryLifecycleStore (lb_fresh SyncModeNone)) ?ops) (wit_tid ''a'') = Some lc"
    by (simp add: NewSnapshotScheduler_def AddTable_def OnSnapshotComplete_def ls_Get_def ls_Save_def
        ls_tables_def ls_lookup_def NewMemoryLifecycleStore_def ss_save_def NewTableLifecycle_def TransitionTo_def Let_def)
  then show ?thesis using scheduler_never_snapshots [of ?ops] by auto
qed

end
