(* ===== verification/Schema_History.thy ===== *)
theory Schema_History
  imports Events Framing
begin

section \<open>Table definitions and their history (internal/schema)\<close>

text \<open>
  The in-memory table definitions (\<^verbatim>\<open>tables.go\<close>), the history file (\<^verbatim>\<open>local_history.go\<close>) and the
  manager of DDL records (\<^verbatim>\<open>ddl_record.go\<close>). The manager works with any \<^verbatim>\<open>SchemaHistory\<close>: the
  method \<^verbatim>\<open>Record\<close> of the history is an argument of its operations, and the interface
  \<^verbatim>\<open>schema_history.go\<close> is the locale \<open>schema_history\<close>. \<^verbatim>\<open>json.Marshal\<close> and \<^verbatim>\<open>json.Unmarshal\<close> of a
  history record are the arguments \<open>marshal\<close> and \<open>unmarshal\<close>.
\<close>

subsection \<open>Tables (tables.go)\<close>

type_synonym Tables = "(string, TableInfo) gomap"

definition NewTables :: Tables where
  "NewTables = []"

definition tableKey :: "string \<Rightarrow> string \<Rightarrow> string" where
  "tableKey database table = database @ ''.'' @ table"

definition Tables_Put :: "Tables \<Rightarrow> TableInfo \<Rightarrow> Tables" where
  "Tables_Put t info = AList.update (tableKey (ti_Database info) (ti_Table info)) info t"

definition Tables_Get :: "Tables \<Rightarrow> string \<Rightarrow> string \<Rightarrow> TableInfo option" where
  "Tables_Get t database table = map_of t (tableKey database table)"

definition Tables_Remove :: "Tables \<Rightarrow> string \<Rightarrow> string \<Rightarrow> Tables" where
  "Tables_Remove t database table = AList.delete (tableKey database table) t"

definition Tables_All :: "Tables \<Rightarrow> (string, TableInfo) gomap" where
  "Tables_All t = fold (\<lambda>(k, v) m. AList.update k v m) t []"

definition Tables_Count :: "Tables \<Rightarrow> nat" where
  "Tables_Count t = length t"

subsection \<open>The history file (local_history.go)\<close>

text \<open>What the operating system answers to the calls of one operation on the history file.\<close>

record HistOS =
  ho_writeLen :: "(nat \<times> err) option"
  ho_writeData :: "(nat \<times> err) option"
  ho_sync :: "err option"
  ho_open :: "err option"
  ho_stat :: "err option"
  ho_readLen :: "nat \<Rightarrow> err option"
  ho_readData :: "nat \<Rightarrow> err option"
  ho_done :: "nat \<Rightarrow> err option"

definition ho_fine :: HistOS where
  "ho_fine =
     \<lparr> ho_writeLen = None, ho_writeData = None, ho_sync = None, ho_open = None, ho_stat = None,
       ho_readLen = (\<lambda>_. None), ho_readData = (\<lambda>_. None), ho_done = (\<lambda>_. None) \<rparr>"

text \<open>
  The state is the content of the file, \<^const>\<open>None\<close> if there is none. \<^verbatim>\<open>Record\<close> writes the length
  and the data in two writes; a write that fails leaves its first \<open>k\<close> bytes.
\<close>

type_synonym LocalSchemaHistory = "bytes option"

definition NewLocalSchemaHistory :: "err option \<Rightarrow> err option \<Rightarrow> bytes option \<Rightarrow> LocalSchemaHistory res" where
  "NewLocalSchemaHistory mkdir open_err f =
     (case mkdir of
        Some e \<Rightarrow> Inl (Wrapf ''create meta dir'' e)
      | None \<Rightarrow>
          (case open_err of
             Some e \<Rightarrow> Inl (Wrapf ''open history file'' e)
           | None \<Rightarrow> Inr (Some (case f of None \<Rightarrow> [] | Some b \<Rightarrow> b))))"

definition hist_append :: "LocalSchemaHistory \<Rightarrow> bytes \<Rightarrow> LocalSchemaHistory" where
  "hist_append f b = Some ((case f of None \<Rightarrow> [] | Some c \<Rightarrow> c) @ b)"

definition lh_Record ::
  "(SchemaHistoryRecord \<Rightarrow> bytes res) \<Rightarrow> HistOS \<Rightarrow> LocalSchemaHistory \<Rightarrow> SchemaHistoryRecord
     \<Rightarrow> LocalSchemaHistory \<times> err option" where
  "lh_Record marshal os f rec =
     (case marshal rec of
        Inl e \<Rightarrow> (f, Some (Wrapf ''marshal record'' e))
      | Inr data \<Rightarrow>
          let lenBuf = PutUint32 (of_nat (length data)) in
          (case ho_writeLen os of
             Some (k, e) \<Rightarrow> (hist_append f (take k lenBuf), Some (Wrapf ''write length'' e))
           | None \<Rightarrow>
               (case ho_writeData os of
                  Some (k, e) \<Rightarrow> (hist_append f (lenBuf @ take k data), Some (Wrapf ''write data'' e))
                | None \<Rightarrow> (hist_append f (lenBuf @ data), ho_sync os))))"

text \<open>Reading one record: the silent end, an error, or the data and the rest.\<close>

definition hist_read :: "err option \<Rightarrow> err option \<Rightarrow> bytes \<Rightarrow> err option + bytes \<times> bytes" where
  "hist_read flt_len flt_data f =
     (case ReadFull flt_len 4 f of
        Inl e \<Rightarrow> if e = EOF then Inl None else Inl (Some (Wrapf ''read length'' e))
      | Inr (lenBuf, f) \<Rightarrow>
          (case ReadFull flt_data (unat (Uint32 lenBuf)) f of
             Inl e \<Rightarrow> Inl (Some (Wrapf ''read data'' e))
           | Inr (data, f) \<Rightarrow> Inr (data, f)))"

lemma hist_read_shorter: "hist_read a b f = Inr (d, r) \<Longrightarrow> length r < length f"
  by (auto simp: hist_read_def split: sum.splits if_splits dest!: ReadFull_length)

text \<open>The test by which a replay stops, and the effect of one record on the tables.\<close>

definition past_offset :: "Position option \<Rightarrow> Position \<Rightarrow> bool" where
  "past_offset offset pos =
     (case offset of
        None \<Rightarrow> False
      | Some off \<Rightarrow> \<not> Position_IsZero off \<and> pos_CommitTime pos > pos_CommitTime off)"

definition apply_history :: "TableInfo option \<Rightarrow> string \<Rightarrow> string \<Rightarrow> string \<Rightarrow> Tables \<Rightarrow> Tables" where
  "apply_history info changeType database table tables =
     (case info of
        Some ti \<Rightarrow> Tables_Put tables ti
      | None \<Rightarrow> if changeType = ''DROP'' then Tables_Remove tables database table else tables)"

function lh_recover_loop ::
  "(bytes \<Rightarrow> SchemaHistoryRecord res) \<Rightarrow> HistOS \<Rightarrow> Position option \<Rightarrow> nat \<Rightarrow> Tables \<Rightarrow> bytes
     \<Rightarrow> Tables \<times> err option" where
  "lh_recover_loop unmarshal os offset i tables f =
     (case ho_done os i of
        Some e \<Rightarrow> (tables, Some e)
      | None \<Rightarrow>
          (case hist_read (ho_readLen os i) (ho_readData os i) f of
             Inl er \<Rightarrow> (tables, er)
           | Inr (data, f') \<Rightarrow>
               (case unmarshal data of
                  Inl e \<Rightarrow> (tables, Some (Wrapf ''unmarshal record'' e))
                | Inr rec \<Rightarrow>
                    if past_offset offset (shr_Position rec) then (tables, None)
                    else lh_recover_loop unmarshal os offset (i + 1)
                           (apply_history (shr_TableInfo rec) (shr_ChangeType rec) (shr_Database rec)
                              (shr_Table rec) tables) f')))"
  by pat_completeness auto
termination
  by (relation "measure (\<lambda>(_, _, _, _, _, f). length f)") (auto dest: hist_read_shorter)

declare lh_recover_loop.simps [simp del]

definition lh_Recover ::
  "(bytes \<Rightarrow> SchemaHistoryRecord res) \<Rightarrow> HistOS \<Rightarrow> LocalSchemaHistory \<Rightarrow> Tables \<Rightarrow> Position option
     \<Rightarrow> Tables \<times> err option" where
  "lh_Recover unmarshal os f tables offset =
     (case f of
        None \<Rightarrow> (tables, None)
      | Some b \<Rightarrow>
          (case ho_open os of
             Some e \<Rightarrow> (tables, Some (Wrapf ''open history file'' e))
           | None \<Rightarrow> lh_recover_loop unmarshal os offset 0 tables b))"

definition lh_Exists :: "HistOS \<Rightarrow> LocalSchemaHistory \<Rightarrow> bool res" where
  "lh_Exists os f =
     (case f of
        None \<Rightarrow> Inr False
      | Some b \<Rightarrow> (case ho_stat os of Some e \<Rightarrow> Inl e | None \<Rightarrow> Inr (length b > 0)))"

subsection \<open>The manager of DDL records (ddl_record.go)\<close>

record 'h DDLRecordManager =
  dm_records :: "(string, DDLRecord) gomap"
  dm_tables :: Tables
  dm_history :: 'h

definition NewDDLRecordManager :: "Tables \<Rightarrow> 'h \<Rightarrow> 'h DDLRecordManager" where
  "NewDDLRecordManager tables history = \<lparr> dm_records = [], dm_tables = tables, dm_history = history \<rparr>"

definition ErrDDLRecordNotFound :: err where
  "ErrDDLRecordNotFound = Errorf ''ddl record not found''"

definition not_found :: "string \<Rightarrow> err" where
  "not_found rid = WrapText (''ddl record not found: '' @ rid) ErrDDLRecordNotFound"

definition dm_Create :: "'h DDLRecordManager \<Rightarrow> DDLRecord \<Rightarrow> gotime \<Rightarrow> 'h DDLRecordManager" where
  "dm_Create m rec now =
     m\<lparr> dm_records := AList.update (dr_ID rec)
          (rec\<lparr> dr_Status := DDLStatusPending, dr_CreatedAt := now \<rparr>) (dm_records m) \<rparr>"

definition MarkApplying ::
  "'h DDLRecordManager \<Rightarrow> string \<Rightarrow> gotime \<Rightarrow> 'h DDLRecordManager \<times> err option" where
  "MarkApplying m rid now =
     (case map_of (dm_records m) rid of
        None \<Rightarrow> (m, Some (not_found rid))
      | Some rec \<Rightarrow>
          (m\<lparr> dm_records := AList.update rid
                (rec\<lparr> dr_Status := DDLStatusApplying, dr_AppliedAt := Some now \<rparr>) (dm_records m) \<rparr>, None))"

definition changeTypeFromDDL :: "Tables \<Rightarrow> DDLRecord \<Rightarrow> string" where
  "changeTypeFromDDL tables rec =
     (if dr_NewTableInfo rec = None then ''DROP''
      else if Tables_Get tables (dr_Database rec) (dr_Table rec) \<noteq> None then ''ALTER''
      else ''CREATE'')"

text \<open>The history record of a completed DDL; \<^verbatim>\<open>*rec.Position\<close> panics when the position is nil.\<close>

definition hist_record :: "DDLRecord \<Rightarrow> Position \<Rightarrow> string \<Rightarrow> gotime \<Rightarrow> SchemaHistoryRecord" where
  "hist_record rec pos changeType now =
     \<lparr> shr_Position = pos, shr_Database = dr_Database rec,
       shr_Schema = (case dr_NewTableInfo rec of None \<Rightarrow> [] | Some ti \<Rightarrow> ti_Schema ti),
       shr_Table = dr_Table rec, shr_DDL = dr_DDL rec, shr_TableInfo = dr_NewTableInfo rec,
       shr_ChangeType = changeType, shr_DDLStatus = DDLStatusCompleted, shr_Timestamp = now \<rparr>"

definition MarkCompleted ::
  "('h \<Rightarrow> SchemaHistoryRecord \<Rightarrow> 'h \<times> err option) \<Rightarrow> 'h DDLRecordManager \<Rightarrow> string \<Rightarrow> gotime
     \<Rightarrow> 'h DDLRecordManager \<times> err option" where
  "MarkCompleted Record m rid now =
     (case map_of (dm_records m) rid of
        None \<Rightarrow> (m, Some (not_found rid))
      | Some rec \<Rightarrow>
          let rec = rec\<lparr> dr_Status := DDLStatusCompleted, dr_CompletedAt := Some now \<rparr>;
              m = m\<lparr> dm_records := AList.update rid rec (dm_records m) \<rparr>;
              changeType = changeTypeFromDDL (dm_tables m) rec;
              m = (case dr_NewTableInfo rec of
                     Some ti \<Rightarrow> m\<lparr> dm_tables := Tables_Put (dm_tables m) ti \<rparr>
                   | None \<Rightarrow> m\<lparr> dm_tables := Tables_Remove (dm_tables m) (dr_Database rec) (dr_Table rec) \<rparr>)
          in case dr_Position rec of
               None \<Rightarrow> (m, Some (Panic ''invalid memory address or nil pointer dereference''))
             | Some pos \<Rightarrow>
                 (let (h, er) = Record (dm_history m) (hist_record rec pos changeType now)
                  in (m\<lparr> dm_history := h \<rparr>, er)))"

definition MarkFailed ::
  "'h DDLRecordManager \<Rightarrow> string \<Rightarrow> string \<Rightarrow> 'h DDLRecordManager \<times> err option" where
  "MarkFailed m rid errStr =
     (case map_of (dm_records m) rid of
        None \<Rightarrow> (m, Some (not_found rid))
      | Some rec \<Rightarrow>
          (m\<lparr> dm_records := AList.update rid
                (rec\<lparr> dr_Status := DDLStatusFailed, dr_Error := errStr \<rparr>) (dm_records m) \<rparr>, None))"

definition MarkSkipped :: "'h DDLRecordManager \<Rightarrow> string \<Rightarrow> 'h DDLRecordManager \<times> err option" where
  "MarkSkipped m rid =
     (case map_of (dm_records m) rid of
        None \<Rightarrow> (m, Some (not_found rid))
      | Some rec \<Rightarrow>
          (m\<lparr> dm_records := AList.update rid (rec\<lparr> dr_Status := DDLStatusSkipped \<rparr>) (dm_records m) \<rparr>, None))"

definition dm_Get :: "'h DDLRecordManager \<Rightarrow> string \<Rightarrow> DDLRecord res" where
  "dm_Get m rid = (case map_of (dm_records m) rid of None \<Rightarrow> Inl (not_found rid) | Some rec \<Rightarrow> Inr rec)"

definition PendingRecords :: "'h DDLRecordManager \<Rightarrow> DDLRecord list" where
  "PendingRecords m = filter (\<lambda>rec. dr_Status rec = DDLStatusPending) (map snd (dm_records m))"

section \<open>The interface of a schema history (schema_history.go)\<close>

text \<open>
  The tables that a list of history records describes: the records before the first one that lies
  past the offset are applied in order.
\<close>

definition apply_shr :: "SchemaHistoryRecord \<Rightarrow> Tables \<Rightarrow> Tables" where
  "apply_shr r = apply_history (shr_TableInfo r) (shr_ChangeType r) (shr_Database r) (shr_Table r)"

definition replay :: "Position option \<Rightarrow> SchemaHistoryRecord list \<Rightarrow> Tables \<Rightarrow> Tables" where
  "replay offset rs tables = fold apply_shr (takeWhile (\<lambda>r. \<not> past_offset offset (shr_Position r)) rs) tables"

lemma replay_simps [simp]:
  "replay offset [] tables = tables"
  "replay offset (r # rs) tables
     = (if past_offset offset (shr_Position r) then tables else replay offset rs (apply_shr r tables))"
  by (simp_all add: replay_def)

lemma past_offset_None [simp]: "\<not> past_offset None p"
  by (simp add: past_offset_def)

lemma replay_None_snoc [simp]: "replay None (rs @ [r]) tables = apply_shr r (replay None rs tables)"
  by (induction rs arbitrary: tables) auto

text \<open>
  \<open>holds h rs\<close> says that the history \<open>h\<close> holds the records \<open>rs\<close>; \<open>ok\<close> is the precondition of recording
  (what the encoding must be able to carry). A history appends what is recorded and recovers by
  replaying what it holds.
\<close>

datatype dm_op =
    DmCreate DDLRecord gotime
  | DmApplying string gotime
  | DmCompleted string gotime
  | DmFailed string string
  | DmSkipped string

fun dm_step ::
  "('h \<Rightarrow> SchemaHistoryRecord \<Rightarrow> 'h \<times> err option) \<Rightarrow> 'h DDLRecordManager \<Rightarrow> dm_op \<Rightarrow> 'h DDLRecordManager" where
  "dm_step Record m (DmCreate rec now) = dm_Create m rec now"
| "dm_step Record m (DmApplying rid now) = fst (MarkApplying m rid now)"
| "dm_step Record m (DmCompleted rid now) = fst (MarkCompleted Record m rid now)"
| "dm_step Record m (DmFailed rid e) = fst (MarkFailed m rid e)"
| "dm_step Record m (DmSkipped rid) = fst (MarkSkipped m rid)"

text \<open>
  A DDL record that can be recorded when it completes at one of the times \<open>N\<close>. (JSON carries only
  times of the years 0 to 9999.)
\<close>

definition recordable :: "(SchemaHistoryRecord \<Rightarrow> bool) \<Rightarrow> gotime set \<Rightarrow> DDLRecord \<Rightarrow> bool" where
  "recordable ok N rec =
     (case dr_Position rec of
        None \<Rightarrow> False
      | Some pos \<Rightarrow> \<forall>ct \<in> {''DROP'', ''ALTER'', ''CREATE''}. \<forall>now \<in> N. ok (hist_record rec pos ct now))"

fun dm_op_ok :: "(SchemaHistoryRecord \<Rightarrow> bool) \<Rightarrow> gotime set \<Rightarrow> dm_op \<Rightarrow> bool" where
  "dm_op_ok ok N (DmCreate rec now) = recordable ok N rec"
| "dm_op_ok ok N (DmCompleted rid now) = (now \<in> N)"
| "dm_op_ok ok N _ = True"

lemma hist_record_fields [simp]:
  "hist_record (rec\<lparr> dr_Status := s \<rparr>) = hist_record rec"
  "hist_record (rec\<lparr> dr_CreatedAt := t \<rparr>) = hist_record rec"
  "hist_record (rec\<lparr> dr_AppliedAt := a \<rparr>) = hist_record rec"
  "hist_record (rec\<lparr> dr_CompletedAt := c \<rparr>) = hist_record rec"
  "hist_record (rec\<lparr> dr_Error := e \<rparr>) = hist_record rec"
  by (simp_all add: hist_record_def fun_eq_iff)

lemma recordable_fields [simp]:
  "recordable ok N (rec\<lparr> dr_Status := s \<rparr>) = recordable ok N rec"
  "recordable ok N (rec\<lparr> dr_CreatedAt := t \<rparr>) = recordable ok N rec"
  "recordable ok N (rec\<lparr> dr_AppliedAt := a \<rparr>) = recordable ok N rec"
  "recordable ok N (rec\<lparr> dr_CompletedAt := c \<rparr>) = recordable ok N rec"
  "recordable ok N (rec\<lparr> dr_Error := e \<rparr>) = recordable ok N rec"
  by (simp_all add: recordable_def cong: option.case_cong)

lemma changeType_DROP: "dr_NewTableInfo rec = None \<Longrightarrow> changeTypeFromDDL tables rec = ''DROP''"
  by (simp add: changeTypeFromDDL_def)

lemma apply_shr_hist_record:
  "apply_shr (hist_record rec pos (changeTypeFromDDL t0 rec) now) tables
     = (case dr_NewTableInfo rec of
          Some ti \<Rightarrow> Tables_Put tables ti
        | None \<Rightarrow> Tables_Remove tables (dr_Database rec) (dr_Table rec))"
  by (auto simp: apply_shr_def apply_history_def hist_record_def changeType_DROP split: option.split)

locale schema_history =
  fixes ok :: "SchemaHistoryRecord \<Rightarrow> bool"
    and holds :: "'h \<Rightarrow> SchemaHistoryRecord list \<Rightarrow> bool"
    and Record :: "'h \<Rightarrow> SchemaHistoryRecord \<Rightarrow> 'h \<times> err option"
    and Recover :: "'h \<Rightarrow> Tables \<Rightarrow> Position option \<Rightarrow> Tables \<times> err option"
  assumes Record_appends: "holds h rs \<Longrightarrow> ok r \<Longrightarrow> \<exists>h'. Record h r = (h', None) \<and> holds h' (rs @ [r])"
    and Recover_replays: "holds h rs \<Longrightarrow> Recover h tables offset = (replay offset rs tables, None)"
begin

definition dm_inv :: "gotime set \<Rightarrow> 'h DDLRecordManager \<Rightarrow> bool" where
  "dm_inv N m = ((\<forall>rec \<in> ran (map_of (dm_records m)). recordable ok N rec)
     \<and> (\<exists>rs. holds (dm_history m) rs \<and> dm_tables m = replay None rs []))"

lemma ran_update: "(\<forall>x \<in> ran (map_of m). P x) \<Longrightarrow> P v \<Longrightarrow> \<forall>x \<in> ran (map_of (AList.update k v m)). P x"
  by (auto simp: ran_def split: if_splits)

lemma MarkCompleted_step:
  assumes "dm_inv N m" "map_of (dm_records m) rid = Some rec" "now \<in> N"
  shows "snd (MarkCompleted Record m rid now) = None \<and> dm_inv N (fst (MarkCompleted Record m rid now))"
proof -
  obtain rs where rs: "holds (dm_history m) rs" "dm_tables m = replay None rs []"
    using assms(1) by (auto simp: dm_inv_def)
  have "recordable ok N rec" using assms by (auto simp: dm_inv_def ran_def)
  then obtain pos where pos: "dr_Position rec = Some pos" "\<And>ct. ct \<in> {''DROP'', ''ALTER'', ''CREATE''} \<Longrightarrow> ok (hist_record rec pos ct now)"
    using assms(3) by (auto simp: recordable_def split: option.splits)
  have ct: "changeTypeFromDDL t r \<in> {''DROP'', ''ALTER'', ''CREATE''}" for t r
    by (simp add: changeTypeFromDDL_def)
  let ?rec = "rec\<lparr> dr_Status := DDLStatusCompleted, dr_CompletedAt := Some now \<rparr>"
  let ?r = "hist_record rec pos (changeTypeFromDDL (dm_tables m) ?rec) now"
  obtain h' where h': "Record (dm_history m) ?r = (h', None)" "holds h' (rs @ [?r])"
    using Record_appends [OF rs(1) pos(2) [OF ct]] by blast
  have t: "(case dr_NewTableInfo rec of
          Some ti \<Rightarrow> Tables_Put (dm_tables m) ti
        | None \<Rightarrow> Tables_Remove (dm_tables m) (dr_Database rec) (dr_Table rec)) = replay None (rs @ [?r]) []"
    using apply_shr_hist_record [of ?rec pos "dm_tables m" now "dm_tables m"] rs(2)
    by (simp cong: option.case_cong)
  have m: "MarkCompleted Record m rid now
      = (m\<lparr> dm_records := AList.update rid ?rec (dm_records m), dm_tables := replay None (rs @ [?r]) [],
           dm_history := h' \<rparr>, None)"
    using h' t by (auto simp: MarkCompleted_def assms(2) pos(1) Let_def split: option.split)
  have "\<forall>x \<in> ran (map_of (AList.update rid ?rec (dm_records m))). recordable ok N x"
    using assms \<open>recordable ok N rec\<close> by (intro ran_update) (auto simp: dm_inv_def)
  then show ?thesis using m h' by (auto simp: dm_inv_def)
qed

lemma dm_inv_update:
  assumes "dm_inv N m" "recordable ok N v"
  shows "dm_inv N (m\<lparr> dm_records := AList.update k v (dm_records m) \<rparr>)"
  using assms ran_update [of "dm_records m" "recordable ok N" v k] by (simp add: dm_inv_def)

lemma dm_inv_lookup: "dm_inv N m \<Longrightarrow> map_of (dm_records m) rid = Some rec \<Longrightarrow> recordable ok N rec"
  by (auto simp: dm_inv_def ran_def)

lemma dm_step_inv:
  assumes "dm_inv N m" "dm_op_ok ok N op"
  shows "dm_inv N (dm_step Record m op)"
proof (cases op)
  case (DmCompleted rid now)
  then show ?thesis
    using assms MarkCompleted_step [of N m rid _ now]
    by (cases "map_of (dm_records m) rid") (auto simp: MarkCompleted_def)
next
  case (DmCreate rec now)
  then show ?thesis using assms dm_inv_update [OF assms(1)] by (simp add: dm_Create_def)
next
  case (DmApplying rid now)
  then show ?thesis
    using assms dm_inv_update [OF assms(1)] dm_inv_lookup [OF assms(1), of rid]
    by (cases "map_of (dm_records m) rid") (simp_all add: MarkApplying_def)
next
  case (DmFailed rid e)
  then show ?thesis
    using assms dm_inv_update [OF assms(1)] dm_inv_lookup [OF assms(1), of rid]
    by (cases "map_of (dm_records m) rid") (simp_all add: MarkFailed_def)
next
  case (DmSkipped rid)
  then show ?thesis
    using assms dm_inv_update [OF assms(1)] dm_inv_lookup [OF assms(1), of rid]
    by (cases "map_of (dm_records m) rid") (simp_all add: MarkSkipped_def)
qed

lemma dm_run_inv:
  "dm_inv N m \<Longrightarrow> list_all (dm_op_ok ok N) ops \<Longrightarrow> dm_inv N (foldl (dm_step Record) m ops)"
  by (induction ops arbitrary: m) (auto intro: dm_step_inv)

lemma recover_rebuilds:
  assumes "holds h0 []" "list_all (dm_op_ok ok N) ops"
  shows "Recover (dm_history (foldl (dm_step Record) (NewDDLRecordManager NewTables h0) ops)) NewTables None
    = (dm_tables (foldl (dm_step Record) (NewDDLRecordManager NewTables h0) ops), None)"
proof -
  have "dm_inv N (NewDDLRecordManager NewTables h0)"
    using assms(1) by (auto simp: dm_inv_def NewDDLRecordManager_def NewTables_def intro: exI [of _ "[]"])
  from dm_run_inv [OF this assms(2)]
  show ?thesis by (auto simp: dm_inv_def NewTables_def Recover_replays)
qed

end

section \<open>The history file implements the interface\<close>

definition hist_payload_ok :: "bytes \<Rightarrow> bool" where
  "hist_payload_ok d = (length d < 2 ^ 32)"

definition hist_frame :: "bytes \<Rightarrow> bytes" where
  "hist_frame d = PutUint32 (of_nat (length d)) @ d"

lemma hist_payload_len: "hist_payload_ok d \<Longrightarrow> unat (of_nat (length d) :: uint32) = length d"
  by (simp add: hist_payload_ok_def unat_of_nat)

lemma hist_read_torn:
  assumes "hist_payload_ok d" "k < length (hist_frame d)"
  shows "\<exists>er. hist_read None None (take k (hist_frame d)) = Inl er \<and> (0 < k \<longrightarrow> er \<noteq> None)"
proof (cases "k < 4")
  case True
  then have "take k (hist_frame d) = take k (PutUint32 (of_nat (length d)))" by (simp add: hist_frame_def)
  then show ?thesis using True PutUint32_nonempty by (auto simp: hist_read_def ReadFull_short hist_frame_def)
next
  case False
  then have "take k (hist_frame d) = PutUint32 (of_nat (length d)) @ take (k - 4) d"
    by (simp add: hist_frame_def)
  moreover have "length (take (k - 4) d) < length d" using assms False by (auto simp: hist_frame_def)
  ultimately show ?thesis
    using assms by (simp add: hist_read_def hist_payload_len ReadFull_short)
qed

interpretation hist_framing: framing hist_payload_ok hist_frame "hist_read None None"
proof unfold_locales
  show "hist_payload_ok p \<Longrightarrow> hist_read None None (hist_frame p @ r) = Inr (p, r)" for p r
    by (simp add: hist_read_def hist_frame_def hist_payload_len)
  show "hist_payload_ok p \<Longrightarrow> k < length (hist_frame p) \<Longrightarrow> \<exists>er. hist_read None None (take k (hist_frame p)) = Inl er" for p k
    using hist_read_torn by blast
  show "hist_read None None [] = Inl None" by (simp add: hist_read_def ReadFull_def)
qed (fact hist_read_shorter)

text \<open>
  The hypothesis on \<^verbatim>\<open>encoding/json\<close>: the record has an encoding, shorter than 4 GB, that decodes to
  the record.
\<close>

definition shr_json_ok ::
  "(SchemaHistoryRecord \<Rightarrow> bytes res) \<Rightarrow> (bytes \<Rightarrow> SchemaHistoryRecord res) \<Rightarrow> SchemaHistoryRecord \<Rightarrow> bool" where
  "shr_json_ok marshal unmarshal r =
     (case marshal r of Inl _ \<Rightarrow> False | Inr d \<Rightarrow> hist_payload_ok d \<and> unmarshal d = Inr r)"

definition shr_data :: "(SchemaHistoryRecord \<Rightarrow> bytes res) \<Rightarrow> SchemaHistoryRecord \<Rightarrow> bytes" where
  "shr_data marshal r = (case marshal r of Inl _ \<Rightarrow> [] | Inr d \<Rightarrow> d)"

definition hist_bytes :: "(SchemaHistoryRecord \<Rightarrow> bytes res) \<Rightarrow> SchemaHistoryRecord list \<Rightarrow> bytes" where
  "hist_bytes marshal rs = concat (map hist_frame (map (shr_data marshal) rs))"

definition lh_holds ::
  "(SchemaHistoryRecord \<Rightarrow> bytes res) \<Rightarrow> (bytes \<Rightarrow> SchemaHistoryRecord res)
     \<Rightarrow> LocalSchemaHistory \<Rightarrow> SchemaHistoryRecord list \<Rightarrow> bool" where
  "lh_holds marshal unmarshal f rs =
     (list_all (shr_json_ok marshal unmarshal) rs
      \<and> (case f of None \<Rightarrow> rs = [] | Some b \<Rightarrow> b = hist_bytes marshal rs))"

lemma shr_json_okD:
  assumes "shr_json_ok marshal unmarshal r"
  shows "marshal r = Inr (shr_data marshal r)" "hist_payload_ok (shr_data marshal r)"
    "unmarshal (shr_data marshal r) = Inr r"
  using assms by (auto simp: shr_json_ok_def shr_data_def split: sum.splits)

lemma ho_fine_simps [simp]:
  "ho_writeLen ho_fine = None" "ho_writeData ho_fine = None" "ho_sync ho_fine = None"
  "ho_open ho_fine = None" "ho_readLen ho_fine i = None" "ho_readData ho_fine i = None"
  "ho_done ho_fine i = None" "ho_stat ho_fine = None"
  by (simp_all add: ho_fine_def)

lemma recover_loop_decode:
  assumes "list_all2 (\<lambda>p r. unmarshal p = Inr r) ps rs"
    and "decode_all (hist_read None None) n f = (ps, er)" and "length f < n"
  shows "lh_recover_loop unmarshal ho_fine offset i tables f
     = (replay offset rs tables, if \<exists>r \<in> set rs. past_offset offset (shr_Position r) then None else er)"
  using assms
proof (induction ps arbitrary: n f rs tables i)
  case Nil
  from Nil(3) obtain m where n: "n = Suc m" by (cases n) auto
  with Nil show ?case
    by (subst lh_recover_loop.simps) (auto split: sum.splits prod.splits)
next
  case (Cons p ps)
  from Cons.prems(3) obtain m where n: "n = Suc m" by (cases n) auto
  from Cons.prems(1) obtain r rs' where rs: "rs = r # rs'" "unmarshal p = Inr r"
    "list_all2 (\<lambda>p r. unmarshal p = Inr r) ps rs'"
    by (auto simp: list_all2_Cons1)
  from Cons.prems(2) n obtain f' where f': "hist_read None None f = Inr (p, f')"
    "decode_all (hist_read None None) m f' = (ps, er)"
    by (auto split: sum.splits prod.splits)
  have "length f' < m" using hist_read_shorter [OF f'(1)] Cons.prems(3) n by simp
  note IH = Cons.IH [OF rs(3) f'(2) this]
  show ?case
    by (subst lh_recover_loop.simps) (simp add: f' rs IH apply_shr_def)
qed

lemma shr_payloads:
  "list_all (shr_json_ok marshal unmarshal) rs \<Longrightarrow>
     list_all2 (\<lambda>p r. unmarshal p = Inr r) (map (shr_data marshal) rs) rs
     \<and> list_all hist_payload_ok (map (shr_data marshal) rs)"
  by (induction rs) (auto dest: shr_json_okD)

lemma lh_Record_appends:
  assumes "lh_holds marshal unmarshal f rs" "shr_json_ok marshal unmarshal r"
  shows "\<exists>f'. lh_Record marshal ho_fine f r = (f', None) \<and> lh_holds marshal unmarshal f' (rs @ [r])"
  using assms shr_json_okD [OF assms(2)]
  by (auto simp: lh_Record_def lh_holds_def hist_append_def hist_bytes_def hist_frame_def split: option.splits)

lemma lh_Recover_replays:
  assumes "lh_holds marshal unmarshal f rs"
  shows "lh_Recover unmarshal ho_fine f tables offset = (replay offset rs tables, None)"
proof (cases f)
  case None
  then show ?thesis using assms by (simp add: lh_Recover_def lh_holds_def)
next
  case (Some b)
  then have ok: "list_all (shr_json_ok marshal unmarshal) rs" and b: "b = hist_bytes marshal rs"
    using assms by (auto simp: lh_holds_def)
  note p = shr_payloads [OF ok]
  show ?thesis
    using recover_loop_decode [OF conjunct1 [OF p]
        hist_framing.decode_all_complete [OF conjunct2 [OF p] lessI] lessI]
    by (simp add: lh_Recover_def Some b hist_bytes_def)
qed

interpretation local_hist: schema_history "shr_json_ok marshal unmarshal" "lh_holds marshal unmarshal"
  "lh_Record marshal ho_fine" "lh_Recover unmarshal ho_fine" for marshal unmarshal
  by unfold_locales (fact lh_Record_appends lh_Recover_replays)+

text \<open>
  C2. After a restart the table definitions are what they were. Let the DDL record manager, started
  with no tables and an empty history file, make any sequence of \<^verbatim>\<open>Create\<close>, \<^verbatim>\<open>MarkApplying\<close>,
  \<^verbatim>\<open>MarkCompleted\<close>, \<^verbatim>\<open>MarkFailed\<close> and \<^verbatim>\<open>MarkSkipped\<close> calls (unknown identifiers included) with DDL
  records that carry a position and whose history records survive JSON, and let the file system
  not fail. Then \<^verbatim>\<open>Recover\<close> of the history file into empty tables succeeds and yields exactly the
  tables the manager holds in memory.
\<close>

theorem recover_rebuilds_tables:
  assumes "list_all (dm_op_ok (shr_json_ok marshal unmarshal) N) ops"
  defines "m \<equiv> foldl (dm_step (lh_Record marshal ho_fine)) (NewDDLRecordManager NewTables (Some [])) ops"
  shows "lh_Recover unmarshal ho_fine (dm_history m) NewTables None = (dm_tables m, None)"
  unfolding m_def
  by (rule local_hist.recover_rebuilds [OF _ assms(1)]) (simp add: lh_holds_def hist_bytes_def)

text \<open>
  A codec for the witnesses: the records of one table, completed at time 5, as two bytes (whether
  there is a definition, and the change type).
\<close>

definition wit_ti :: TableInfo where
  "wit_ti = TableInfo_zero\<lparr> ti_Database := ''db'', ti_Table := ''t'' \<rparr>"

definition wit_ddl :: "string \<Rightarrow> TableInfo option \<Rightarrow> DDLRecord" where
  "wit_ddl rid info =
     \<lparr> dr_ID = rid, dr_Position = Some Position_zero, dr_Database = ''db'', dr_Table = ''t'', dr_DDL = [],
       dr_NewTableInfo = info, dr_Status = DDLStatusPending, dr_AppliedAt = None,
       dr_CompletedAt = None, dr_Error = [], dr_RetryCount = 0, dr_CreatedAt = 0 \<rparr>"

definition wit_marshal :: "SchemaHistoryRecord \<Rightarrow> bytes res" where
  "wit_marshal r =
     Inr [if shr_TableInfo r = None then 0 else 1,
          if shr_ChangeType r = ''DROP'' then 0 else if shr_ChangeType r = ''ALTER'' then 1 else 2]"

definition wit_unmarshal :: "bytes \<Rightarrow> SchemaHistoryRecord res" where
  "wit_unmarshal d =
     (case d of
        [a, b] \<Rightarrow> Inr (hist_record (wit_ddl [] (if a = 0 then None else Some wit_ti)) Position_zero
                        (if b = 0 then ''DROP'' else if b = 1 then ''ALTER'' else ''CREATE'') 5)
      | _ \<Rightarrow> Inl (Errorf ''json''))"

lemma wit_json_ok:
  "info \<in> {None, Some wit_ti} \<Longrightarrow> ct \<in> {''DROP'', ''ALTER'', ''CREATE''} \<Longrightarrow>
     shr_json_ok wit_marshal wit_unmarshal (hist_record (wit_ddl rid info) Position_zero ct 5)"
  by (auto simp: shr_json_ok_def wit_marshal_def wit_unmarshal_def hist_record_def wit_ddl_def hist_payload_ok_def)

lemma wit_recordable:
  assumes "info \<in> {None, Some wit_ti}"
  shows "recordable (shr_json_ok wit_marshal wit_unmarshal) {5} (wit_ddl rid info)"
proof -
  have "dr_Position (wit_ddl rid info) = Some Position_zero" by (simp add: wit_ddl_def)
  then show ?thesis using wit_json_ok [OF assms] by (simp add: recordable_def)
qed

theorem recover_rebuilds_tables_witness:
  "\<exists>m. m = foldl (dm_step (lh_Record wit_marshal ho_fine)) (NewDDLRecordManager NewTables (Some []))
             [DmCreate (wit_ddl ''1'' (Some wit_ti)) 1, DmApplying ''1'' 2, DmCompleted ''1'' 5, DmCompleted ''9'' 5]
     \<and> dm_tables m = [(''db.t'', wit_ti)]
     \<and> lh_Recover wit_unmarshal ho_fine (dm_history m) NewTables None = ([(''db.t'', wit_ti)], None)"
proof -
  let ?ops = "[DmCreate (wit_ddl ''1'' (Some wit_ti)) 1, DmApplying ''1'' 2, DmCompleted ''1'' 5, DmCompleted ''9'' 5]"
  let ?m = "foldl (dm_step (lh_Record wit_marshal ho_fine)) (NewDDLRecordManager NewTables (Some [])) ?ops"
  have "list_all (dm_op_ok (shr_json_ok wit_marshal wit_unmarshal) {5}) ?ops"
    using wit_recordable [of "Some wit_ti" "''1''"] by simp
  from recover_rebuilds_tables [OF this]
  have "lh_Recover wit_unmarshal ho_fine (dm_history ?m) NewTables None = (dm_tables ?m, None)" .
  moreover have "dm_tables ?m = [(''db.t'', wit_ti)]"
    by (simp add: dm_Create_def MarkApplying_def MarkCompleted_def NewDDLRecordManager_def NewTables_def
        wit_ddl_def Tables_Put_def tableKey_def wit_ti_def lh_Record_def wit_marshal_def Let_def)
  ultimately show ?thesis by (intro exI [of _ ?m] conjI refl) (simp_all only:)
qed

text \<open>
  Replay up to an offset. \<^verbatim>\<open>Recover\<close> of a file that holds the records \<open>rs\<close> applies, in order, exactly
  the records before the first one whose commit time is after that of the offset; a nil or zero
  offset replays everything.
\<close>

theorem lh_Recover_offset:
  assumes "list_all (shr_json_ok marshal unmarshal) rs"
  shows "lh_Recover unmarshal ho_fine (Some (hist_bytes marshal rs)) tables offset
    = (fold apply_shr (takeWhile (\<lambda>r. offset = None \<or> Position_IsZero (the offset)
           \<or> pos_CommitTime (shr_Position r) \<le> pos_CommitTime (the offset)) rs) tables, None)"
proof -
  have "lh_holds marshal unmarshal (Some (hist_bytes marshal rs)) rs" using assms by (simp add: lh_holds_def)
  moreover have "(\<lambda>r :: SchemaHistoryRecord. \<not> past_offset offset (shr_Position r))
    = (\<lambda>r. offset = None \<or> Position_IsZero (the offset)
           \<or> pos_CommitTime (shr_Position r) \<le> pos_CommitTime (the offset))"
    by (auto simp: past_offset_def fun_eq_iff split: option.split)
  ultimately show ?thesis by (simp only: local_hist.Recover_replays replay_def)
qed

theorem lh_Recover_offset_witness:
  "lh_Recover wit_unmarshal ho_fine
     (Some (hist_bytes wit_marshal [hist_record (wit_ddl [] (Some wit_ti)) Position_zero ''CREATE'' 5,
                                    hist_record (wit_ddl [] None) Position_zero ''DROP'' 5]))
     [] None = ([], None)"
proof -
  let ?r = "hist_record (wit_ddl [] (Some wit_ti)) Position_zero ''CREATE'' 5"
  let ?d = "hist_record (wit_ddl [] None) Position_zero ''DROP'' 5"
  have "list_all (shr_json_ok wit_marshal wit_unmarshal) [?r, ?d]" by (simp add: wit_json_ok)
  from lh_Recover_offset [OF this, of "[]" None]
  have "lh_Recover wit_unmarshal ho_fine (Some (hist_bytes wit_marshal [?r, ?d])) [] None
      = (apply_shr ?d (apply_shr ?r []), None)"
    by simp
  moreover have "apply_shr ?d (apply_shr ?r []) = []"
    by (simp add: apply_shr_def apply_history_def hist_record_def wit_ddl_def Tables_Put_def
        Tables_Remove_def tableKey_def wit_ti_def)
  ultimately show ?thesis by (simp only:)
qed

text \<open>
  C27. A torn record blocks recovery. If the last \<^verbatim>\<open>Record\<close> stopped in the middle of its bytes (at
  least one byte was written, at least one is missing), then \<^verbatim>\<open>Recover\<close> without an offset applies all
  the complete records before it and then returns an error.
\<close>

theorem lh_Recover_torn:
  assumes "list_all (shr_json_ok marshal unmarshal) (rs @ [r])"
    and "0 < k" "k < length (hist_frame (shr_data marshal r))"
  shows "\<exists>e. lh_Recover unmarshal ho_fine
      (Some (hist_bytes marshal rs @ take k (hist_frame (shr_data marshal r)))) tables None
    = (fold apply_shr rs tables, Some e)"
proof -
  let ?t = "take k (hist_frame (shr_data marshal r))"
  let ?f = "hist_bytes marshal rs @ ?t"
  have ok: "list_all (shr_json_ok marshal unmarshal) rs" "hist_payload_ok (shr_data marshal r)"
    using assms(1) shr_json_okD(2) by auto
  note p = shr_payloads [OF ok(1)]
  obtain e where "hist_read None None ?t = Inl (Some e)"
    using hist_read_torn [OF ok(2) assms(3)] assms(2) by auto
  then have "decode_all (hist_read None None) (Suc (length ?f)) ?f = (map (shr_data marshal) rs, Some e)"
    using hist_framing.decode_all_append [OF conjunct2 [OF p], of ?t "Suc (length ?f)"]
    by (simp add: hist_bytes_def del: decode_all.simps(2)) (simp add: decode_all.simps(2))
  from recover_loop_decode [OF conjunct1 [OF p] this lessI, of None 0 tables]
  have "lh_Recover unmarshal ho_fine (Some ?f) tables None = (replay None rs tables, Some e)"
    by (simp add: lh_Recover_def)
  moreover have "replay None rs tables = fold apply_shr rs tables"
    by (induction rs arbitrary: tables) simp_all
  ultimately show ?thesis by auto
qed

theorem lh_Recover_torn_witness:
  "\<exists>e. lh_Recover wit_unmarshal ho_fine
     (Some (hist_bytes wit_marshal [hist_record (wit_ddl [] (Some wit_ti)) Position_zero ''CREATE'' 5]
        @ take 5 (hist_frame [0, 0]))) [] None = ([(''db.t'', wit_ti)], Some e)"
proof -
  let ?r = "hist_record (wit_ddl [] (Some wit_ti)) Position_zero ''CREATE'' 5"
  let ?d = "hist_record (wit_ddl [] None) Position_zero ''DROP'' 5"
  have d: "shr_data wit_marshal ?d = [0, 0]"
    by (simp add: shr_data_def wit_marshal_def hist_record_def wit_ddl_def)
  have "list_all (shr_json_ok wit_marshal wit_unmarshal) ([?r] @ [?d])"
    by (simp add: wit_json_ok)
  from lh_Recover_torn [OF this, of 5 "[]"]
  have "\<exists>e. lh_Recover wit_unmarshal ho_fine
     (Some (hist_bytes wit_marshal [?r] @ take 5 (hist_frame [0, 0]))) [] None = (apply_shr ?r [], Some e)"
    unfolding d by (simp add: hist_frame_def)
  moreover have "apply_shr ?r [] = [(''db.t'', wit_ti)]"
    by (simp add: apply_shr_def apply_history_def hist_record_def wit_ddl_def Tables_Put_def tableKey_def wit_ti_def)
  ultimately show ?thesis by (simp only:)
qed

end
