(* ===== verification/Target_Store.thy ===== *)
theory Target_Store
  imports Schema_History
begin

section \<open>Task metadata in the target database (internal/store, and its adapters in internal/schema)\<close>

text \<open>
  \<^verbatim>\<open>MySQLStore\<close> keeps the positions, the table lifecycles, the schema history and the state of DDL
  statements of a task in five tables. The state of the model is the rows of these tables; each
  operation does to them what its SQL statement says. What belongs to the database server or to
  \<^verbatim>\<open>encoding/json\<close> is an argument: \<open>coll\<close> maps a string to its key under the collation of the key
  columns, \<open>jsoncol\<close> is what a JSON column returns for what was stored, \<open>stamp\<close> reports the time
  stamps of a row, and a \<open>DBE\<close> says which statements of an operation fail.
\<close>

record DBE =
  dbe_use :: "err option"
  dbe_exec :: "err option"
  dbe_scan :: "nat \<Rightarrow> err option"
  dbe_rows :: "err option"

definition db_fine :: DBE where
  "db_fine = \<lparr> dbe_use = None, dbe_exec = None, dbe_scan = (\<lambda>_. None), dbe_rows = None \<rparr>"

subsection \<open>Rows (store.go)\<close>

record TableLifecycleRow =
  tlr_DBName :: string
  tlr_TableName :: string
  tlr_State :: string
  tlr_SnapshotPosition :: "Position option"
  tlr_ErrorMsg :: string
  tlr_CreatedAt :: gotime
  tlr_UpdatedAt :: gotime

record SchemaHistoryRow =
  sh_ID :: int
  sh_Position :: Position
  sh_DBName :: string
  sh_TableName :: string
  sh_DDL :: string
  sh_TableInfo :: "TableInfo option"
  sh_ChangeType :: string
  sh_CreatedAt :: gotime

record DDLStateRow =
  ds_DBName :: string
  ds_TableName :: string
  ds_DDL :: string
  ds_LastSuccessInfo :: "TableInfo option"
  ds_Status :: string
  ds_ErrorMsg :: string
  ds_RetryCount :: int
  ds_CreatedAt :: gotime
  ds_UpdatedAt :: gotime

text \<open>The rows as the database holds them; \<^const>\<open>None\<close> is SQL NULL.\<close>

record LifecycleData =
  ld_db :: string
  ld_tbl :: string
  ld_state :: string
  ld_pos :: "bytes option"
  ld_err :: string

record HistoryData =
  hd_id :: int
  hd_pos :: bytes
  hd_db :: string
  hd_tbl :: string
  hd_ddl :: string
  hd_ti :: bytes
  hd_ct :: string

record DDLData =
  dd_db :: string
  dd_tbl :: string
  dd_ddl :: string
  dd_last :: "bytes option"
  dd_status :: string
  dd_err :: string
  dd_retry :: int

record MySQLStore =
  db_tables :: "string list"
  db_position :: "(bytes \<times> bytes) option"
  db_lifecycle :: "(string \<times> string, LifecycleData) gomap"
  db_history :: "HistoryData list"
  db_nextID :: int
  db_ddl :: "(string \<times> string, DDLData) gomap"
  db_committed :: "string option"

definition MySQLStore_empty :: MySQLStore where
  "MySQLStore_empty =
     \<lparr> db_tables = [], db_position = None, db_lifecycle = [], db_history = [], db_nextID = 1,
       db_ddl = [], db_committed = None \<rparr>"

definition sanitizeTaskID :: "string \<Rightarrow> string" where
  "sanitizeTaskID tid = underscore_runes tid"

definition store_dbName :: "string \<Rightarrow> string" where
  "store_dbName taskID = ''ds_'' @ sanitizeTaskID taskID"

text \<open>
  \<^verbatim>\<open>InitDatabase\<close>: \<open>err i\<close> is the error of the \<open>i\<close>-th statement; statement 0 creates the database, then
  each table takes a \<^verbatim>\<open>USE\<close> and a \<^verbatim>\<open>CREATE TABLE IF NOT EXISTS\<close>.
\<close>

fun init_tables :: "(nat \<Rightarrow> err option) \<Rightarrow> nat \<Rightarrow> MySQLStore \<Rightarrow> string list \<Rightarrow> MySQLStore \<times> err option" where
  "init_tables er i s [] = (s, None)"
| "init_tables er i s (t # ts) =
     (case er i of
        Some e \<Rightarrow> (s, Some (Wrapf ''use database'' e))
      | None \<Rightarrow>
          (case er (i + 1) of
             Some e \<Rightarrow> (s, Some (Wrapf ''create table'' e))
           | None \<Rightarrow>
               init_tables er (i + 2)
                 (if t \<in> set (db_tables s) then s else s\<lparr> db_tables := db_tables s @ [t] \<rparr>) ts))"

definition InitDatabase :: "(nat \<Rightarrow> err option) \<Rightarrow> MySQLStore \<Rightarrow> MySQLStore \<times> err option" where
  "InitDatabase er s =
     (case er 0 of
        Some e \<Rightarrow> (s, Some (Wrapf ''create database'' e))
      | None \<Rightarrow>
          init_tables er 1 s
            [''task_position'', ''table_lifecycle'', ''schema_history'', ''ddl_state'', ''committed_position''])"

definition unmarshalPosition ::
  "(bytes \<Rightarrow> Position res) \<Rightarrow> bytes option \<Rightarrow> Position option res" where
  "unmarshalPosition unmarshalPos data =
     (case data of
        None \<Rightarrow> Inr None
      | Some d \<Rightarrow>
          if length d = 0 then Inr None
          else case unmarshalPos d of Inl e \<Rightarrow> Inl e | Inr p \<Rightarrow> Inr (Some p))"

definition unmarshalTableInfo ::
  "(bytes \<Rightarrow> TableInfo res) \<Rightarrow> bytes option \<Rightarrow> TableInfo option res" where
  "unmarshalTableInfo unmarshalTI data =
     (case data of
        None \<Rightarrow> Inr None
      | Some d \<Rightarrow>
          if length d = 0 then Inr None
          else case unmarshalTI d of Inl e \<Rightarrow> Inl e | Inr t \<Rightarrow> Inr (Some t))"

text \<open>The code that writes \<^verbatim>\<open>x, _ = ...\<close> takes nil when the call fails.\<close>

definition or_nil :: "'a option res \<Rightarrow> 'a option" where
  "or_nil r = (case r of Inl _ \<Rightarrow> None | Inr x \<Rightarrow> x)"

subsection \<open>Positions (mysql_store.go)\<close>

definition SaveFlushedPosition ::
  "(Position option \<Rightarrow> bytes res) \<Rightarrow> DBE \<Rightarrow> MySQLStore \<Rightarrow> Position option \<Rightarrow> MySQLStore \<times> err option" where
  "SaveFlushedPosition marshalPos er s pos =
     (case dbe_use er of
        Some e \<Rightarrow> (s, Some e)
      | None \<Rightarrow>
          (case marshalPos pos of
             Inl e \<Rightarrow> (s, Some e)
           | Inr data \<Rightarrow>
               (case dbe_exec er of
                  Some e \<Rightarrow> (s, Some e)
                | None \<Rightarrow>
                    (s\<lparr> db_position := Some (case db_position s of
                          None \<Rightarrow> (data, data)
                        | Some (fl, cur) \<Rightarrow> (data, cur)) \<rparr>, None))))"

definition SaveCurrentPosition ::
  "(Position option \<Rightarrow> bytes res) \<Rightarrow> DBE \<Rightarrow> MySQLStore \<Rightarrow> Position option \<Rightarrow> MySQLStore \<times> err option" where
  "SaveCurrentPosition marshalPos er s pos =
     (case dbe_use er of
        Some e \<Rightarrow> (s, Some e)
      | None \<Rightarrow>
          (case marshalPos pos of
             Inl e \<Rightarrow> (s, Some e)
           | Inr data \<Rightarrow>
               (case dbe_exec er of
                  Some e \<Rightarrow> (s, Some e)
                | None \<Rightarrow>
                    (s\<lparr> db_position := (case db_position s of
                          None \<Rightarrow> None
                        | Some (fl, cur) \<Rightarrow> Some (fl, data)) \<rparr>, None))))"

definition LoadPositions ::
  "(bytes \<Rightarrow> Position res) \<Rightarrow> (bytes \<Rightarrow> bytes) \<Rightarrow> DBE \<Rightarrow> MySQLStore
     \<Rightarrow> (Position option \<times> Position option) \<times> err option" where
  "LoadPositions unmarshalPos jsoncol er s =
     (case dbe_use er of
        Some e \<Rightarrow> ((None, None), Some e)
      | None \<Rightarrow>
          (case dbe_exec er of
             Some e \<Rightarrow> ((None, None), Some e)
           | None \<Rightarrow>
               (case db_position s of
                  None \<Rightarrow> ((None, None), None)
                | Some (fl, cur) \<Rightarrow>
                    (case unmarshalPosition unmarshalPos (Some (jsoncol fl)) of
                       Inl e \<Rightarrow> ((None, None), Some e)
                     | Inr flushed \<Rightarrow>
                         (case unmarshalPosition unmarshalPos (Some (jsoncol cur)) of
                            Inl e \<Rightarrow> ((flushed, None), Some e)
                          | Inr current \<Rightarrow> ((flushed, current), None))))))"

subsection \<open>Table lifecycles\<close>

definition SaveTableLifecycle ::
  "(string \<Rightarrow> string) \<Rightarrow> (Position option \<Rightarrow> bytes res) \<Rightarrow> DBE \<Rightarrow> MySQLStore
     \<Rightarrow> string \<Rightarrow> string \<Rightarrow> string \<Rightarrow> Position option \<Rightarrow> string \<Rightarrow> MySQLStore \<times> err option" where
  "SaveTableLifecycle coll marshalPos er s db tbl state snapshotPos errMsg =
     (case dbe_use er of
        Some e \<Rightarrow> (s, Some e)
      | None \<Rightarrow>
          (case (case snapshotPos of
                   None \<Rightarrow> Inr None
                 | Some p \<Rightarrow> (case marshalPos (Some p) of Inl e \<Rightarrow> Inl e | Inr d \<Rightarrow> Inr (Some d))) of
             Inl e \<Rightarrow> (s, Some e)
           | Inr posData \<Rightarrow>
               (case dbe_exec er of
                  Some e \<Rightarrow> (s, Some e)
                | None \<Rightarrow>
                    let k = (coll db, coll tbl);
                        row = (case map_of (db_lifecycle s) k of
                                 None \<Rightarrow> \<lparr> ld_db = db, ld_tbl = tbl, ld_state = state, ld_pos = posData, ld_err = errMsg \<rparr>
                               | Some r \<Rightarrow> r\<lparr> ld_state := state, ld_pos := posData, ld_err := errMsg \<rparr>)
                    in (s\<lparr> db_lifecycle := AList.update k row (db_lifecycle s) \<rparr>, None))))"

text \<open>The loop \<^verbatim>\<open>for rows.Next()\<close>: the first row that fails to scan ends it with an error.\<close>

fun scan_rows :: "(nat \<Rightarrow> err option) \<Rightarrow> err option \<Rightarrow> nat \<Rightarrow> ('a \<Rightarrow> 'b) \<Rightarrow> 'a list \<Rightarrow> 'b list \<Rightarrow> 'b list res" where
  "scan_rows scan_err rows_err i conv [] acc = (case rows_err of Some e \<Rightarrow> Inl e | None \<Rightarrow> Inr acc)"
| "scan_rows scan_err rows_err i conv (r # rs) acc =
     (case scan_err i of
        Some e \<Rightarrow> Inl e
      | None \<Rightarrow> scan_rows scan_err rows_err (i + 1) conv rs (acc @ [conv r]))"

definition LoadTableLifecycles ::
  "(bytes \<Rightarrow> Position res) \<Rightarrow> (bytes \<Rightarrow> bytes) \<Rightarrow> (LifecycleData \<Rightarrow> gotime \<times> gotime) \<Rightarrow> DBE \<Rightarrow> MySQLStore
     \<Rightarrow> TableLifecycleRow list res" where
  "LoadTableLifecycles unmarshalPos jsoncol stamp er s =
     (case dbe_use er of
        Some e \<Rightarrow> Inl e
      | None \<Rightarrow>
          (case dbe_exec er of
             Some e \<Rightarrow> Inl e
           | None \<Rightarrow>
               scan_rows (dbe_scan er) (dbe_rows er) 0
                 (\<lambda>r. \<lparr> tlr_DBName = ld_db r, tlr_TableName = ld_tbl r, tlr_State = ld_state r,
                        tlr_SnapshotPosition =
                          or_nil (unmarshalPosition unmarshalPos (map_option jsoncol (ld_pos r))),
                        tlr_ErrorMsg = ld_err r, tlr_CreatedAt = fst (stamp r), tlr_UpdatedAt = snd (stamp r) \<rparr>)
                 (map snd (db_lifecycle s)) []))"

definition DeleteTableLifecycle ::
  "(string \<Rightarrow> string) \<Rightarrow> DBE \<Rightarrow> MySQLStore \<Rightarrow> string \<Rightarrow> string \<Rightarrow> MySQLStore \<times> err option" where
  "DeleteTableLifecycle coll er s db tbl =
     (case dbe_use er of
        Some e \<Rightarrow> (s, Some e)
      | None \<Rightarrow>
          (case dbe_exec er of
             Some e \<Rightarrow> (s, Some e)
           | None \<Rightarrow> (s\<lparr> db_lifecycle := AList.delete (coll db, coll tbl) (db_lifecycle s) \<rparr>, None)))"

subsection \<open>Schema history\<close>

definition SaveSchemaHistory ::
  "(Position option \<Rightarrow> bytes res) \<Rightarrow> (TableInfo option \<Rightarrow> bytes res) \<Rightarrow> DBE \<Rightarrow> MySQLStore \<Rightarrow> SchemaHistoryRow
     \<Rightarrow> MySQLStore \<times> err option" where
  "SaveSchemaHistory marshalPos marshalTI er s rec =
     (case dbe_use er of
        Some e \<Rightarrow> (s, Some e)
      | None \<Rightarrow>
          (case marshalPos (Some (sh_Position rec)) of
             Inl e \<Rightarrow> (s, Some e)
           | Inr posData \<Rightarrow>
               (case marshalTI (sh_TableInfo rec) of
                  Inl e \<Rightarrow> (s, Some e)
                | Inr tiData \<Rightarrow>
                    (case dbe_exec er of
                       Some e \<Rightarrow> (s, Some e)
                     | None \<Rightarrow>
                         (s\<lparr> db_history := db_history s @
                               [\<lparr> hd_id = db_nextID s, hd_pos = posData, hd_db = sh_DBName rec,
                                  hd_tbl = sh_TableName rec, hd_ddl = sh_DDL rec, hd_ti = tiData,
                                  hd_ct = sh_ChangeType rec \<rparr>],
                             db_nextID := db_nextID s + 1 \<rparr>, None)))))"

definition LoadSchemaHistory ::
  "(bytes \<Rightarrow> Position res) \<Rightarrow> (bytes \<Rightarrow> TableInfo res) \<Rightarrow> (bytes \<Rightarrow> bytes) \<Rightarrow> (HistoryData \<Rightarrow> gotime)
     \<Rightarrow> DBE \<Rightarrow> MySQLStore \<Rightarrow> SchemaHistoryRow list res" where
  "LoadSchemaHistory unmarshalPos unmarshalTI jsoncol stamp er s =
     (case dbe_use er of
        Some e \<Rightarrow> Inl e
      | None \<Rightarrow>
          (case dbe_exec er of
             Some e \<Rightarrow> Inl e
           | None \<Rightarrow>
               scan_rows (dbe_scan er) (dbe_rows er) 0
                 (\<lambda>r. \<lparr> sh_ID = hd_id r,
                        sh_Position =
                          (case or_nil (unmarshalPosition unmarshalPos (Some (jsoncol (hd_pos r)))) of
                             None \<Rightarrow> Position_zero | Some p \<Rightarrow> p),
                        sh_DBName = hd_db r, sh_TableName = hd_tbl r, sh_DDL = hd_ddl r,
                        sh_TableInfo = or_nil (unmarshalTableInfo unmarshalTI (Some (jsoncol (hd_ti r)))),
                        sh_ChangeType = hd_ct r, sh_CreatedAt = stamp r \<rparr>)
                 (db_history s) []))"

subsection \<open>DDL state\<close>

definition SaveDDLState ::
  "(string \<Rightarrow> string) \<Rightarrow> (TableInfo option \<Rightarrow> bytes res) \<Rightarrow> DBE \<Rightarrow> MySQLStore \<Rightarrow> DDLStateRow
     \<Rightarrow> MySQLStore \<times> err option" where
  "SaveDDLState coll marshalTI er s rec =
     (case dbe_use er of
        Some e \<Rightarrow> (s, Some e)
      | None \<Rightarrow>
          (case (case ds_LastSuccessInfo rec of
                   None \<Rightarrow> Inr None
                 | Some ti \<Rightarrow> (case marshalTI (Some ti) of Inl e \<Rightarrow> Inl e | Inr d \<Rightarrow> Inr (Some d))) of
             Inl e \<Rightarrow> (s, Some e)
           | Inr lastData \<Rightarrow>
               (case dbe_exec er of
                  Some e \<Rightarrow> (s, Some e)
                | None \<Rightarrow>
                    let k = (coll (ds_DBName rec), coll (ds_TableName rec));
                        row = (case map_of (db_ddl s) k of
                                 None \<Rightarrow>
                                   \<lparr> dd_db = ds_DBName rec, dd_tbl = ds_TableName rec, dd_ddl = ds_DDL rec,
                                     dd_last = lastData, dd_status = ds_Status rec, dd_err = ds_ErrorMsg rec,
                                     dd_retry = ds_RetryCount rec \<rparr>
                               | Some r \<Rightarrow>
                                   r\<lparr> dd_ddl := ds_DDL rec, dd_last := lastData, dd_status := ds_Status rec,
                                      dd_err := ds_ErrorMsg rec, dd_retry := ds_RetryCount rec \<rparr>)
                    in (s\<lparr> db_ddl := AList.update k row (db_ddl s) \<rparr>, None))))"

definition ddl_row :: "(bytes \<Rightarrow> TableInfo res) \<Rightarrow> (bytes \<Rightarrow> bytes) \<Rightarrow> (DDLData \<Rightarrow> gotime \<times> gotime) \<Rightarrow> DDLData \<Rightarrow> DDLStateRow" where
  "ddl_row unmarshalTI jsoncol stamp r =
     \<lparr> ds_DBName = dd_db r, ds_TableName = dd_tbl r, ds_DDL = dd_ddl r,
       ds_LastSuccessInfo = or_nil (unmarshalTableInfo unmarshalTI (map_option jsoncol (dd_last r))),
       ds_Status = dd_status r, ds_ErrorMsg = dd_err r, ds_RetryCount = dd_retry r,
       ds_CreatedAt = fst (stamp r), ds_UpdatedAt = snd (stamp r) \<rparr>"

definition LoadDDLState ::
  "(string \<Rightarrow> string) \<Rightarrow> (bytes \<Rightarrow> TableInfo res) \<Rightarrow> (bytes \<Rightarrow> bytes) \<Rightarrow> (DDLData \<Rightarrow> gotime \<times> gotime)
     \<Rightarrow> DBE \<Rightarrow> MySQLStore \<Rightarrow> string \<Rightarrow> string \<Rightarrow> DDLStateRow option res" where
  "LoadDDLState coll unmarshalTI jsoncol stamp er s db tbl =
     (case dbe_use er of
        Some e \<Rightarrow> Inl e
      | None \<Rightarrow>
          (case dbe_exec er of
             Some e \<Rightarrow> Inl e
           | None \<Rightarrow>
               (case map_of (db_ddl s) (coll db, coll tbl) of
                  None \<Rightarrow> Inr None
                | Some r \<Rightarrow>
                    (case dbe_scan er 0 of
                       Some e \<Rightarrow> Inl e
                     | None \<Rightarrow> Inr (Some (ddl_row unmarshalTI jsoncol stamp r))))))"

definition LoadPendingDDLStates ::
  "(bytes \<Rightarrow> TableInfo res) \<Rightarrow> (bytes \<Rightarrow> bytes) \<Rightarrow> (DDLData \<Rightarrow> gotime \<times> gotime) \<Rightarrow> (string \<Rightarrow> string)
     \<Rightarrow> DBE \<Rightarrow> MySQLStore \<Rightarrow> DDLStateRow list res" where
  "LoadPendingDDLStates unmarshalTI jsoncol stamp coll er s =
     (case dbe_use er of
        Some e \<Rightarrow> Inl e
      | None \<Rightarrow>
          (case dbe_exec er of
             Some e \<Rightarrow> Inl e
           | None \<Rightarrow>
               scan_rows (dbe_scan er) (dbe_rows er) 0 (ddl_row unmarshalTI jsoncol stamp)
                 (filter (\<lambda>r. coll (dd_status r) = coll ''applying'') (map snd (db_ddl s))) []))"

definition DeleteDDLState ::
  "(string \<Rightarrow> string) \<Rightarrow> DBE \<Rightarrow> MySQLStore \<Rightarrow> string \<Rightarrow> string \<Rightarrow> MySQLStore \<times> err option" where
  "DeleteDDLState coll er s db tbl =
     (case dbe_use er of
        Some e \<Rightarrow> (s, Some e)
      | None \<Rightarrow>
          (case dbe_exec er of
             Some e \<Rightarrow> (s, Some e)
           | None \<Rightarrow> (s\<lparr> db_ddl := AList.delete (coll db, coll tbl) (db_ddl s) \<rparr>, None)))"

subsection \<open>Committed position\<close>

definition SaveCommittedPosition :: "DBE \<Rightarrow> MySQLStore \<Rightarrow> string \<Rightarrow> MySQLStore \<times> err option" where
  "SaveCommittedPosition er s gtidSet =
     (case dbe_use er of
        Some e \<Rightarrow> (s, Some e)
      | None \<Rightarrow>
          (case dbe_exec er of
             Some e \<Rightarrow> (s, Some e)
           | None \<Rightarrow> (s\<lparr> db_committed := Some gtidSet \<rparr>, None)))"

definition LoadCommittedPosition :: "DBE \<Rightarrow> MySQLStore \<Rightarrow> string \<times> err option" where
  "LoadCommittedPosition er s =
     (case dbe_use er of
        Some e \<Rightarrow> ([], Some e)
      | None \<Rightarrow>
          (case dbe_exec er of
             Some e \<Rightarrow> ([], Some e)
           | None \<Rightarrow> (case db_committed s of None \<Rightarrow> ([], None) | Some g \<Rightarrow> (g, None))))"

subsection \<open>The schema history in the store (store_history.go, target_store_history.go)\<close>

definition history_row :: "SchemaHistoryRecord \<Rightarrow> gotime \<Rightarrow> SchemaHistoryRow" where
  "history_row record createdAt =
     \<lparr> sh_ID = 0, sh_Position = shr_Position record, sh_DBName = shr_Database record,
       sh_TableName = shr_Table record, sh_DDL = shr_DDL record, sh_TableInfo = shr_TableInfo record,
       sh_ChangeType = shr_ChangeType record, sh_CreatedAt = createdAt \<rparr>"

definition ssh_Record ::
  "(Position option \<Rightarrow> bytes res) \<Rightarrow> (TableInfo option \<Rightarrow> bytes res) \<Rightarrow> DBE \<Rightarrow> MySQLStore \<Rightarrow> SchemaHistoryRecord
     \<Rightarrow> MySQLStore \<times> err option" where
  "ssh_Record marshalPos marshalTI er s record =
     SaveSchemaHistory marshalPos marshalTI er s (history_row record (shr_Timestamp record))"

definition tsh_Record ::
  "(Position option \<Rightarrow> bytes res) \<Rightarrow> (TableInfo option \<Rightarrow> bytes res) \<Rightarrow> DBE \<Rightarrow> MySQLStore \<Rightarrow> SchemaHistoryRecord
     \<Rightarrow> MySQLStore \<times> err option" where
  "tsh_Record marshalPos marshalTI er s record =
     SaveSchemaHistory marshalPos marshalTI er s (history_row record 0)"

fun replay_rows :: "Position option \<Rightarrow> SchemaHistoryRow list \<Rightarrow> Tables \<Rightarrow> Tables" where
  "replay_rows offset [] tables = tables"
| "replay_rows offset (row # rows) tables =
     (if past_offset offset (sh_Position row) then tables
      else replay_rows offset rows
             (apply_history (sh_TableInfo row) (sh_ChangeType row) (sh_DBName row) (sh_TableName row) tables))"

definition ssh_Recover ::
  "(bytes \<Rightarrow> Position res) \<Rightarrow> (bytes \<Rightarrow> TableInfo res) \<Rightarrow> (bytes \<Rightarrow> bytes) \<Rightarrow> (HistoryData \<Rightarrow> gotime)
     \<Rightarrow> DBE \<Rightarrow> MySQLStore \<Rightarrow> Tables \<Rightarrow> Position option \<Rightarrow> Tables \<times> err option" where
  "ssh_Recover unmarshalPos unmarshalTI jsoncol stamp er s tables offset =
     (case LoadSchemaHistory unmarshalPos unmarshalTI jsoncol stamp er s of
        Inl e \<Rightarrow> (tables, Some e)
      | Inr rows \<Rightarrow> (replay_rows offset rows tables, None))"

definition ssh_Exists ::
  "(bytes \<Rightarrow> Position res) \<Rightarrow> (bytes \<Rightarrow> TableInfo res) \<Rightarrow> (bytes \<Rightarrow> bytes) \<Rightarrow> (HistoryData \<Rightarrow> gotime)
     \<Rightarrow> DBE \<Rightarrow> MySQLStore \<Rightarrow> bool res" where
  "ssh_Exists unmarshalPos unmarshalTI jsoncol stamp er s =
     (case LoadSchemaHistory unmarshalPos unmarshalTI jsoncol stamp er s of
        Inl e \<Rightarrow> Inl e
      | Inr rows \<Rightarrow> Inr (length rows > 0))"

definition BuildSchemaHistoryRecord ::
  "Position \<Rightarrow> string \<Rightarrow> string \<Rightarrow> string \<Rightarrow> string \<Rightarrow> TableInfo option \<Rightarrow> string \<Rightarrow> gotime \<Rightarrow> SchemaHistoryRecord" where
  "BuildSchemaHistoryRecord pos database schema table ddl newTableInfo changeType now =
     \<lparr> shr_Position = pos, shr_Database = database, shr_Schema = schema, shr_Table = table,
       shr_DDL = ddl, shr_TableInfo = newTableInfo, shr_ChangeType = changeType,
       shr_DDLStatus = DDLStatusCompleted, shr_Timestamp = now \<rparr>"

subsection \<open>The interface used by the consumer (store.go), and the no-op store (noop_store.go)\<close>

record 's TargetStore =
  ts_SaveSchemaHistory :: "'s \<Rightarrow> SchemaHistoryRow \<Rightarrow> 's \<times> err option"
  ts_SaveDDLState :: "'s \<Rightarrow> DDLStateRow \<Rightarrow> 's \<times> err option"
  ts_LoadDDLState :: "'s \<Rightarrow> string \<Rightarrow> string \<Rightarrow> DDLStateRow option res"
  ts_DeleteDDLState :: "'s \<Rightarrow> string \<Rightarrow> string \<Rightarrow> 's \<times> err option"

definition mysql_ops ::
  "(string \<Rightarrow> string) \<Rightarrow> (Position option \<Rightarrow> bytes res) \<Rightarrow> (TableInfo option \<Rightarrow> bytes res)
     \<Rightarrow> (bytes \<Rightarrow> TableInfo res) \<Rightarrow> (bytes \<Rightarrow> bytes) \<Rightarrow> (DDLData \<Rightarrow> gotime \<times> gotime) \<Rightarrow> DBE \<Rightarrow> MySQLStore TargetStore" where
  "mysql_ops coll marshalPos marshalTI unmarshalTI jsoncol stamp er =
     \<lparr> ts_SaveSchemaHistory = SaveSchemaHistory marshalPos marshalTI er,
       ts_SaveDDLState = SaveDDLState coll marshalTI er,
       ts_LoadDDLState = LoadDDLState coll unmarshalTI jsoncol stamp er,
       ts_DeleteDDLState = DeleteDDLState coll er \<rparr>"

definition NoopStore :: "unit TargetStore" where
  "NoopStore =
     \<lparr> ts_SaveSchemaHistory = (\<lambda>s _. (s, None)), ts_SaveDDLState = (\<lambda>s _. (s, None)),
       ts_LoadDDLState = (\<lambda>s _ _. Inr None), ts_DeleteDDLState = (\<lambda>s _ _. (s, None)) \<rparr>"

section \<open>What the store promises\<close>

lemma db_fine_simps [simp]:
  "dbe_use db_fine = None" "dbe_exec db_fine = None" "dbe_scan db_fine i = None" "dbe_rows db_fine = None"
  by (simp_all add: db_fine_def)

lemma scan_rows_fine [simp]:
  "scan_rows (dbe_scan db_fine) None i conv rs acc = Inr (acc @ map conv rs)"
  by (induction rs arbitrary: i acc) simp_all

subsection \<open>Positions\<close>

datatype pos_op = SetFlushed Position | SetCurrent Position

fun pos_step ::
  "(Position option \<Rightarrow> bytes res) \<Rightarrow> MySQLStore \<Rightarrow> pos_op \<Rightarrow> MySQLStore" where
  "pos_step marshalPos s (SetFlushed p) = fst (SaveFlushedPosition marshalPos db_fine s (Some p))"
| "pos_step marshalPos s (SetCurrent p) = fst (SaveCurrentPosition marshalPos db_fine s (Some p))"

fun pos_spec :: "(Position \<times> Position) option \<Rightarrow> pos_op \<Rightarrow> (Position \<times> Position) option" where
  "pos_spec None (SetFlushed p) = Some (p, p)"
| "pos_spec (Some (fl, cur)) (SetFlushed p) = Some (p, cur)"
| "pos_spec None (SetCurrent p) = None"
| "pos_spec (Some (fl, cur)) (SetCurrent p) = Some (fl, p)"

definition pos_json_ok ::
  "(Position option \<Rightarrow> bytes res) \<Rightarrow> (bytes \<Rightarrow> Position res) \<Rightarrow> (bytes \<Rightarrow> bytes) \<Rightarrow> Position \<Rightarrow> bool" where
  "pos_json_ok marshalPos unmarshalPos jsoncol p =
     (case marshalPos (Some p) of
        Inl _ \<Rightarrow> False
      | Inr d \<Rightarrow> jsoncol d \<noteq> [] \<and> unmarshalPos (jsoncol d) = Inr p)"

fun pos_op_ok :: "(Position \<Rightarrow> bool) \<Rightarrow> pos_op \<Rightarrow> bool" where
  "pos_op_ok P (SetFlushed p) = P p"
| "pos_op_ok P (SetCurrent p) = P p"

definition holds_pos :: "(bytes \<Rightarrow> Position res) \<Rightarrow> (bytes \<Rightarrow> bytes) \<Rightarrow> bytes \<Rightarrow> Position \<Rightarrow> bool" where
  "holds_pos unmarshalPos jsoncol d p = (jsoncol d \<noteq> [] \<and> unmarshalPos (jsoncol d) = Inr p)"

lemma pos_steps_spec:
  assumes "list_all (pos_op_ok (pos_json_ok marshalPos unmarshalPos jsoncol)) ops"
    and "rel_option (rel_prod (holds_pos unmarshalPos jsoncol) (holds_pos unmarshalPos jsoncol)) (db_position s) st"
  shows "rel_option (rel_prod (holds_pos unmarshalPos jsoncol) (holds_pos unmarshalPos jsoncol))
    (db_position (foldl (pos_step marshalPos) s ops)) (foldl pos_spec st ops)"
  using assms
proof (induction ops arbitrary: s st)
  case (Cons op ops)
  have "rel_option (rel_prod (holds_pos unmarshalPos jsoncol) (holds_pos unmarshalPos jsoncol))
    (db_position (pos_step marshalPos s op)) (pos_spec st op)"
    using Cons.prems
    by (cases op; cases st)
      (auto simp: SaveFlushedPosition_def SaveCurrentPosition_def pos_json_ok_def holds_pos_def
        option_rel_Some2 split: sum.splits)
  with Cons show ?case by simp
qed simp

text \<open>
  C10. What \<^verbatim>\<open>LoadPositions\<close> returns after any sequence of \<^verbatim>\<open>SaveFlushedPosition\<close> and
  \<^verbatim>\<open>SaveCurrentPosition\<close> calls that do not fail, with positions that survive the JSON columns: the last
  flushed position and the last current position, where the first flushed position also sets the
  current one, and a current position saved before any flushed one is silently dropped.
\<close>

theorem LoadPositions_last_saved:
  assumes "list_all (pos_op_ok (pos_json_ok marshalPos unmarshalPos jsoncol)) ops"
  shows "LoadPositions unmarshalPos jsoncol db_fine (foldl (pos_step marshalPos) MySQLStore_empty ops)
    = (case foldl pos_spec None ops of
         None \<Rightarrow> ((None, None), None)
       | Some (fl, cur) \<Rightarrow> ((Some fl, Some cur), None))"
proof -
  have "rel_option (rel_prod (holds_pos unmarshalPos jsoncol) (holds_pos unmarshalPos jsoncol))
    (db_position (foldl (pos_step marshalPos) MySQLStore_empty ops)) (foldl pos_spec None ops)"
    by (rule pos_steps_spec [OF assms]) (simp add: MySQLStore_empty_def)
  then show ?thesis
    by (cases "foldl pos_spec None ops")
      (auto simp: LoadPositions_def unmarshalPosition_def holds_pos_def option_rel_Some2)
qed

definition wit_marshalPos :: "Position option \<Rightarrow> bytes res" where
  "wit_marshalPos p = (case p of None \<Rightarrow> Inr [0] | Some p \<Rightarrow> Inr [1, word_of_int (pos_CommitTime p)])"

definition wit_unmarshalPos :: "bytes \<Rightarrow> Position res" where
  "wit_unmarshalPos d = (case d of [a, b] \<Rightarrow> Inr (Position_zero\<lparr> pos_CommitTime := uint b \<rparr>) | _ \<Rightarrow> Inr Position_zero)"

lemma wit_pos_json_ok:
  "0 \<le> t \<Longrightarrow> t < 256 \<Longrightarrow> pos_json_ok wit_marshalPos wit_unmarshalPos id (Position_zero\<lparr> pos_CommitTime := t \<rparr>)"
  by (simp add: pos_json_ok_def wit_marshalPos_def wit_unmarshalPos_def uint_word_of_int)

theorem LoadPositions_last_saved_witness:
  "LoadPositions wit_unmarshalPos id db_fine
     (foldl (pos_step wit_marshalPos) MySQLStore_empty
        [SetCurrent (Position_zero\<lparr> pos_CommitTime := 9 \<rparr>), SetFlushed (Position_zero\<lparr> pos_CommitTime := 3 \<rparr>),
         SetCurrent (Position_zero\<lparr> pos_CommitTime := 5 \<rparr>)])
   = ((Some (Position_zero\<lparr> pos_CommitTime := 3 \<rparr>), Some (Position_zero\<lparr> pos_CommitTime := 5 \<rparr>)), None)"
proof -
  let ?ops = "[SetCurrent (Position_zero\<lparr> pos_CommitTime := 9 \<rparr>), SetFlushed (Position_zero\<lparr> pos_CommitTime := 3 \<rparr>),
         SetCurrent (Position_zero\<lparr> pos_CommitTime := 5 \<rparr>)]"
  have "list_all (pos_op_ok (pos_json_ok wit_marshalPos wit_unmarshalPos id)) ?ops"
    by (simp add: wit_pos_json_ok)
  from LoadPositions_last_saved [OF this] show ?thesis
    by (simp del: foldl_Cons) simp
qed

subsection \<open>The stored schema history\<close>

definition ti_json_ok ::
  "(TableInfo option \<Rightarrow> bytes res) \<Rightarrow> (bytes \<Rightarrow> TableInfo res) \<Rightarrow> (bytes \<Rightarrow> bytes) \<Rightarrow> TableInfo \<Rightarrow> bool" where
  "ti_json_ok marshalTI unmarshalTI jsoncol ti =
     (case marshalTI (Some ti) of
        Inl _ \<Rightarrow> False
      | Inr d \<Rightarrow> jsoncol d \<noteq> [] \<and> unmarshalTI (jsoncol d) = Inr ti)"

text \<open>
  A history record that the store carries faithfully: it has a table definition, and the position
  and the definition survive their JSON columns.
\<close>

definition stored_ok ::
  "(Position option \<Rightarrow> bytes res) \<Rightarrow> (bytes \<Rightarrow> Position res) \<Rightarrow> (TableInfo option \<Rightarrow> bytes res)
     \<Rightarrow> (bytes \<Rightarrow> TableInfo res) \<Rightarrow> (bytes \<Rightarrow> bytes) \<Rightarrow> SchemaHistoryRecord \<Rightarrow> bool" where
  "stored_ok marshalPos unmarshalPos marshalTI unmarshalTI jsoncol r =
     (pos_json_ok marshalPos unmarshalPos jsoncol (shr_Position r)
      \<and> (case shr_TableInfo r of None \<Rightarrow> False | Some ti \<Rightarrow> ti_json_ok marshalTI unmarshalTI jsoncol ti))"

definition row_holds ::
  "(bytes \<Rightarrow> Position res) \<Rightarrow> (bytes \<Rightarrow> TableInfo res) \<Rightarrow> (bytes \<Rightarrow> bytes) \<Rightarrow> HistoryData \<Rightarrow> SchemaHistoryRecord \<Rightarrow> bool" where
  "row_holds unmarshalPos unmarshalTI jsoncol d r =
     (holds_pos unmarshalPos jsoncol (hd_pos d) (shr_Position r)
      \<and> or_nil (unmarshalTableInfo unmarshalTI (Some (jsoncol (hd_ti d)))) = shr_TableInfo r
      \<and> hd_db d = shr_Database r \<and> hd_tbl d = shr_Table r \<and> hd_ct d = shr_ChangeType r)"

definition ssh_holds ::
  "(bytes \<Rightarrow> Position res) \<Rightarrow> (bytes \<Rightarrow> TableInfo res) \<Rightarrow> (bytes \<Rightarrow> bytes) \<Rightarrow> MySQLStore \<Rightarrow> SchemaHistoryRecord list \<Rightarrow> bool" where
  "ssh_holds unmarshalPos unmarshalTI jsoncol s rs =
     list_all2 (row_holds unmarshalPos unmarshalTI jsoncol) (db_history s) rs"

lemma ssh_Record_appends:
  assumes "ssh_holds unmarshalPos unmarshalTI jsoncol s rs"
    and "stored_ok marshalPos unmarshalPos marshalTI unmarshalTI jsoncol r"
  shows "\<exists>s'. ssh_Record marshalPos marshalTI db_fine s r = (s', None)
    \<and> ssh_holds unmarshalPos unmarshalTI jsoncol s' (rs @ [r])"
  using assms
  by (auto simp: ssh_Record_def SaveSchemaHistory_def history_row_def stored_ok_def pos_json_ok_def ti_json_ok_def
      ssh_holds_def row_holds_def holds_pos_def unmarshalTableInfo_def or_nil_def list_all2_appendI
      split: sum.splits option.splits intro!: list_all2_appendI)

lemma replay_rows_replay:
  assumes "list_all2 (row_holds unmarshalPos unmarshalTI jsoncol) ds rs"
  shows "replay_rows offset
     (map (\<lambda>r. \<lparr> sh_ID = hd_id r,
             sh_Position = (case or_nil (unmarshalPosition unmarshalPos (Some (jsoncol (hd_pos r)))) of
                              None \<Rightarrow> Position_zero | Some p \<Rightarrow> p),
             sh_DBName = hd_db r, sh_TableName = hd_tbl r, sh_DDL = hd_ddl r,
             sh_TableInfo = or_nil (unmarshalTableInfo unmarshalTI (Some (jsoncol (hd_ti r)))),
             sh_ChangeType = hd_ct r, sh_CreatedAt = stamp r \<rparr>) ds) tables = replay offset rs tables"
  using assms
proof (induction ds rs arbitrary: tables rule: list_all2_induct)
  case (Cons d ds r rs)
  then have "or_nil (unmarshalPosition unmarshalPos (Some (jsoncol (hd_pos d)))) = Some (shr_Position r)"
    by (auto simp: row_holds_def holds_pos_def unmarshalPosition_def or_nil_def)
  with Cons show ?case by (simp add: row_holds_def apply_shr_def)
qed simp

lemma ssh_Recover_replays:
  "ssh_holds unmarshalPos unmarshalTI jsoncol s rs \<Longrightarrow>
     ssh_Recover unmarshalPos unmarshalTI jsoncol stamp db_fine s tables offset = (replay offset rs tables, None)"
  by (simp add: ssh_Recover_def LoadSchemaHistory_def ssh_holds_def replay_rows_replay)

interpretation stored_hist: schema_history "stored_ok marshalPos unmarshalPos marshalTI unmarshalTI jsoncol"
  "ssh_holds unmarshalPos unmarshalTI jsoncol" "ssh_Record marshalPos marshalTI db_fine"
  "ssh_Recover unmarshalPos unmarshalTI jsoncol stamp db_fine"
  for marshalPos unmarshalPos marshalTI unmarshalTI jsoncol stamp
  by unfold_locales (fact ssh_Record_appends ssh_Recover_replays)+

text \<open>
  C28. The history in the target database rebuilds the tables as long as no table is dropped: after
  any sequence of DDL record operations whose records carry a definition that survives the JSON
  columns, \<^verbatim>\<open>StoreSchemaHistory.Recover\<close> yields exactly the tables the manager holds in memory.
\<close>

theorem store_recover_rebuilds_tables:
  assumes "list_all (dm_op_ok (stored_ok marshalPos unmarshalPos marshalTI unmarshalTI jsoncol) N) ops"
  defines "m \<equiv> foldl (dm_step (ssh_Record marshalPos marshalTI db_fine))
                 (NewDDLRecordManager NewTables MySQLStore_empty) ops"
  shows "ssh_Recover unmarshalPos unmarshalTI jsoncol stamp db_fine (dm_history m) NewTables None
    = (dm_tables m, None)"
  unfolding m_def
  by (rule stored_hist.recover_rebuilds [OF _ assms(1)]) (simp add: ssh_holds_def MySQLStore_empty_def)

definition wit_marshalTI :: "TableInfo option \<Rightarrow> bytes res" where
  "wit_marshalTI t = (case t of None \<Rightarrow> Inr [110, 117, 108, 108] | Some _ \<Rightarrow> Inr [1])"

definition wit_unmarshalTI :: "bytes \<Rightarrow> TableInfo res" where
  "wit_unmarshalTI d = (if d = [1] then Inr wit_ti else Inr TableInfo_zero)"

theorem store_recover_rebuilds_tables_witness:
  "\<exists>m. m = foldl (dm_step (ssh_Record wit_marshalPos wit_marshalTI db_fine))
             (NewDDLRecordManager NewTables MySQLStore_empty)
             [DmCreate (wit_ddl ''1'' (Some wit_ti)) 1, DmCompleted ''1'' 5]
     \<and> dm_tables m = [(''db.t'', wit_ti)]
     \<and> ssh_Recover wit_unmarshalPos wit_unmarshalTI id (\<lambda>_. 0) db_fine (dm_history m) NewTables None
         = ([(''db.t'', wit_ti)], None)"
proof -
  let ?ops = "[DmCreate (wit_ddl ''1'' (Some wit_ti)) 1, DmCompleted ''1'' 5]"
  let ?m = "foldl (dm_step (ssh_Record wit_marshalPos wit_marshalTI db_fine))
             (NewDDLRecordManager NewTables MySQLStore_empty) ?ops"
  have pos: "Position_zero = Position_zero\<lparr> pos_CommitTime := 0 \<rparr>" by (simp add: Position_zero_def)
  have "stored_ok wit_marshalPos wit_unmarshalPos wit_marshalTI wit_unmarshalTI id
      (hist_record (wit_ddl ''1'' (Some wit_ti)) Position_zero ct now)" for ct now
    using wit_pos_json_ok [of 0] pos
    by (simp add: stored_ok_def hist_record_def wit_ddl_def ti_json_ok_def wit_marshalTI_def wit_unmarshalTI_def)
  then have "list_all (dm_op_ok (stored_ok wit_marshalPos wit_unmarshalPos wit_marshalTI wit_unmarshalTI id) {5}) ?ops"
    by (simp add: recordable_def) (simp add: wit_ddl_def)
  from store_recover_rebuilds_tables [OF this]
  have "ssh_Recover wit_unmarshalPos wit_unmarshalTI id (\<lambda>_. 0) db_fine (dm_history ?m) NewTables None
      = (dm_tables ?m, None)" .
  moreover have "dm_tables ?m = [(''db.t'', wit_ti)]"
    by (simp add: dm_Create_def MarkCompleted_def NewDDLRecordManager_def NewTables_def case_prod_beta
        wit_ddl_def Tables_Put_def tableKey_def wit_ti_def Let_def)
  ultimately show ?thesis by (intro exI [of _ ?m] conjI refl) (simp_all only:)
qed

text \<open>
  C29. A dropped table comes back. \<^verbatim>\<open>encoding/json\<close> writes a nil pointer as \<^verbatim>\<open>null\<close>, and reading
  \<^verbatim>\<open>null\<close> into a struct leaves the struct zero without an error. Then, after a CREATE and a DROP of the
  same table have been recorded, \<^verbatim>\<open>Recover\<close> from the target database still has the table, and has in
  addition an entry under the key \<^verbatim>\<open>.\<close> for a table without a name.
\<close>

theorem store_drop_not_recovered:
  assumes nil: "marshalTI None = Inr null" and zero: "unmarshalTI (jsoncol null) = Inr TableInfo_zero"
    and ne: "jsoncol null \<noteq> []"
    and create: "stored_ok marshalPos unmarshalPos marshalTI unmarshalTI jsoncol c" "shr_TableInfo c = Some ti"
      "ti_Database ti = db" "ti_Table ti = tbl" "(db, tbl) \<noteq> ([], [])"
    and drop: "pos_json_ok marshalPos unmarshalPos jsoncol (shr_Position d)" "shr_TableInfo d = None"
      "shr_Database d = db" "shr_Table d = tbl" "shr_ChangeType d = ''DROP''"
  shows "\<exists>s1 s2 tables. ssh_Record marshalPos marshalTI db_fine MySQLStore_empty c = (s1, None)
    \<and> ssh_Record marshalPos marshalTI db_fine s1 d = (s2, None)
    \<and> ssh_Recover unmarshalPos unmarshalTI jsoncol stamp db_fine s2 NewTables None = (tables, None)
    \<and> Tables_Get tables db tbl = Some ti \<and> Tables_Get tables [] [] = Some TableInfo_zero"
proof -
  have "ssh_holds unmarshalPos unmarshalTI jsoncol MySQLStore_empty []"
    by (simp add: ssh_holds_def MySQLStore_empty_def)
  from ssh_Record_appends [OF this create(1)] obtain s1 where
    s1: "ssh_Record marshalPos marshalTI db_fine MySQLStore_empty c = (s1, None)"
    "ssh_holds unmarshalPos unmarshalTI jsoncol s1 [c]"
    by auto
  let ?d = "d\<lparr> shr_TableInfo := Some TableInfo_zero \<rparr>"
  obtain pd where pd: "marshalPos (Some (shr_Position d)) = Inr pd" "jsoncol pd \<noteq> []"
    "unmarshalPos (jsoncol pd) = Inr (shr_Position d)"
    using drop(1) by (auto simp: pos_json_ok_def split: sum.splits)
  let ?row = "\<lparr> hd_id = db_nextID s1, hd_pos = pd, hd_db = db, hd_tbl = tbl, hd_ddl = shr_DDL d, hd_ti = null,
      hd_ct = ''DROP'' \<rparr>"
  let ?s2 = "s1\<lparr> db_history := db_history s1 @ [?row], db_nextID := db_nextID s1 + 1 \<rparr>"
  have r2: "ssh_Record marshalPos marshalTI db_fine s1 d = (?s2, None)"
    using pd nil drop by (simp add: ssh_Record_def SaveSchemaHistory_def history_row_def)
  have "row_holds unmarshalPos unmarshalTI jsoncol ?row ?d"
    using pd drop zero ne
    by (simp add: row_holds_def holds_pos_def unmarshalTableInfo_def or_nil_def)
  then have "ssh_holds unmarshalPos unmarshalTI jsoncol ?s2 ([c] @ [?d])"
    using s1(2) unfolding ssh_holds_def by (simp add: list_all2_appendI del: append.simps)
  then obtain s2 where s2: "ssh_Record marshalPos marshalTI db_fine s1 d = (s2, None)"
    "ssh_holds unmarshalPos unmarshalTI jsoncol s2 [c, ?d]"
    using r2 by auto
  have key: "tableKey db tbl \<noteq> tableKey [] []"
    using create(5) by (cases db) (auto simp: tableKey_def)
  have "Tables_Get (replay None [c, ?d] NewTables) db tbl = Some ti
      \<and> Tables_Get (replay None [c, ?d] NewTables) [] [] = Some TableInfo_zero"
    using create key
    by (simp add: apply_shr_def apply_history_def Tables_Put_def Tables_Get_def TableInfo_zero_def NewTables_def)
  then show ?thesis using s1 s2 ssh_Recover_replays [OF s2(2), of stamp NewTables None] by blast
qed

theorem store_drop_not_recovered_witness:
  "\<exists>s1 s2 tables.
     ssh_Record wit_marshalPos wit_marshalTI db_fine MySQLStore_empty
       (hist_record (wit_ddl ''1'' (Some wit_ti)) Position_zero ''CREATE'' 5) = (s1, None)
    \<and> ssh_Record wit_marshalPos wit_marshalTI db_fine s1
       (hist_record (wit_ddl ''2'' None) Position_zero ''DROP'' 5) = (s2, None)
    \<and> ssh_Recover wit_unmarshalPos wit_unmarshalTI id (\<lambda>_. 0) db_fine s2 NewTables None = (tables, None)
    \<and> Tables_Get tables ''db'' ''t'' = Some wit_ti \<and> Tables_Get tables [] [] = Some TableInfo_zero"
proof -
  have pos: "Position_zero = Position_zero\<lparr> pos_CommitTime := 0 \<rparr>" by (simp add: Position_zero_def)
  show ?thesis
    by (rule store_drop_not_recovered [where null = "[110, 117, 108, 108]"])
      (use wit_pos_json_ok [of 0] pos in \<open>simp_all add: wit_marshalTI_def wit_unmarshalTI_def hist_record_def
         wit_ddl_def stored_ok_def ti_json_ok_def, simp_all add: wit_ti_def\<close>)
qed

end
