(* ===== verification/Go_Text.thy ===== *)
theory Go_Text
  imports Prelude
begin

text \<open>
  More of the standard library's text functions, as the parsers and the configuration code use them:
  \<^verbatim>\<open>strings.TrimSuffix\<close>, \<^verbatim>\<open>strings.Trim\<close>, \<^verbatim>\<open>strings.ReplaceAll\<close>, \<^verbatim>\<open>strings.SplitN\<close> (with the limit 2),
  \<^verbatim>\<open>strings.Split\<close>, \<^verbatim>\<open>strings.Fields\<close>, \<^verbatim>\<open>strconv.Atoi\<close>, \<^verbatim>\<open>strconv.ParseInt\<close> in base ten and the verb \<^verbatim>\<open>%d\<close> of
  \<^verbatim>\<open>fmt.Sscanf\<close>. Integers are 64-bit: a value out of range is an error, with the value the source
  still gets written out.
\<close>

definition TrimSuffix :: "string \<Rightarrow> string \<Rightarrow> string" where
  "TrimSuffix s p = (if HasSuffix s p then take (length s - length p) s else s)"

definition TrimPrefix :: "string \<Rightarrow> string \<Rightarrow> string" where
  "TrimPrefix s p = (if HasPrefix s p then drop (length p) s else s)"

text \<open>\<^verbatim>\<open>strings.Trim\<close> with a cut set of one character, and \<^verbatim>\<open>strings.ReplaceAll\<close> of one character by nothing.\<close>

definition Trim_char :: "char \<Rightarrow> string \<Rightarrow> string" where
  "Trim_char c s = rev (dropWhile (\<lambda>x. x = c) (rev (dropWhile (\<lambda>x. x = c) s)))"

definition remove_char :: "char \<Rightarrow> string \<Rightarrow> string" where
  "remove_char c s = filter (\<lambda>x. x \<noteq> c) s"

text \<open>\<^verbatim>\<open>strings.SplitN(s, c, 2)\<close> and \<^verbatim>\<open>strings.Split(s, c)\<close> for a separator of one character.\<close>

definition SplitN2 :: "char \<Rightarrow> string \<Rightarrow> string list" where
  "SplitN2 c s =
     (case dropWhile (\<lambda>x. x \<noteq> c) s of
        [] \<Rightarrow> [s]
      | _ # r \<Rightarrow> [takeWhile (\<lambda>x. x \<noteq> c) s, r])"

fun Split_char :: "char \<Rightarrow> string \<Rightarrow> string list" where
  "Split_char c [] = [[]]"
| "Split_char c (x # s) =
     (if x = c then [] # Split_char c s
      else case Split_char c s of [] \<Rightarrow> [[x]] | p # ps \<Rightarrow> (x # p) # ps)"

fun fields_loop :: "string \<Rightarrow> string \<Rightarrow> string list" where
  "fields_loop cur [] = (if cur = [] then [] else [rev cur])"
| "fields_loop cur (x # s) =
     (if is_space x then (if cur = [] then fields_loop [] s else rev cur # fields_loop [] s)
      else fields_loop (x # cur) s)"

definition Fields :: "string \<Rightarrow> string list" where
  "Fields s = fields_loop [] s"

text \<open>
  \<^verbatim>\<open>strconv.ParseInt(s, 10, 64)\<close>: the value and whether there was an error. Out of range, the value is
  the nearest 64-bit integer; a syntax error gives 0.
\<close>

definition is_digit :: "char \<Rightarrow> bool" where
  "is_digit c = byte_in 0x30 0x39 c"

definition max_int64 :: int where "max_int64 = 9223372036854775807"
definition min_int64 :: int where "min_int64 = - 9223372036854775808"

definition ParseInt :: "string \<Rightarrow> int \<times> bool" where
  "ParseInt s =
     (let neg = (case s of [] \<Rightarrow> False | c # _ \<Rightarrow> c = CHR ''-'');
          ds = (case s of [] \<Rightarrow> [] | c # r \<Rightarrow> if c = CHR ''-'' \<or> c = CHR ''+'' then r else s)
      in if ds = [] \<or> \<not> list_all is_digit ds then (0, True)
         else let v = int (decimal_value ds); v = (if neg then - v else v) in
           if v < min_int64 then (min_int64, True)
           else if max_int64 < v then (max_int64, True) else (v, False))"

definition Atoi :: "string \<Rightarrow> int \<times> bool" where
  "Atoi s = ParseInt s"

text \<open>
  \<^verbatim>\<open>fmt.Sscanf(s, "%d", &x)\<close> on a text without leading white space, with \<open>x\<close> zero before: the value of
  \<open>x\<close> afterwards. What follows the digits is ignored; on an error \<open>x\<close> keeps its value.
\<close>

definition Sscanf_d :: "string \<Rightarrow> int" where
  "Sscanf_d s =
     (let sign = (case s of [] \<Rightarrow> [] | c # _ \<Rightarrow> if c = CHR ''-'' \<or> c = CHR ''+'' then [c] else []);
          r = ParseInt (sign @ takeWhile is_digit (drop (length sign) s))
      in if snd r then 0 else fst r)"

text \<open>
  The verb \<^verbatim>\<open>%q\<close>: quotes, backslashes and control characters are escaped. The bytes of printable runes
  beyond ASCII stay as they are.
\<close>

definition esc_char :: "char \<Rightarrow> string" where
  "esc_char c =
     (if c = CHR 0x22 \<or> c = CHR 0x5C then [CHR 0x5C, c]
      else if c = CHR 0x07 then [CHR 0x5C, CHR ''a'']
      else if c = CHR 0x08 then [CHR 0x5C, CHR ''b'']
      else if c = CHR 0x0C then [CHR 0x5C, CHR ''f'']
      else if c = CHR 0x0A then [CHR 0x5C, CHR ''n'']
      else if c = CHR 0x0D then [CHR 0x5C, CHR ''r'']
      else if c = CHR 0x09 then [CHR 0x5C, CHR ''t'']
      else if c = CHR 0x0B then [CHR 0x5C, CHR ''v'']
      else if of_char c < (32 :: nat) \<or> of_char c = (127 :: nat)
      then [CHR 0x5C, CHR ''x'', hex_digit (of_char c div 16), hex_digit (of_char c mod 16)]
      else [c])"

definition Quote_esc :: "string \<Rightarrow> string" where
  "Quote_esc s = [CHR 0x22] @ concat (map esc_char s) @ [CHR 0x22]"

section \<open>Facts\<close>

lemma is_digit_digit [simp]: "d < 10 \<Longrightarrow> is_digit (digit d)"
  unfolding is_digit_def digit_def byte_in_def of_char_of by simp

lemma nat_decimal_digits: "list_all is_digit (nat_decimal n)"
proof (induction n rule: nat_decimal.induct)
  case (1 n)
  then show ?case by (subst nat_decimal.simps) simp
qed

lemma nat_decimal_nonempty [simp]: "nat_decimal n \<noteq> []"
  by (subst nat_decimal.simps) simp

lemma digit_not [simp]:
  "is_digit c \<Longrightarrow> \<not> is_space c" "is_digit c \<Longrightarrow> c \<noteq> CHR '',''" "is_digit c \<Longrightarrow> c \<noteq> CHR '')''"
  "is_digit c \<Longrightarrow> c \<noteq> CHR ''-''" "is_digit c \<Longrightarrow> c \<noteq> CHR ''+''" "is_digit c \<Longrightarrow> c \<noteq> CHR ''(''"
  by (auto simp: is_digit_def byte_in_def is_space_def)

lemma ParseInt_digits:
  assumes "list_all is_digit ds" "ds \<noteq> []" "int (decimal_value ds) \<le> max_int64"
  shows "ParseInt ds = (int (decimal_value ds), False)"
proof -
  obtain c r where "ds = c # r" using assms(2) by (cases ds) auto
  moreover have "is_digit c" using assms(1) calculation by simp
  ultimately show ?thesis using assms by (auto simp: ParseInt_def Let_def min_int64_def)
qed

lemma ParseInt_nat_decimal: "int n \<le> max_int64 \<Longrightarrow> ParseInt (nat_decimal n) = (int n, False)"
  using ParseInt_digits [OF nat_decimal_digits nat_decimal_nonempty, of n]
  by (simp add: decimal_value_nat_decimal)

lemma ParseInt_bounds: "min_int64 \<le> fst (ParseInt s) \<and> fst (ParseInt s) \<le> max_int64"
  by (simp add: ParseInt_def Let_def min_int64_def max_int64_def)

lemma TrimSpace_id: "list_all (\<lambda>c. \<not> is_space c) s \<Longrightarrow> TrimSpace s = s"
proof -
  assume s: "list_all (\<lambda>c. \<not> is_space c) s"
  have d: "list_all (\<lambda>c. \<not> is_space c) t \<Longrightarrow> dropWhile is_space t = t" for t by (cases t) auto
  show ?thesis using s by (simp add: TrimSpace_def d list_all_rev)
qed

lemma TrimSuffix_snoc [simp]: "TrimSuffix (s @ [c]) [c] = s"
  by (simp add: TrimSuffix_def HasSuffix_def)

lemma SplitN2_none: "c \<notin> set s \<Longrightarrow> SplitN2 c s = [s]"
proof -
  assume "c \<notin> set s"
  then have "dropWhile (\<lambda>x. x \<noteq> c) s = []" by (induction s) auto
  from SplitN2_def [of c s, unfolded this] show ?thesis by simp
qed

lemma SplitN2_some: "c \<notin> set a \<Longrightarrow> SplitN2 c (a @ c # b) = [a, b]"
proof -
  assume a: "c \<notin> set a"
  have "dropWhile (\<lambda>x. x \<noteq> c) (a @ c # b) = c # b" using a by (induction a) auto
  moreover have "takeWhile (\<lambda>x. x \<noteq> c) (a @ c # b) = a" using a by (induction a) auto
  ultimately show ?thesis by (simp add: SplitN2_def)
qed

lemma strings_Index_char: "c \<notin> set a \<Longrightarrow> strings_Index (a @ c # b) [c] = Some (length a)"
  by (induction a) (auto simp: HasPrefix_def)

lemma strings_Index_char_none: "c \<notin> set a \<Longrightarrow> strings_Index a [c] = None"
  by (induction a) (auto simp: HasPrefix_def)

lemma Split_char_nonempty [simp]: "Split_char c s \<noteq> []"
  by (induction s) (auto split: list.split)

lemma Split_char_none: "c \<notin> set s \<Longrightarrow> Split_char c s = [s]"
  by (induction s) auto

lemma Split_char_some: "c \<notin> set a \<Longrightarrow> Split_char c (a @ c # b) = a # Split_char c b"
  by (induction a) auto

text \<open>\<^verbatim>\<open>strings.Split\<close> undoes \<^verbatim>\<open>strings.Join\<close> for parts without the separator.\<close>

lemma Split_Join:
  "list_all (\<lambda>p. c \<notin> set p) ps \<Longrightarrow> ps \<noteq> [] \<Longrightarrow> Split_char c (strings_Join ps [c]) = ps"
proof (induction ps "[c]" rule: strings_Join.induct)
  case (3 x y r)
  then show ?case by (simp add: Split_char_some)
qed (simp_all add: Split_char_none)

end
