(* ===== verification/Ddl_Apply.thy ===== *)
theory Ddl_Apply
  imports Events Go_Text
begin

section \<open>DDL results (pkg/parser/parser.go)\<close>

text \<open>
  What a DDL parser returns, the four dialect parsers' \<^verbatim>\<open>ApplyDDL\<close> (pkg/parser/mysql, oracle, postgres,
  sqlserver), the no-op parser and the registry. The ANTLR grammars are generated code: the value
  that walking the parse tree yields (\<^verbatim>\<open>tree.Accept(p.visitor)\<close>) is an argument \<open>visit\<close>; its error is a
  panic, which \<^verbatim>\<open>Parse\<close> and \<^verbatim>\<open>ApplyDDL\<close> do not catch. The four
  packages repeat the same text; the parts that are equal in all of them are defined once, and each
  dialect is an instance with its own treatment of types and of modified columns.
\<close>

datatype PDDLType =
    DDLTypeCreateDatabase | DDLTypeDropDatabase | DDLTypeAlterDatabase
  | DDLTypeCreateTable | DDLTypeDropTable | DDLTypeAlterTable | DDLTypeRenameTable | DDLTypeTruncate
  | DDLTypeCreateIndex | DDLTypeDropIndex
  | DDLTypeCreateView | DDLTypeDropView
  | DDLTypeUnknown

fun PDDLType_text :: "PDDLType \<Rightarrow> string" where
  "PDDLType_text DDLTypeCreateDatabase = ''create_database''"
| "PDDLType_text DDLTypeDropDatabase = ''drop_database''"
| "PDDLType_text DDLTypeAlterDatabase = ''alter_database''"
| "PDDLType_text DDLTypeCreateTable = ''create_table''"
| "PDDLType_text DDLTypeDropTable = ''drop_table''"
| "PDDLType_text DDLTypeAlterTable = ''alter_table''"
| "PDDLType_text DDLTypeRenameTable = ''rename_table''"
| "PDDLType_text DDLTypeTruncate = ''truncate_table''"
| "PDDLType_text DDLTypeCreateIndex = ''create_index''"
| "PDDLType_text DDLTypeDropIndex = ''drop_index''"
| "PDDLType_text DDLTypeCreateView = ''create_view''"
| "PDDLType_text DDLTypeDropView = ''drop_view''"
| "PDDLType_text DDLTypeUnknown = ''unknown''"

datatype TableOperation = TableOpCreate | TableOpAlter | TableOpDrop | TableOpRename

text \<open>\<^verbatim>\<open>parser.ColumnInfo\<close> and \<^verbatim>\<open>parser.TableInfo\<close>; the prefix \<open>p\<close> keeps them apart from those of \<^verbatim>\<open>event\<close>.\<close>

record PColumnInfo =
  pc_Name :: string
  pc_Type :: string
  pc_Nullable :: bool
  pc_DefaultValue :: gval
  pc_Comment :: string
  pc_AutoIncrement :: bool

definition PColumnInfo_zero :: PColumnInfo where
  "PColumnInfo_zero =
     \<lparr> pc_Name = [], pc_Type = [], pc_Nullable = False, pc_DefaultValue = VNil, pc_Comment = [],
       pc_AutoIncrement = False \<rparr>"

record IndexInfo =
  ix_Name :: string
  ix_Type :: string
  ix_Columns :: "string list"
  ix_Unique :: bool
  ix_Primary :: bool

record PTableInfo =
  pt_Database :: string
  pt_Name :: string
  pt_Columns :: "PColumnInfo list"
  pt_PrimaryKey :: "string list"
  pt_Indexes :: "IndexInfo list"
  pt_Comment :: string

record ColumnModification =
  cm_Old :: PColumnInfo
  cm_New :: PColumnInfo

record PrimaryKeyChange =
  pk_OldColumns :: "string list"
  pk_NewColumns :: "string list"

record TableChanges =
  tc_Operation :: TableOperation
  tc_Table :: "PTableInfo option"
  tc_AddedColumns :: "PColumnInfo list"
  tc_DroppedColumns :: "string list"
  tc_ModifiedColumns :: "ColumnModification list"
  tc_PrimaryKeyChange :: "PrimaryKeyChange option"

record IndexChanges =
  ic_IndexName :: string
  ic_TableName :: string
  ic_DatabaseName :: string
  ic_Operation :: string
  ic_Index :: "IndexInfo option"

record DDLResult =
  dres_Type :: PDDLType
  dres_Database :: string
  dres_Table :: string
  dres_Statement :: string
  dres_TableChanges :: "TableChanges option"
  dres_IndexChanges :: "IndexChanges option"
  dres_NewTableInfo :: "TableInfo option"
  dres_Metadata :: "(string, gval) gomap option"

definition DDLResult_of :: "PDDLType \<Rightarrow> string \<Rightarrow> DDLResult" where
  "DDLResult_of typ stmt =
     \<lparr> dres_Type = typ, dres_Database = [], dres_Table = [], dres_Statement = stmt, dres_TableChanges = None,
       dres_IndexChanges = None, dres_NewTableInfo = None, dres_Metadata = None \<rparr>"

text \<open>\<^verbatim>\<open>DDLResults.Add\<close> on the slice of results.\<close>

definition DDLResults_Add :: "DDLResult list \<Rightarrow> DDLResult option \<Rightarrow> DDLResult list" where
  "DDLResults_Add rs r = (case r of None \<Rightarrow> rs | Some x \<Rightarrow> rs @ [x])"

section \<open>Parse and ApplyDDL\<close>

text \<open>The dynamic type and value of the \<^verbatim>\<open>interface{}\<close> that the visitor returns.\<close>

datatype VisitResult =
    WResults "DDLResult list"
  | WResult DDLResult
  | WNil
  | WOther

definition Parse :: "(string \<Rightarrow> VisitResult res) \<Rightarrow> string \<Rightarrow> DDLResult list res" where
  "Parse visit ddl =
     (case visit ddl of
        Inl e \<Rightarrow> Inl e
      | Inr (WResults rs) \<Rightarrow>
          if rs = [] then Inr [DDLResult_of DDLTypeUnknown ddl] else Inr rs
      | Inr (WResult r) \<Rightarrow> Inr [r]
      | Inr WNil \<Rightarrow> Inr [DDLResult_of DDLTypeUnknown ddl]
      | Inr WOther \<Rightarrow> Inr [DDLResult_of DDLTypeUnknown ddl])"

definition SupportedTypes :: "PDDLType list" where
  "SupportedTypes =
     [DDLTypeCreateDatabase, DDLTypeDropDatabase, DDLTypeAlterDatabase, DDLTypeCreateTable,
      DDLTypeDropTable, DDLTypeAlterTable, DDLTypeRenameTable, DDLTypeTruncate, DDLTypeCreateIndex,
      DDLTypeDropIndex, DDLTypeCreateView, DDLTypeDropView]"

definition parseTypeString :: "string \<Rightarrow> string \<times> int \<times> int" where
  "parseTypeString typeStr =
     (if typeStr = [] then ([], 0, 0)
      else case strings_Index typeStr ''('' of
        None \<Rightarrow> (ToUpper typeStr, 0, 0)
      | Some idx \<Rightarrow>
          (let baseType = ToUpper (take idx typeStr);
               params = TrimSuffix (drop (idx + 1) typeStr) '')'';
               parts = SplitN2 (CHR '','') params;
               len = (if length parts \<ge> 1 then fst (Atoi (TrimSpace (parts ! 0))) else 0);
               scale = (if length parts \<ge> 2 then fst (Atoi (TrimSpace (parts ! 1))) else 0)
           in (baseType, len, scale)))"

text \<open>The SQL Server package reads the numbers with \<^verbatim>\<open>Sscanf\<close> and knows \<^verbatim>\<open>MAX\<close>.\<close>

definition sqlserver_parseTypeString :: "string \<Rightarrow> string \<times> int \<times> int" where
  "sqlserver_parseTypeString typeStr =
     (if typeStr = [] then ([], 0, 0)
      else case strings_Index typeStr ''('' of
        None \<Rightarrow> (ToUpper typeStr, 0, 0)
      | Some idx \<Rightarrow>
          (let baseType = ToUpper (take idx typeStr);
               params = TrimSuffix (drop (idx + 1) typeStr) '')'';
               parts = SplitN2 (CHR '','') params;
               len = (if length parts \<ge> 1
                      then let p = TrimSpace (parts ! 0) in if p = ''MAX'' then - 1 else Sscanf_d p
                      else 0);
               scale = (if length parts \<ge> 2 then Sscanf_d (TrimSpace (parts ! 1)) else 0)
           in (baseType, len, scale)))"

definition convertToEventColumn :: "(string \<Rightarrow> string \<times> int \<times> int) \<Rightarrow> PColumnInfo \<Rightarrow> ColumnInfo" where
  "convertToEventColumn parseType col =
     (let (t, l, s) = parseType (pc_Type col) in
      \<lparr> ci_Name = pc_Name col, ci_Type = t, ci_Nullable = pc_Nullable col, ci_Length = l, ci_Scale = s \<rparr>)"

definition buildEventTableInfo :: "(string \<Rightarrow> string \<times> int \<times> int) \<Rightarrow> PTableInfo \<Rightarrow> TableInfo" where
  "buildEventTableInfo parseType ti =
     TableInfo_zero\<lparr> ti_Database := pt_Database ti, ti_Table := pt_Name ti,
       ti_Columns := map (convertToEventColumn parseType) (pt_Columns ti),
       ti_PrimaryKeyColumns := (if length (pt_PrimaryKey ti) > 0 then pt_PrimaryKey ti else []) \<rparr>"

text \<open>The two inner loops of \<^verbatim>\<open>applyAlterChanges\<close>, which stop at the first column of the name.\<close>

fun drop_column :: "ColumnInfo list \<Rightarrow> string \<Rightarrow> ColumnInfo list" where
  "drop_column [] n = []"
| "drop_column (c # cs) n = (if ci_Name c = n then cs else c # drop_column cs n)"

fun modify_column :: "(ColumnInfo \<Rightarrow> PColumnInfo \<Rightarrow> ColumnInfo) \<Rightarrow> ColumnInfo list \<Rightarrow> ColumnModification \<Rightarrow> ColumnInfo list" where
  "modify_column f [] m = []"
| "modify_column f (c # cs) m =
     (if ci_Name c = pc_Name (cm_Old m) then f c (cm_New m) # cs else c # modify_column f cs m)"

definition applyAlterChanges ::
  "(string \<Rightarrow> string \<times> int \<times> int) \<Rightarrow> (ColumnInfo \<Rightarrow> PColumnInfo \<Rightarrow> ColumnInfo)
     \<Rightarrow> TableInfo \<Rightarrow> TableChanges option \<Rightarrow> TableInfo" where
  "applyAlterChanges parseType modify table changes =
     (case changes of
        None \<Rightarrow> table
      | Some ch \<Rightarrow>
          (let cols = ti_Columns table @ map (convertToEventColumn parseType) (tc_AddedColumns ch);
               cols = foldl drop_column cols (tc_DroppedColumns ch);
               cols = foldl (modify_column modify) cols (tc_ModifiedColumns ch);
               table = table\<lparr> ti_Columns := cols \<rparr>
           in case tc_PrimaryKeyChange ch of
                None \<Rightarrow> table
              | Some pk \<Rightarrow> table\<lparr> ti_PrimaryKeyColumns := pk_NewColumns pk \<rparr>))"

definition ApplyDDL ::
  "(string \<Rightarrow> string \<times> int \<times> int) \<Rightarrow> (ColumnInfo \<Rightarrow> PColumnInfo \<Rightarrow> ColumnInfo) \<Rightarrow> (string \<Rightarrow> VisitResult res)
     \<Rightarrow> TableInfo option \<Rightarrow> string \<Rightarrow> DDLResult option res" where
  "ApplyDDL parseType modify visit oldTable ddl =
     (case Parse visit ddl of
        Inl e \<Rightarrow> Inl (case e of Panic s \<Rightarrow> Panic s | _ \<Rightarrow> Wrapf ''parse DDL'' e)
      | Inr [] \<Rightarrow> Inl (Errorf ''no DDL result parsed'')
      | Inr (result # _) \<Rightarrow>
          (case dres_Type result of
             DDLTypeCreateTable \<Rightarrow>
               (case dres_TableChanges result of
                  None \<Rightarrow> Inr (Some result)
                | Some ch \<Rightarrow>
                    (case tc_Table ch of
                       None \<Rightarrow> Inr (Some result)
                     | Some ti \<Rightarrow> Inr (Some (result\<lparr> dres_NewTableInfo := Some (buildEventTableInfo parseType ti) \<rparr>))))
           | DDLTypeAlterTable \<Rightarrow>
               (case oldTable of
                  None \<Rightarrow> Inl (Errorf ''oldTable is required for ALTER TABLE'')
                | Some old \<Rightarrow>
                    Inr (Some (result\<lparr> dres_NewTableInfo :=
                      Some (applyAlterChanges parseType modify (TableInfo_Clone old) (dres_TableChanges result)) \<rparr>)))
           | DDLTypeDropTable \<Rightarrow> Inr (Some (result\<lparr> dres_NewTableInfo := None \<rparr>))
           | _ \<Rightarrow>
               (case oldTable of
                  None \<Rightarrow> Inr (Some result)
                | Some old \<Rightarrow> Inr (Some (result\<lparr> dres_NewTableInfo := Some (TableInfo_Clone old) \<rparr>)))))"

text \<open>The dialects. MySQL and SQL Server replace a modified column.\<close>

definition mysql_modify :: "ColumnInfo \<Rightarrow> PColumnInfo \<Rightarrow> ColumnInfo" where
  "mysql_modify col new = convertToEventColumn parseTypeString new"

definition mysql_ApplyDDL :: "(string \<Rightarrow> VisitResult res) \<Rightarrow> TableInfo option \<Rightarrow> string \<Rightarrow> DDLResult option res" where
  "mysql_ApplyDDL = ApplyDDL parseTypeString mysql_modify"

definition sqlserver_modify :: "ColumnInfo \<Rightarrow> PColumnInfo \<Rightarrow> ColumnInfo" where
  "sqlserver_modify col new = convertToEventColumn sqlserver_parseTypeString new"

definition sqlserver_ApplyDDL :: "(string \<Rightarrow> VisitResult res) \<Rightarrow> TableInfo option \<Rightarrow> string \<Rightarrow> DDLResult option res" where
  "sqlserver_ApplyDDL = ApplyDDL sqlserver_parseTypeString sqlserver_modify"

text \<open>Oracle renames a column when the change has no type.\<close>

definition oracle_modify :: "ColumnInfo \<Rightarrow> PColumnInfo \<Rightarrow> ColumnInfo" where
  "oracle_modify col new =
     (if pc_Type new \<noteq> [] then convertToEventColumn parseTypeString new
      else col\<lparr> ci_Name := pc_Name new \<rparr>)"

definition oracle_ApplyDDL :: "(string \<Rightarrow> VisitResult res) \<Rightarrow> TableInfo option \<Rightarrow> string \<Rightarrow> DDLResult option res" where
  "oracle_ApplyDDL = ApplyDDL parseTypeString oracle_modify"

text \<open>PostgreSQL merges the change into the column.\<close>

definition mergeEventColumn :: "ColumnInfo \<Rightarrow> PColumnInfo \<Rightarrow> ColumnInfo" where
  "mergeEventColumn existing change =
     (let r = (if pc_Name change \<noteq> [] then existing\<lparr> ci_Name := pc_Name change \<rparr> else existing);
          r = (if pc_Type change \<noteq> []
               then let (t, l, s) = parseTypeString (pc_Type change)
                    in r\<lparr> ci_Type := t, ci_Length := l, ci_Scale := s \<rparr>
               else r)
      in r\<lparr> ci_Nullable := pc_Nullable change \<rparr>)"

definition postgres_ApplyDDL :: "(string \<Rightarrow> VisitResult res) \<Rightarrow> TableInfo option \<Rightarrow> string \<Rightarrow> DDLResult option res" where
  "postgres_ApplyDDL = ApplyDDL parseTypeString mergeEventColumn"

section \<open>The no-op parser (noop_parser.go) and the registry (registry.go)\<close>

definition noop_Parse :: "string \<Rightarrow> DDLResult list res" where
  "noop_Parse ddl = Inr [DDLResult_of DDLTypeUnknown ddl]"

definition noop_ApplyDDL :: "TableInfo option \<Rightarrow> string \<Rightarrow> DDLResult option res" where
  "noop_ApplyDDL oldTable ddl = Inr None"

type_synonym 'p Registry = "(string, 'p) gomap"

definition Registry_Register :: "'p Registry \<Rightarrow> string \<Rightarrow> 'p \<Rightarrow> 'p Registry" where
  "Registry_Register r connectorType parser = AList.update connectorType parser r"

definition Registry_Get :: "'p Registry \<Rightarrow> string \<Rightarrow> 'p option" where
  "Registry_Get r connectorType = map_of r connectorType"

definition Registry_Unregister :: "'p Registry \<Rightarrow> string \<Rightarrow> 'p Registry" where
  "Registry_Unregister r connectorType = AList.delete connectorType r"

definition Registry_List :: "'p Registry \<Rightarrow> string list" where
  "Registry_List r = map fst r"

section \<open>What ALTER TABLE does to the columns\<close>

lemma drop_column_names: "map ci_Name (drop_column cs n) = remove1 n (map ci_Name cs)"
  by (induction cs) auto

lemma drop_column_sub: "set (drop_column cs n) \<subseteq> set cs"
  by (induction cs) auto

lemma drop_columns_names:
  "distinct (map ci_Name cs) \<Longrightarrow>
     map ci_Name (foldl drop_column cs ns) = filter (\<lambda>n. n \<notin> set ns) (map ci_Name cs)"
proof (induction ns arbitrary: cs)
  case (Cons n ns)
  have e: "map ci_Name (drop_column cs n) = filter (\<lambda>x. x \<noteq> n) (map ci_Name cs)"
    using Cons.prems
    by (auto simp: drop_column_names distinct_remove1_removeAll removeAll_filter_not_eq intro!: filter_cong)
  have "distinct (map ci_Name (drop_column cs n))"
    unfolding e using Cons.prems by (rule distinct_filter)
  from Cons.IH [OF this] show ?case by (simp only: e foldl.simps filter_filter) (auto intro: filter_cong)
qed simp

lemma drop_columns_sub: "set (foldl drop_column cs ns) \<subseteq> set cs"
proof (induction ns arbitrary: cs)
  case (Cons n ns)
  then show ?case using drop_column_sub [of cs n] by (simp add: order_trans [OF Cons.IH])
qed simp

text \<open>
  A modification that keeps the name and replaces the definition, as \<^verbatim>\<open>MODIFY COLUMN\<close> is parsed for
  MySQL and SQL Server.
\<close>

definition keeps_name :: "ColumnModification \<Rightarrow> bool" where
  "keeps_name m = (pc_Name (cm_New m) = pc_Name (cm_Old m))"

lemma modify_column_names:
  assumes "keeps_name m" "\<And>c p. ci_Name (f c p) = pc_Name p"
  shows "map ci_Name (modify_column f cs m) = map ci_Name cs"
  using assms by (induction cs) (auto simp: keeps_name_def)

lemma modify_columns_names:
  assumes "list_all keeps_name ms" "\<And>c p. ci_Name (f c p) = pc_Name p"
  shows "map ci_Name (foldl (modify_column f) cs ms) = map ci_Name cs"
  using assms(1)
proof (induction ms arbitrary: cs)
  case (Cons m ms)
  then show ?case using modify_column_names [of m f cs] assms(2) by simp
qed simp

lemma modify_column_mem:
  assumes "c \<in> set (modify_column f cs m)" "distinct (map ci_Name cs)" "keeps_name m"
    and "\<And>c p. ci_Name (f c p) = pc_Name p"
  shows "if ci_Name c = pc_Name (cm_Old m) then \<exists>c0 \<in> set cs. c = f c0 (cm_New m) else c \<in> set cs"
  using assms by (induction cs) (auto simp: keeps_name_def image_iff split: if_splits)

lemma modify_columns_mem:
  assumes "c \<in> set (foldl (modify_column (\<lambda>_. g)) cs ms)" "distinct (map ci_Name cs)" "list_all keeps_name ms"
    and g: "\<And>p. ci_Name (g p) = pc_Name p"
  shows "case find (\<lambda>m. pc_Name (cm_Old m) = ci_Name c) (rev ms) of
           Some m \<Rightarrow> c = g (cm_New m) | None \<Rightarrow> c \<in> set cs"
  using assms(1-3)
proof (induction ms arbitrary: cs)
  case (Cons m ms)
  let ?cs = "modify_column (\<lambda>_. g) cs m"
  have n: "map ci_Name ?cs = map ci_Name cs" using Cons.prems(3) by (simp add: modify_column_names g)
  have IH: "case find (\<lambda>m. pc_Name (cm_Old m) = ci_Name c) (rev ms) of
              Some m \<Rightarrow> c = g (cm_New m) | None \<Rightarrow> c \<in> set ?cs"
    using Cons.prems by (intro Cons.IH) (simp_all add: n)
  have k: "keeps_name m" using Cons.prems(3) by simp
  show ?case
  proof (cases "find (\<lambda>m. pc_Name (cm_Old m) = ci_Name c) (rev ms)")
    case None
    with IH have "c \<in> set ?cs" by simp
    from modify_column_mem [OF this Cons.prems(2) k] g None show ?thesis
      by (auto simp: find_append split: if_splits)
  next
    case (Some m')
    with IH show ?thesis by (simp add: find_append)
  qed
qed simp

lemma convert_name [simp]: "ci_Name (convertToEventColumn parseType p) = pc_Name p"
  by (simp add: convertToEventColumn_def case_prod_beta)

definition alter_ok :: "TableInfo \<Rightarrow> TableChanges \<Rightarrow> bool" where
  "alter_ok t ch =
     (distinct (map ci_Name (ti_Columns t) @ map pc_Name (tc_AddedColumns ch))
      \<and> list_all keeps_name (tc_ModifiedColumns ch))"

definition col_names :: "TableInfo \<Rightarrow> string list" where
  "col_names t = map ci_Name (ti_Columns t)"

lemma alter_names:
  assumes "alter_ok t ch" "\<And>c p. ci_Name (f c p) = pc_Name p"
  shows "col_names (applyAlterChanges parseType f t (Some ch))
     = filter (\<lambda>n. n \<notin> set (tc_DroppedColumns ch)) (col_names t @ map pc_Name (tc_AddedColumns ch))"
proof -
  have m: "map ci_Name (map (convertToEventColumn parseType) ps) = map pc_Name ps" for ps
    by (simp add: comp_def)
  have "distinct (map ci_Name (ti_Columns t @ map (convertToEventColumn parseType) (tc_AddedColumns ch)))"
    using assms(1) by (simp only: alter_ok_def map_append m)
  from drop_columns_names [OF this] assms show ?thesis
    by (simp only: map_append m)
      (simp add: applyAlterChanges_def col_names_def alter_ok_def modify_columns_names Let_def split: option.split)
qed

text \<open>
  C7. What \<^verbatim>\<open>ALTER TABLE\<close> gives for MySQL. If the column names of the table and of the added columns
  are all different and no column is renamed, the new table has exactly the old columns followed by
  the added ones, in order, without the dropped ones; and each column has the definition of the last
  modification that names it, or else its old or added definition.
\<close>

theorem alter_columns:
  assumes "alter_ok t ch"
  defines "t' \<equiv> applyAlterChanges parseTypeString mysql_modify t (Some ch)"
  shows "col_names t' = filter (\<lambda>n. n \<notin> set (tc_DroppedColumns ch)) (col_names t @ map pc_Name (tc_AddedColumns ch))
    \<and> (\<forall>c \<in> set (ti_Columns t').
         case find (\<lambda>m. pc_Name (cm_Old m) = ci_Name c) (rev (tc_ModifiedColumns ch)) of
           Some m \<Rightarrow> c = convertToEventColumn parseTypeString (cm_New m)
         | None \<Rightarrow> c \<in> set (ti_Columns t)
                    \<union> convertToEventColumn parseTypeString ` set (tc_AddedColumns ch))"
proof
  show "col_names t' = filter (\<lambda>n. n \<notin> set (tc_DroppedColumns ch)) (col_names t @ map pc_Name (tc_AddedColumns ch))"
    unfolding t'_def by (rule alter_names [OF assms(1)]) (simp add: mysql_modify_def)
next
  let ?g = "convertToEventColumn parseTypeString"
  let ?all = "ti_Columns t @ map ?g (tc_AddedColumns ch)"
  let ?cs = "foldl drop_column ?all (tc_DroppedColumns ch)"
  have m: "map ci_Name (map ?g ps) = map pc_Name ps" for ps by (simp add: comp_def)
  have d0: "distinct (map ci_Name ?all)" using assms(1) by (simp only: alter_ok_def map_append m)
  have d: "distinct (map ci_Name ?cs)" unfolding drop_columns_names [OF d0] using d0 by (rule distinct_filter)
  have cols: "ti_Columns t' = foldl (modify_column (\<lambda>_. ?g)) ?cs (tc_ModifiedColumns ch)"
    unfolding t'_def applyAlterChanges_def mysql_modify_def [abs_def] by (simp add: Let_def split: option.split)
  show "\<forall>c \<in> set (ti_Columns t').
         case find (\<lambda>m. pc_Name (cm_Old m) = ci_Name c) (rev (tc_ModifiedColumns ch)) of
           Some m \<Rightarrow> c = ?g (cm_New m) | None \<Rightarrow> c \<in> set (ti_Columns t) \<union> ?g ` set (tc_AddedColumns ch)"
  proof
    fix c assume "c \<in> set (ti_Columns t')"
    then have c: "c \<in> set (foldl (modify_column (\<lambda>_. ?g)) ?cs (tc_ModifiedColumns ch))" by (simp only: cols)
    have "list_all keeps_name (tc_ModifiedColumns ch)" using assms(1) by (simp add: alter_ok_def)
    from modify_columns_mem [OF c d this convert_name] drop_columns_sub [of ?all "tc_DroppedColumns ch"]
    show "case find (\<lambda>m. pc_Name (cm_Old m) = ci_Name c) (rev (tc_ModifiedColumns ch)) of
           Some m \<Rightarrow> c = ?g (cm_New m) | None \<Rightarrow> c \<in> set (ti_Columns t) \<union> ?g ` set (tc_AddedColumns ch)"
      by (auto split: option.splits)
  qed
qed

definition wit_col :: "string \<Rightarrow> string \<Rightarrow> PColumnInfo" where
  "wit_col n t = PColumnInfo_zero\<lparr> pc_Name := n, pc_Type := t \<rparr>"

definition wit_table :: TableInfo where
  "wit_table = TableInfo_zero\<lparr> ti_Database := ''db'', ti_Table := ''t'', ti_PrimaryKeyColumns := [''id''],
     ti_Columns := map (convertToEventColumn parseTypeString) [wit_col ''id'' ''INT'', wit_col ''v'' ''INT''] \<rparr>"

definition wit_changes :: "string list \<Rightarrow> TableChanges" where
  "wit_changes dropped =
     \<lparr> tc_Operation = TableOpAlter, tc_Table = None, tc_AddedColumns = [wit_col ''w'' ''INT''],
       tc_DroppedColumns = dropped,
       tc_ModifiedColumns = [\<lparr> cm_Old = wit_col ''v'' [], cm_New = wit_col ''v'' ''CHAR(9)'' \<rparr>],
       tc_PrimaryKeyChange = None \<rparr>"

lemma wit_alter_ok: "alter_ok wit_table (wit_changes ds)"
  by (simp add: alter_ok_def wit_table_def wit_changes_def wit_col_def keeps_name_def PColumnInfo_zero_def
      TableInfo_zero_def)

lemma wit_names: "col_names wit_table = [''id'', ''v'']"
  by (simp add: col_names_def wit_table_def wit_col_def PColumnInfo_zero_def)

theorem alter_columns_witness:
  "col_names (applyAlterChanges parseTypeString mysql_modify wit_table (Some (wit_changes [''id''])))
     = [''v'', ''w'']"
  using alter_columns [OF wit_alter_ok, of "[''id'']"]
  by (simp add: wit_names) (simp add: wit_changes_def wit_col_def PColumnInfo_zero_def)

text \<open>
  The key after \<^verbatim>\<open>ALTER TABLE\<close>. Let every key column be a column of the table, and let the change not
  touch the key explicitly. Then every key column of the new table is a column of it if and only if
  no key column was dropped: \<^verbatim>\<open>DROP COLUMN\<close> of a key column leaves a key that names a column which no
  longer exists.
\<close>

theorem alter_key_dangling:
  assumes "alter_ok t ch" "tc_PrimaryKeyChange ch = None" "set (ti_PrimaryKeyColumns t) \<subseteq> set (col_names t)"
  defines "t' \<equiv> applyAlterChanges parseTypeString mysql_modify t (Some ch)"
  shows "set (ti_PrimaryKeyColumns t') \<subseteq> set (col_names t')
    \<longleftrightarrow> set (ti_PrimaryKeyColumns t) \<inter> set (tc_DroppedColumns ch) = {}"
proof -
  have "ti_PrimaryKeyColumns t' = ti_PrimaryKeyColumns t"
    by (simp add: t'_def applyAlterChanges_def assms(2) Let_def)
  moreover have "set (col_names t')
      = (set (col_names t) \<union> pc_Name ` set (tc_AddedColumns ch)) - set (tc_DroppedColumns ch)"
  proof -
    have "col_names t' = filter (\<lambda>n. n \<notin> set (tc_DroppedColumns ch)) (col_names t @ map pc_Name (tc_AddedColumns ch))"
      unfolding t'_def by (rule alter_names [OF assms(1)]) (simp add: mysql_modify_def)
    then show ?thesis by auto
  qed
  ultimately show ?thesis using assms(3) by auto
qed

theorem alter_key_dangling_witness:
  "\<not> set (ti_PrimaryKeyColumns (applyAlterChanges parseTypeString mysql_modify wit_table (Some (wit_changes [''id'']))))
     \<subseteq> set (col_names (applyAlterChanges parseTypeString mysql_modify wit_table (Some (wit_changes [''id'']))))"
proof -
  have "tc_PrimaryKeyChange (wit_changes [''id'']) = None" by (simp add: wit_changes_def)
  moreover have "set (ti_PrimaryKeyColumns wit_table) \<subseteq> set (col_names wit_table)"
    by (simp add: wit_names) (simp add: wit_table_def)
  ultimately show ?thesis
    using alter_key_dangling [OF wit_alter_ok, of "[''id'']"] by (simp add: wit_table_def wit_changes_def)
qed

section \<open>Type strings\<close>

definition upper_text :: "string \<Rightarrow> bool" where
  "upper_text s = (s \<noteq> [] \<and> ToUpper s = s \<and> CHR ''('' \<notin> set s)"

definition type_text :: "string \<Rightarrow> nat \<Rightarrow> nat option \<Rightarrow> string" where
  "type_text base len scale =
     base @ ''('' @ nat_decimal len @ (case scale of None \<Rightarrow> [] | Some s \<Rightarrow> '','' @ nat_decimal s) @ '')''"

lemma digits_no_space: "list_all is_digit s \<Longrightarrow> list_all (\<lambda>c. \<not> is_space c) s"
  by (induction s) auto

lemma TrimSpace_decimal [simp]: "TrimSpace (nat_decimal n) = nat_decimal n"
  by (rule TrimSpace_id [OF digits_no_space [OF nat_decimal_digits]])

lemma comma_decimal [simp]: "CHR '','' \<notin> set (nat_decimal n)"
  using nat_decimal_digits [of n] digit_not(2) by (metis list_all_iff)

lemma type_params:
  "SplitN2 (CHR '','') (TrimSuffix (nat_decimal n @ (case sc of None \<Rightarrow> [] | Some s \<Rightarrow> '','' @ nat_decimal s) @ '')'') '')'')
     = (case sc of None \<Rightarrow> [nat_decimal n] | Some s \<Rightarrow> [nat_decimal n, nat_decimal s])"
proof (cases sc)
  case None
  then show ?thesis by (simp add: SplitN2_none)
next
  case (Some s)
  have "TrimSuffix (nat_decimal n @ '','' @ nat_decimal s @ '')'') '')'' = nat_decimal n @ '','' @ nat_decimal s"
    using TrimSuffix_snoc [of "nat_decimal n @ '','' @ nat_decimal s" "CHR '')''"] by simp
  with Some show ?thesis by (simp add: SplitN2_some)
qed

lemma type_text_index:
  "upper_text base \<Longrightarrow> strings_Index (type_text base n sc) ''('' = Some (length base)"
  by (simp add: type_text_def upper_text_def strings_Index_char)

text \<open>
  Reading a column type back. A type written as an upper-case name with a length, or a length and
  a scale, in parentheses (\<^verbatim>\<open>DECIMAL(10,2)\<close>) is read back as that name and these numbers, as long as
  they fit into 64 bits.
\<close>

theorem parseTypeString_roundtrip:
  assumes "upper_text base" "int n \<le> max_int64" "case sc of None \<Rightarrow> True | Some s \<Rightarrow> int s \<le> max_int64"
  shows "parseTypeString (type_text base n sc) = (base, int n, case sc of None \<Rightarrow> 0 | Some s \<Rightarrow> int s)"
proof -
  have ne: "type_text base n sc \<noteq> []" using assms(1) by (simp add: type_text_def)
  have tk: "take (length base) (type_text base n sc) = base" by (simp add: type_text_def)
  have dr: "drop (length base + 1) (type_text base n sc)
      = nat_decimal n @ (case sc of None \<Rightarrow> [] | Some s \<Rightarrow> '','' @ nat_decimal s) @ '')''"
    by (simp add: type_text_def)
  have "parseTypeString (type_text base n sc)
      = (let parts = (case sc of None \<Rightarrow> [nat_decimal n] | Some s \<Rightarrow> [nat_decimal n, nat_decimal s])
         in (ToUpper base, if length parts \<ge> 1 then fst (Atoi (TrimSpace (parts ! 0))) else 0,
             if length parts \<ge> 2 then fst (Atoi (TrimSpace (parts ! 1))) else 0))"
    by (simp only: parseTypeString_def ne if_False type_text_index [OF assms(1)] option.case Let_def tk dr type_params)
  then show ?thesis
    using assms by (cases sc) (simp_all add: upper_text_def Atoi_def ParseInt_nat_decimal)
qed

theorem parseTypeString_roundtrip_witness:
  "parseTypeString (type_text ''DECIMAL'' 10 (Some 2)) = (''DECIMAL'', 10, 2)"
  using parseTypeString_roundtrip [of "''DECIMAL''" 10 "Some 2"]
  by (simp add: upper_text_def ToUpper_def char_upper_def max_int64_def)

end
