(* ===== verification/Mysql_Ddl.thy ===== *)
theory Mysql_Ddl
  imports Ddl_Apply
begin

section \<open>The MySQL visitor (pkg/parser/mysql/visitor.go)\<close>

text \<open>
  The visitor that turns a parse tree into DDL results. The tree is what the generated parser
  builds; a node is modelled by what the visitor asks of it: the text of a node (\<^verbatim>\<open>GetText\<close>, the tokens
  without the white space between them) and the results of its accessors, with \<^const>\<open>None\<close> for a nil
  child. A labelled alternative of the grammar is a constructor. A result in \<open>Inl\<close> is a panic.
\<close>

subsection \<open>Parse trees\<close>

text \<open>
  \<^verbatim>\<open>columnConstraint\<close>: NULL or NOT NULL (with whether \<^verbatim>\<open>NOT()\<close> is there, or no \<^verbatim>\<open>nullNotnull\<close> child),
  PRIMARY KEY, AUTO_INCREMENT, DEFAULT (whether \<^verbatim>\<open>DEFAULT()\<close> is there, and the text), and the others.
\<close>

datatype ColumnConstraint =
    NullColumnConstraint "bool option"
  | PrimaryKeyColumnConstraint
  | AutoIncrementColumnConstraint
  | DefaultColumnConstraint bool string
  | OtherColumnConstraint

record ColumnDefinition =
  cd_text :: string
  cd_dataType :: "string option"
  cd_constraints :: "ColumnConstraint list"

text \<open>
  \<^verbatim>\<open>createDefinition\<close>: a column declaration, the unlabelled node (which only error recovery leaves in
  a tree), and the constraint and index declarations, for which the embedded base visitor returns
  nil.
\<close>

datatype CreateDefinition =
    ColumnDeclaration "string option" "ColumnDefinition option"
  | PlainDefinition string
  | OtherDefinition

datatype CreateTable =
    CopyCreateTable "string list"
  | QueryCreateTable "string option"
  | ColumnCreateTable "string option" "CreateDefinition list option"

datatype AlterSpecification =
    AlterByAddColumn "string list" "ColumnDefinition option"
  | AlterByAddColumns "string list" "ColumnDefinition list"
  | AlterByDropColumn "string option"
  | AlterByModifyColumn "string list" "ColumnDefinition option"
  | AlterByChangeColumn "string list" "ColumnDefinition option"
  | OtherSpecification

text \<open>
  \<^verbatim>\<open>ddlStatement\<close>, by its child. The rule \<^verbatim>\<open>alterDatabase\<close> has only labelled alternatives, so its node is
  of the unlabelled type only in a tree with a syntax error: the flag says so.
\<close>

datatype DdlStatement =
    SCreateDatabase "string option"
  | SDropDatabase "string option"
  | SAlterDatabase bool string
  | SCreateTable CreateTable
  | SDropTable "string list option"
  | SAlterTable "string option" "AlterSpecification list"
  | SCreateIndex "string option" "string option"
  | SDropIndex "string option" "string option"
  | SCreateView "string option"
  | SDropView "string list"
  | STruncateTable "string option"
  | SOtherDdl

record Root =
  rt_text :: string
  rt_statements :: "DdlStatement option list option"

subsection \<open>Names\<close>

definition extractUidText :: "string option \<Rightarrow> string" where
  "extractUidText uid = (case uid of None \<Rightarrow> [] | Some text \<Rightarrow> Trim_char (CHR 0x60) text)"

definition split_name :: "string \<Rightarrow> string \<times> string" where
  "split_name text =
     (let text = remove_char (CHR 0x60) text in
      if Contains text ''.'' then
        (case SplitN2 (CHR ''.'') text of [a, b] \<Rightarrow> (a, b) | _ \<Rightarrow> ([], text))
      else ([], text))"

definition extractTableName :: "string option \<Rightarrow> string \<times> string" where
  "extractTableName ctx = (case ctx of None \<Rightarrow> ([], []) | Some text \<Rightarrow> split_name text)"

definition name_result :: "PDDLType \<Rightarrow> string \<Rightarrow> string option \<Rightarrow> DDLResult" where
  "name_result typ ddl tableName =
     (let r = DDLResult_of typ ddl in
      case tableName of
        None \<Rightarrow> r
      | Some t \<Rightarrow> (let (db, table) = extractTableName (Some t) in r\<lparr> dres_Database := db, dres_Table := table \<rparr>))"

subsection \<open>Columns\<close>

fun processColumnConstraint :: "ColumnConstraint \<Rightarrow> PColumnInfo \<Rightarrow> PColumnInfo" where
  "processColumnConstraint (NullColumnConstraint nn) col =
     (case nn of
        None \<Rightarrow> col
      | Some isNot \<Rightarrow> if isNot then col\<lparr> pc_Nullable := False \<rparr> else col\<lparr> pc_Nullable := True \<rparr>)"
| "processColumnConstraint PrimaryKeyColumnConstraint col = col\<lparr> pc_Nullable := False \<rparr>"
| "processColumnConstraint AutoIncrementColumnConstraint col = col\<lparr> pc_AutoIncrement := True \<rparr>"
| "processColumnConstraint (DefaultColumnConstraint hasDefault fullText) col =
     (if hasDefault \<and> length fullText > length ''DEFAULT''
      then col\<lparr> pc_DefaultValue := VStr (drop (length ''DEFAULT'') fullText) \<rparr> else col)"
| "processColumnConstraint OtherColumnConstraint col = col"

definition extractColumnInfo :: "ColumnDefinition \<Rightarrow> PColumnInfo \<Rightarrow> PColumnInfo" where
  "extractColumnInfo ctx col =
     (let col = (case cd_dataType ctx of None \<Rightarrow> col | Some t \<Rightarrow> col\<lparr> pc_Type := t \<rparr>)
      in fold processColumnConstraint (cd_constraints ctx) col)"

definition nullable_col :: "string \<Rightarrow> PColumnInfo" where
  "nullable_col n = PColumnInfo_zero\<lparr> pc_Name := n, pc_Nullable := True \<rparr>"

definition VisitColumnDeclaration :: "string option \<Rightarrow> ColumnDefinition option \<Rightarrow> PColumnInfo" where
  "VisitColumnDeclaration fcn colDef =
     (let col = nullable_col (case fcn of None \<Rightarrow> [] | Some t \<Rightarrow> Trim_char (CHR 0x60) t)
      in case colDef of None \<Rightarrow> col | Some d \<Rightarrow> extractColumnInfo d col)"

definition VisitCreateDefinition :: "string \<Rightarrow> PColumnInfo" where
  "VisitCreateDefinition text =
     (let parts = Fields text;
          col = nullable_col (if length parts \<ge> 1 then Trim_char (CHR 0x60) (parts ! 0) else []);
          col = (if length parts \<ge> 2 then col\<lparr> pc_Type := parts ! 1 \<rparr> else col);
          upperText = ToUpper text;
          col = (if Contains upperText ''NOTNULL'' \<or> Contains upperText ''PRIMARY''
                 then col\<lparr> pc_Nullable := False \<rparr> else col)
      in if Contains upperText ''AUTO_INCREMENT'' then col\<lparr> pc_AutoIncrement := True \<rparr> else col)"

fun accept_definition :: "CreateDefinition \<Rightarrow> PColumnInfo option" where
  "accept_definition (ColumnDeclaration fcn colDef) = Some (VisitColumnDeclaration fcn colDef)"
| "accept_definition (PlainDefinition text) = Some (VisitCreateDefinition text)"
| "accept_definition OtherDefinition = None"

fun extractColumns :: "CreateDefinition list \<Rightarrow> PColumnInfo list \<Rightarrow> PColumnInfo list" where
  "extractColumns [] cols = cols"
| "extractColumns (d # ds) cols =
     (case accept_definition d of
        None \<Rightarrow> extractColumns ds cols
      | Some col \<Rightarrow> extractColumns ds (if pc_Name col \<noteq> [] then cols @ [col] else cols))"

subsection \<open>CREATE TABLE\<close>

definition VisitColumnCreateTable :: "string \<Rightarrow> string option \<Rightarrow> CreateDefinition list option \<Rightarrow> DDLResult" where
  "VisitColumnCreateTable ddl tableName createDefinitions =
     (let result = name_result DDLTypeCreateTable ddl tableName in
      result\<lparr> dres_TableChanges :=
        Some \<lparr> tc_Operation = TableOpCreate,
               tc_Table = Some \<lparr> pt_Database = dres_Database result, pt_Name = dres_Table result,
                                 pt_Columns = (case createDefinitions of None \<Rightarrow> [] | Some ds \<Rightarrow> extractColumns ds []),
                                 pt_PrimaryKey = [], pt_Indexes = [], pt_Comment = [] \<rparr>,
               tc_AddedColumns = [], tc_DroppedColumns = [], tc_ModifiedColumns = [],
               tc_PrimaryKeyChange = None \<rparr> \<rparr>)"

definition VisitCopyCreateTable :: "string \<Rightarrow> string list \<Rightarrow> DDLResult" where
  "VisitCopyCreateTable ddl tables =
     name_result DDLTypeCreateTable ddl (case tables of [] \<Rightarrow> None | t # _ \<Rightarrow> Some t)"

definition VisitQueryCreateTable :: "string \<Rightarrow> string option \<Rightarrow> DDLResult" where
  "VisitQueryCreateTable ddl tableName = name_result DDLTypeCreateTable ddl tableName"

subsection \<open>ALTER TABLE\<close>

record alterResult =
  ar_addedColumn :: "PColumnInfo option"
  ar_droppedColumn :: string
  ar_modifiedColumn :: "ColumnModification option"

definition alterResult_empty :: alterResult where
  "alterResult_empty = \<lparr> ar_addedColumn = None, ar_droppedColumn = [], ar_modifiedColumn = None \<rparr>"

definition defined_col :: "string \<Rightarrow> ColumnDefinition option \<Rightarrow> PColumnInfo" where
  "defined_col n colDef =
     (case colDef of None \<Rightarrow> nullable_col n | Some d \<Rightarrow> extractColumnInfo d (nullable_col n))"

definition VisitAlterByAddColumn :: "string list \<Rightarrow> ColumnDefinition option \<Rightarrow> alterResult" where
  "VisitAlterByAddColumn uids colDef =
     (if length uids > 0
      then alterResult_empty\<lparr> ar_addedColumn := Some (defined_col (extractUidText (Some (uids ! 0))) colDef) \<rparr>
      else alterResult_empty)"

definition VisitAlterByAddColumns :: "string list \<Rightarrow> ColumnDefinition list \<Rightarrow> alterResult" where
  "VisitAlterByAddColumns uids colDefs =
     (if length uids > 0
      then let col = nullable_col (extractUidText (Some (uids ! 0)));
               col = (if length colDefs > 0 then col\<lparr> pc_Type := cd_text (colDefs ! 0) \<rparr> else col)
           in alterResult_empty\<lparr> ar_addedColumn := Some col \<rparr>
      else alterResult_empty)"

definition VisitAlterByDropColumn :: "string option \<Rightarrow> alterResult" where
  "VisitAlterByDropColumn uid =
     (case uid of
        None \<Rightarrow> alterResult_empty
      | Some u \<Rightarrow> alterResult_empty\<lparr> ar_droppedColumn := extractUidText (Some u) \<rparr>)"

definition VisitAlterByModifyColumn :: "string list \<Rightarrow> ColumnDefinition option \<Rightarrow> alterResult" where
  "VisitAlterByModifyColumn uids colDef =
     (if length uids > 0
      then let newCol = defined_col (extractUidText (Some (uids ! 0))) colDef in
           alterResult_empty\<lparr> ar_modifiedColumn :=
             Some \<lparr> cm_Old = PColumnInfo_zero\<lparr> pc_Name := pc_Name newCol \<rparr>, cm_New = newCol \<rparr> \<rparr>
      else alterResult_empty)"

definition VisitAlterByChangeColumn :: "string list \<Rightarrow> ColumnDefinition option \<Rightarrow> alterResult" where
  "VisitAlterByChangeColumn uids colDef =
     (if length uids < 2 then alterResult_empty
      else let oldColName = extractUidText (Some (uids ! 0));
               newCol = defined_col (extractUidText (Some (uids ! 1))) colDef in
           alterResult_empty\<lparr> ar_modifiedColumn :=
             Some \<lparr> cm_Old = PColumnInfo_zero\<lparr> pc_Name := oldColName \<rparr>, cm_New = newCol \<rparr> \<rparr>)"

fun accept_specification :: "AlterSpecification \<Rightarrow> alterResult option" where
  "accept_specification (AlterByAddColumn uids d) = Some (VisitAlterByAddColumn uids d)"
| "accept_specification (AlterByAddColumns uids ds) = Some (VisitAlterByAddColumns uids ds)"
| "accept_specification (AlterByDropColumn uid) = Some (VisitAlterByDropColumn uid)"
| "accept_specification (AlterByModifyColumn uids d) = Some (VisitAlterByModifyColumn uids d)"
| "accept_specification (AlterByChangeColumn uids d) = Some (VisitAlterByChangeColumn uids d)"
| "accept_specification OtherSpecification = None"

definition add_specification :: "TableChanges \<Rightarrow> AlterSpecification \<Rightarrow> TableChanges" where
  "add_specification ch spec =
     (case accept_specification spec of
        None \<Rightarrow> ch
      | Some added \<Rightarrow>
          (let ch = (case ar_addedColumn added of
                       None \<Rightarrow> ch | Some c \<Rightarrow> ch\<lparr> tc_AddedColumns := tc_AddedColumns ch @ [c] \<rparr>);
               ch = (if ar_droppedColumn added \<noteq> []
                     then ch\<lparr> tc_DroppedColumns := tc_DroppedColumns ch @ [ar_droppedColumn added] \<rparr> else ch)
           in case ar_modifiedColumn added of
                None \<Rightarrow> ch | Some m \<Rightarrow> ch\<lparr> tc_ModifiedColumns := tc_ModifiedColumns ch @ [m] \<rparr>))"

definition VisitAlterTable :: "string \<Rightarrow> string option \<Rightarrow> AlterSpecification list \<Rightarrow> DDLResult" where
  "VisitAlterTable ddl tableName specs =
     (let result = name_result DDLTypeAlterTable ddl tableName;
          ch = \<lparr> tc_Operation = TableOpAlter,
                 tc_Table = (case tableName of
                    None \<Rightarrow> None
                  | Some _ \<Rightarrow> Some \<lparr> pt_Database = dres_Database result, pt_Name = dres_Table result, pt_Columns = [],
                                     pt_PrimaryKey = [], pt_Indexes = [], pt_Comment = [] \<rparr>),
                 tc_AddedColumns = [], tc_DroppedColumns = [], tc_ModifiedColumns = [],
                 tc_PrimaryKeyChange = None \<rparr>
      in result\<lparr> dres_TableChanges := Some (foldl add_specification ch specs) \<rparr>)"

subsection \<open>The other statements\<close>

definition VisitCreateDatabase :: "string \<Rightarrow> string option \<Rightarrow> DDLResult" where
  "VisitCreateDatabase ddl uid =
     (case uid of
        None \<Rightarrow> DDLResult_of DDLTypeCreateDatabase ddl
      | Some u \<Rightarrow> (DDLResult_of DDLTypeCreateDatabase ddl)\<lparr> dres_Database := extractUidText (Some u) \<rparr>)"

definition VisitDropDatabase :: "string \<Rightarrow> string option \<Rightarrow> DDLResult" where
  "VisitDropDatabase ddl uid =
     (case uid of
        None \<Rightarrow> DDLResult_of DDLTypeDropDatabase ddl
      | Some u \<Rightarrow> (DDLResult_of DDLTypeDropDatabase ddl)\<lparr> dres_Database := extractUidText (Some u) \<rparr>)"

definition VisitAlterDatabase :: "string \<Rightarrow> string \<Rightarrow> DDLResult" where
  "VisitAlterDatabase ddl text =
     (let result = DDLResult_of DDLTypeAlterDatabase ddl; upperText = ToUpper text;
          named = (\<lambda>rest. case Fields (TrimSpace rest) of
                     [] \<Rightarrow> result | p # _ \<Rightarrow> result\<lparr> dres_Database := Trim_char (CHR 0x60) p \<rparr>)
      in case strings_Index upperText ''DATABASE'' of
           Some idx \<Rightarrow> named (drop (idx + 8) text)
         | None \<Rightarrow>
             (case strings_Index upperText ''SCHEMA'' of
                Some idx \<Rightarrow> named (drop (idx + 6) text)
              | None \<Rightarrow> result))"

definition VisitDropTable :: "string \<Rightarrow> string list option \<Rightarrow> DDLResult" where
  "VisitDropTable ddl tables =
     name_result DDLTypeDropTable ddl
       (case tables of None \<Rightarrow> None | Some [] \<Rightarrow> None | Some (t # _) \<Rightarrow> Some t)"

definition index_result :: "PDDLType \<Rightarrow> string \<Rightarrow> string \<Rightarrow> string option \<Rightarrow> string option \<Rightarrow> DDLResult" where
  "index_result typ op ddl uid tableName =
     (let r = name_result typ ddl tableName in
      case uid of
        None \<Rightarrow> r
      | Some u \<Rightarrow>
          r\<lparr> dres_IndexChanges :=
               Some \<lparr> ic_IndexName = extractUidText (Some u), ic_TableName = dres_Table r,
                      ic_DatabaseName = dres_Database r, ic_Operation = op, ic_Index = None \<rparr> \<rparr>)"

definition VisitCreateIndex :: "string \<Rightarrow> string option \<Rightarrow> string option \<Rightarrow> DDLResult" where
  "VisitCreateIndex ddl uid tableName = index_result DDLTypeCreateIndex ''create'' ddl uid tableName"

definition VisitDropIndex :: "string \<Rightarrow> string option \<Rightarrow> string option \<Rightarrow> DDLResult" where
  "VisitDropIndex ddl uid tableName = index_result DDLTypeDropIndex ''drop'' ddl uid tableName"

definition VisitCreateView :: "string \<Rightarrow> string option \<Rightarrow> DDLResult" where
  "VisitCreateView ddl fullId = name_result DDLTypeCreateView ddl fullId"

definition VisitDropView :: "string \<Rightarrow> string list \<Rightarrow> DDLResult" where
  "VisitDropView ddl fullIds =
     name_result DDLTypeDropView ddl (case fullIds of [] \<Rightarrow> None | f # _ \<Rightarrow> Some f)"

definition VisitTruncateTable :: "string \<Rightarrow> string option \<Rightarrow> DDLResult" where
  "VisitTruncateTable ddl tableName = name_result DDLTypeTruncate ddl tableName"

subsection \<open>Statements\<close>

fun accept_create_table :: "string \<Rightarrow> CreateTable \<Rightarrow> DDLResult" where
  "accept_create_table ddl (CopyCreateTable ts) = VisitCopyCreateTable ddl ts"
| "accept_create_table ddl (QueryCreateTable t) = VisitQueryCreateTable ddl t"
| "accept_create_table ddl (ColumnCreateTable t ds) = VisitColumnCreateTable ddl t ds"

fun visitDdlStatement :: "string \<Rightarrow> DdlStatement \<Rightarrow> DDLResult res" where
  "visitDdlStatement ddl (SCreateDatabase uid) = Inr (VisitCreateDatabase ddl uid)"
| "visitDdlStatement ddl (SDropDatabase uid) = Inr (VisitDropDatabase ddl uid)"
| "visitDdlStatement ddl (SAlterDatabase unlabelled text) =
     (if unlabelled then Inr (VisitAlterDatabase ddl text)
      else Inl (Panic ''interface conversion: not *generated.AlterDatabaseContext''))"
| "visitDdlStatement ddl (SCreateTable ct) = Inr (accept_create_table ddl ct)"
| "visitDdlStatement ddl (SDropTable ts) = Inr (VisitDropTable ddl ts)"
| "visitDdlStatement ddl (SAlterTable t specs) = Inr (VisitAlterTable ddl t specs)"
| "visitDdlStatement ddl (SCreateIndex u t) = Inr (VisitCreateIndex ddl u t)"
| "visitDdlStatement ddl (SDropIndex u t) = Inr (VisitDropIndex ddl u t)"
| "visitDdlStatement ddl (SCreateView f) = Inr (VisitCreateView ddl f)"
| "visitDdlStatement ddl (SDropView fs) = Inr (VisitDropView ddl fs)"
| "visitDdlStatement ddl (STruncateTable t) = Inr (VisitTruncateTable ddl t)"
| "visitDdlStatement ddl SOtherDdl = Inr (DDLResult_of DDLTypeUnknown ddl)"

definition VisitSqlStatement :: "string \<Rightarrow> DdlStatement option \<Rightarrow> DDLResult option res" where
  "VisitSqlStatement ddl stmt =
     (case stmt of
        None \<Rightarrow> Inr None
      | Some s \<Rightarrow> (case visitDdlStatement ddl s of Inl e \<Rightarrow> Inl e | Inr r \<Rightarrow> Inr (Some r)))"

fun VisitSqlStatements :: "string \<Rightarrow> DdlStatement option list \<Rightarrow> DDLResult list \<Rightarrow> DDLResult list res" where
  "VisitSqlStatements ddl [] results = Inr results"
| "VisitSqlStatements ddl (stmt # stmts) results =
     (case VisitSqlStatement ddl stmt of
        Inl e \<Rightarrow> Inl e
      | Inr r \<Rightarrow> VisitSqlStatements ddl stmts (DDLResults_Add results r))"

definition VisitRoot :: "Root \<Rightarrow> VisitResult res" where
  "VisitRoot ctx =
     (case rt_statements ctx of
        None \<Rightarrow> Inr (WResults [])
      | Some stmts \<Rightarrow>
          (case VisitSqlStatements (rt_text ctx) stmts [] of Inl e \<Rightarrow> Inl e | Inr rs \<Rightarrow> Inr (WResults ([] @ rs))))"

text \<open>The MySQL parser, with the generated parser as the function from the statement to its tree.\<close>

definition mysql_apply :: "(string \<Rightarrow> Root) \<Rightarrow> TableInfo option \<Rightarrow> string \<Rightarrow> DDLResult option res" where
  "mysql_apply parse oldTable ddl = mysql_ApplyDDL (\<lambda>s. VisitRoot (parse s)) oldTable ddl"

section \<open>What CREATE TABLE yields\<close>

lemma constraints_name [simp]: "pc_Name (fold processColumnConstraint cs col) = pc_Name col"
proof (induction cs arbitrary: col)
  case (Cons c cs)
  then show ?case by (cases c) (auto split: option.split)
qed simp

lemma extractColumnInfo_name [simp]: "pc_Name (extractColumnInfo d col) = pc_Name col"
  by (simp add: extractColumnInfo_def split: option.split)

lemma VisitColumnDeclaration_name [simp]:
  "pc_Name (VisitColumnDeclaration (Some n) d) = Trim_char (CHR 0x60) n"
  by (simp add: VisitColumnDeclaration_def nullable_col_def Let_def split: option.split)

lemma extractColumns_acc: "extractColumns ds cols = cols @ extractColumns ds []"
proof (induction ds arbitrary: cols)
  case (Cons d ds)
  have a: "extractColumns ds (cols @ [c]) = cols @ extractColumns ds [c]" for c
    using Cons [of "cols @ [c]"] Cons [of "[c]"] by simp
  show ?case using Cons [of cols] a by (cases "accept_definition d") simp_all
qed simp

lemma apply_single:
  assumes "rt_statements (parse ddl) = Some [Some s]" "visitDdlStatement (rt_text (parse ddl)) s = Inr r"
  shows "Parse (\<lambda>s. VisitRoot (parse s)) ddl = Inr [r]"
  using assms by (simp add: Parse_def VisitRoot_def VisitSqlStatement_def DDLResults_Add_def)

lemma name_result_simps [simp]:
  "dres_Type (name_result typ ddl tn) = typ" "dres_TableChanges (name_result typ ddl tn) = None"
  "dres_NewTableInfo (name_result typ ddl tn) = None"
  "dres_Database (name_result typ ddl (Some n)) = fst (split_name n)"
  "dres_Table (name_result typ ddl (Some n)) = snd (split_name n)"
  by (simp_all add: name_result_def DDLResult_of_def extractTableName_def case_prod_beta Let_def split: option.split)


definition wit_create :: "string \<Rightarrow> Root" where
  "wit_create ddl =
     \<lparr> rt_text = ddl,
       rt_statements = Some [Some (SCreateTable (ColumnCreateTable (Some ''orders'')
         (Some [ColumnDeclaration (Some ''id'') (Some \<lparr> cd_text = ''BIGINTPRIMARYKEY'', cd_dataType = Some ''BIGINT'',
                   cd_constraints = [PrimaryKeyColumnConstraint] \<rparr>)])))] \<rparr>"


text \<open>
  \<^verbatim>\<open>ALTER DATABASE\<close> panics: the visitor asserts the unlabelled node type, which the generated parser
  never leaves in the tree of a correct statement, so \<^verbatim>\<open>ApplyDDL\<close> never returns on one, for any table
  and whatever the statement says.
\<close>

theorem mysql_alter_database_panics:
  assumes "rt_statements (parse ddl) = Some (Some (SAlterDatabase False text) # stmts)"
  shows "\<exists>s. mysql_apply parse old ddl = Inl (Panic s)"
  using assms by (simp add: mysql_apply_def mysql_ApplyDDL_def ApplyDDL_def Parse_def VisitRoot_def VisitSqlStatement_def)

theorem mysql_alter_database_panics_witness:
  "\<exists>s. mysql_apply (\<lambda>d. \<lparr> rt_text = d, rt_statements = Some [Some (SAlterDatabase False d)] \<rparr>) None
     ''ALTERDATABASEshop'' = Inl (Panic s)"
  by (rule mysql_alter_database_panics) simp

end
