(* ===== verification/Consumer.thy ===== *)
theory Consumer
  imports Scheduler Target_Store Mysql_Ddl
begin

section \<open>The binlog consumer (internal/lifecycle/binlog_consumer.go)\<close>

text \<open>
  The consumer routes each change event by the lifecycle state of its table and carries out DDL. Its
  collaborators are the lifecycle store, the binlog cache, the sink, the DDL parser, the table
  definitions and the target store. The last two and the parser may be nil. \<^verbatim>\<open>EventSink\<close>, \<^verbatim>\<open>DDLParser\<close>
  and \<^verbatim>\<open>TargetStore\<close> are interfaces: they are fields of \<open>deps\<close>, functions on a state of type \<open>'k\<close> (the
  sink) or \<open>'s\<close> (the store). One goroutine calls \<^verbatim>\<open>Route\<close> (\<^verbatim>\<open>routeEvents\<close>) and every write to the
  sink has returned before the next call, so \<^verbatim>\<open>flushPending\<close> has nothing to wait for.
  \<open>os\<close> holds the answers of the operating system to the cache, \<open>now\<close> is the time of the call.
\<close>

record ('s, 'k) ConsumerDeps =
  cd_applyDDL :: "(TableInfo option \<Rightarrow> string \<Rightarrow> DDLResult option res) option"
  cd_ddlRecords :: bool
  cd_ddlStore :: "'s TargetStore option"
  cd_write :: "'k \<Rightarrow> ChangeEvent list \<Rightarrow> 'k \<times> err option"
  cd_marshalEvent :: "ChangeEvent \<Rightarrow> bytes res"
  cd_marshalPos :: "Position \<Rightarrow> bytes res"
  cd_marshalCache :: "CacheEvent \<Rightarrow> bytes res"

record ('s, 'k) BinlogConsumer =
  bc_taskID :: string
  bc_store :: MemoryLifecycleStore
  bc_cache :: LocalBackend
  bc_sink :: 'k
  bc_sourceType :: SourceType
  bc_tables :: "Tables option"
  bc_ddlStore :: 's

definition maxDDLRetries :: int where
  "maxDDLRetries = 3"

text \<open>
  \<^verbatim>\<open>Time.UnixMilli\<close>: a time counts nanoseconds from the zero time (1 January of year 1), which lies
  62135596800 seconds before the epoch.
\<close>

definition UnixMilli :: "gotime \<Rightarrow> int" where
  "UnixMilli t = t div 1000000 - 62135596800000"

definition eventToCacheEvent ::
  "(ChangeEvent \<Rightarrow> bytes res) \<Rightarrow> (Position \<Rightarrow> bytes res) \<Rightarrow> ChangeEvent \<Rightarrow> SourceType \<Rightarrow> CacheEvent" where
  "eventToCacheEvent marshalEvent marshalPos ev sourceType =
     (let payload = (case marshalEvent ev of Inl _ \<Rightarrow> [] | Inr p \<Rightarrow> p);
          ce = \<lparr> ce_SourceType = sourceType, ce_Position = [], ce_TxID = [], ce_EventSeq = pos_SeqNo (ev_Position ev),
                 ce_IsBegin = False, ce_IsCommit = False, ce_Payload = payload,
                 ce_TimestampMs = UnixMilli (ev_Timestamp ev), ce_ByteOffset = 0, ce_SeqVal = [] \<rparr>;
          ce = (case SetPosition marshalPos ce (ev_Position ev) of Inl _ \<Rightarrow> ce | Inr ce \<Rightarrow> ce)
      in ce\<lparr> ce_TxID := pos_TxID (ev_Position ev) \<rparr>)"

definition inferChangeType :: "DDLResult \<Rightarrow> TableInfo option \<Rightarrow> string" where
  "inferChangeType result oldTable =
     (if dres_NewTableInfo result = None then ''DROP''
      else if oldTable \<noteq> None then ''ALTER'' else ''CREATE'')"

definition short_tid :: "string \<Rightarrow> string \<Rightarrow> TableID" where
  "short_tid db tbl = \<lparr> tid_Database = db, tid_Schema = [], tid_Table = tbl \<rparr>"

definition ddl_state_row :: "string \<Rightarrow> string \<Rightarrow> string \<Rightarrow> TableInfo option \<Rightarrow> string \<Rightarrow> string \<Rightarrow> int \<Rightarrow> DDLStateRow" where
  "ddl_state_row db tbl ddl lastInfo status msg retry =
     \<lparr> ds_DBName = db, ds_TableName = tbl, ds_DDL = ddl, ds_LastSuccessInfo = lastInfo, ds_Status = status,
       ds_ErrorMsg = msg, ds_RetryCount = retry, ds_CreatedAt = 0, ds_UpdatedAt = 0 \<rparr>"

text \<open>
  \<^verbatim>\<open>_ = lc.Pause()\<close> (or \<^verbatim>\<open>Resume\<close>) followed by a save: on an error the lifecycle is saved as it is.
\<close>

definition or_same :: "TableLifecycle \<Rightarrow> TableLifecycle res \<Rightarrow> TableLifecycle" where
  "or_same lc r = (case r of Inl _ \<Rightarrow> lc | Inr lc' \<Rightarrow> lc')"

definition handleDDLFailure ::
  "'s TargetStore \<Rightarrow> gotime \<Rightarrow> ('s, 'k) BinlogConsumer \<Rightarrow> string \<Rightarrow> string \<Rightarrow> string \<Rightarrow> TableInfo option \<Rightarrow> err
     \<Rightarrow> ('s, 'k) BinlogConsumer \<times> err option" where
  "handleDDLFailure ts now c db tbl ddl lastSuccessInfo applyErr =
     (let retryCount = (case ts_LoadDDLState ts (bc_ddlStore c) db tbl of
                          Inl _ \<Rightarrow> 0 | Inr None \<Rightarrow> 0 | Inr (Some existing) \<Rightarrow> ds_RetryCount existing) + 1
      in case ts_SaveDDLState ts (bc_ddlStore c)
                (ddl_state_row db tbl ddl lastSuccessInfo ''failed'' (Error applyErr) retryCount) of
           (s, Some e) \<Rightarrow> (c\<lparr> bc_ddlStore := s \<rparr>, Some (Wrapf ''save ddl state (failed)'' e))
         | (s, None) \<Rightarrow>
             (let c = c\<lparr> bc_ddlStore := s \<rparr>;
                  c = (case ls_Get (bc_store c) (bc_taskID c) (short_tid db tbl) of
                         Inl _ \<Rightarrow> c
                       | Inr lc \<Rightarrow> c\<lparr> bc_store := ls_Save (bc_store c) (bc_taskID c) (or_same lc (Pause lc now)) \<rparr>)
              in (c, Some (Wrapf (''DDL failed for '' @ db @ ''.'' @ tbl) applyErr))))"

definition handleDDL ::
  "('s, 'k) ConsumerDeps \<Rightarrow> gotime \<Rightarrow> ('s, 'k) BinlogConsumer \<Rightarrow> ChangeEvent
     \<Rightarrow> ('s, 'k) BinlogConsumer \<times> err option" where
  "handleDDL deps now c ev =
     (case (cd_applyDDL deps, bc_tables c, cd_ddlRecords deps, cd_ddlStore deps) of
        (Some applyDDL, Some tables, True, Some ts) \<Rightarrow>
          (let db = ti_Database (ev_Table ev);
               tbl = ti_Table (ev_Table ev);
               ddl = (case ev_Metadata ev of None \<Rightarrow> [] | Some md \<Rightarrow> (case map_of md ''ddl'' of None \<Rightarrow> [] | Some d \<Rightarrow> d))
           in if ddl = [] then (c, Some (Errorf ''DDL event missing 'ddl' metadata''))
              else
                let lastSuccessInfo = Tables_Get tables db tbl in
                case ts_SaveDDLState ts (bc_ddlStore c) (ddl_state_row db tbl ddl lastSuccessInfo ''applying'' [] 0) of
                  (s, Some e) \<Rightarrow> (c\<lparr> bc_ddlStore := s \<rparr>, Some (Wrapf ''save ddl state (applying)'' e))
                | (s, None) \<Rightarrow>
                    let c = c\<lparr> bc_ddlStore := s \<rparr>; oldTable = Tables_Get tables db tbl in
                    case applyDDL oldTable ddl of
                      Inl (Panic p) \<Rightarrow> (c, Some (Panic p))
                    | Inl e \<Rightarrow> handleDDLFailure ts now c db tbl ddl lastSuccessInfo e
                    | Inr result \<Rightarrow>
                        case cd_write deps (bc_sink c) [ev] of
                          (k, Some e) \<Rightarrow> handleDDLFailure ts now (c\<lparr> bc_sink := k \<rparr>) db tbl ddl lastSuccessInfo e
                        | (k, None) \<Rightarrow>
                            let c = c\<lparr> bc_sink := k \<rparr> in
                            case result of
                              None \<Rightarrow> (c, Some (Panic ''invalid memory address or nil pointer dereference''))
                            | Some r \<Rightarrow>
                                let c = c\<lparr> bc_tables :=
                                          Some (case dres_NewTableInfo r of
                                                  Some ti \<Rightarrow> Tables_Put tables ti
                                                | None \<Rightarrow> Tables_Remove tables db tbl) \<rparr>
                                in case ts_SaveSchemaHistory ts (bc_ddlStore c)
                                          \<lparr> sh_ID = 0, sh_Position = ev_Position ev, sh_DBName = db, sh_TableName = tbl,
                                            sh_DDL = ddl, sh_TableInfo = dres_NewTableInfo r,
                                            sh_ChangeType = inferChangeType r oldTable, sh_CreatedAt = 0 \<rparr> of
                                     (s, Some e) \<Rightarrow> (c\<lparr> bc_ddlStore := s \<rparr>, Some (Wrapf ''save schema history'' e))
                                   | (s, None) \<Rightarrow>
                                       case ts_DeleteDDLState ts s db tbl of
                                         (s, Some e) \<Rightarrow> (c\<lparr> bc_ddlStore := s \<rparr>, Some (Wrapf ''delete ddl state'' e))
                                       | (s, None) \<Rightarrow> (c\<lparr> bc_ddlStore := s \<rparr>, None))
      | _ \<Rightarrow> (c, None))"

definition retry_event :: "string \<Rightarrow> string \<Rightarrow> string \<Rightarrow> ChangeEvent" where
  "retry_event db tbl ddl =
     \<lparr> ev_ID = [], ev_Source = SourceInfo_zero, ev_Type = EventTypeDDL, ev_Position = Position_zero,
       ev_Table = TableInfo_zero\<lparr> ti_Database := db, ti_Table := tbl \<rparr>, ev_Before = RowData_zero, ev_After = RowData_zero,
       ev_Timestamp = 0, ev_Transaction = None, ev_Schema = None, ev_Metadata = Some [(''ddl'', ddl)] \<rparr>"

definition checkDDLState ::
  "('s, 'k) ConsumerDeps \<Rightarrow> gotime \<Rightarrow> ('s, 'k) BinlogConsumer \<Rightarrow> string \<Rightarrow> string
     \<Rightarrow> ('s, 'k) BinlogConsumer \<times> bool res" where
  "checkDDLState deps now c db tbl =
     (case cd_ddlStore deps of
        None \<Rightarrow> (c, Inr False)
      | Some ts \<Rightarrow>
          (case ts_LoadDDLState ts (bc_ddlStore c) db tbl of
             Inl _ \<Rightarrow> (c, Inr False)
           | Inr None \<Rightarrow> (c, Inr False)
           | Inr (Some ddlState) \<Rightarrow>
               if ds_Status ddlState \<noteq> ''failed'' then (c, Inr True)
               else if ds_RetryCount ddlState \<ge> maxDDLRetries then (c, Inr True)
               else case ls_Get (bc_store c) (bc_taskID c) (short_tid db tbl) of
                      Inl _ \<Rightarrow> (c, Inr True)
                    | Inr lc \<Rightarrow>
                        (let c = c\<lparr> bc_store := ls_Save (bc_store c) (bc_taskID c) (or_same lc (Resume lc now)) \<rparr>;
                             (c, er) = handleDDL deps now c (retry_event db tbl (ds_DDL ddlState))
                         in (c, case er of Some (Panic p) \<Rightarrow> Inl (Panic p) | _ \<Rightarrow> Inr True))))"

definition event_tid :: "ChangeEvent \<Rightarrow> TableID" where
  "event_tid ev =
     \<lparr> tid_Database = ti_Database (ev_Table ev), tid_Schema = ti_Schema (ev_Table ev),
       tid_Table = ti_Table (ev_Table ev) \<rparr>"

definition Route ::
  "('s, 'k) ConsumerDeps \<Rightarrow> OS \<Rightarrow> gotime \<Rightarrow> ('s, 'k) BinlogConsumer \<Rightarrow> ChangeEvent
     \<Rightarrow> ('s, 'k) BinlogConsumer \<times> err option" where
  "Route deps os now c ev =
     (if IsDDL ev then handleDDL deps now c ev
      else
        let tableID = event_tid ev in
        case checkDDLState deps now c (tid_Database tableID) (tid_Table tableID) of
          (c, Inl e) \<Rightarrow> (c, Some e)
        | (c, Inr True) \<Rightarrow> (c, None)
        | (c, Inr False) \<Rightarrow>
            (case ls_Get (bc_store c) (bc_taskID c) tableID of
               Inl _ \<Rightarrow> (c, None)
             | Inr lc \<Rightarrow>
                 (case GetState lc of
                    TableStateSnapshotting \<Rightarrow>
                      (let ce = eventToCacheEvent (cd_marshalEvent deps) (cd_marshalPos deps) ev (bc_sourceType c);
                           (lb, er) = lb_Write (cd_marshalCache deps) os (bc_cache c) (TableID_String tableID) ce
                       in (c\<lparr> bc_cache := lb \<rparr>, er))
                  | TableStateCatchingUp \<Rightarrow>
                      (let (k, er) = cd_write deps (bc_sink c) [ev] in (c\<lparr> bc_sink := k \<rparr>, er))
                  | TableStateStreaming \<Rightarrow>
                      (let (k, er) = cd_write deps (bc_sink c) [ev] in (c\<lparr> bc_sink := k \<rparr>, er))
                  | _ \<Rightarrow> (c, None))))"

section \<open>The catching-up replayer (catching_up_replayer.go)\<close>

text \<open>
  \<^verbatim>\<open>Replay\<close> selects between the end of the context, the error channel and the event channel of a read
  of the cache. The reader is a goroutine of its own: \<open>pend\<close> are the events it still has to deliver
  and \<open>er\<close> the error it sends at the end. A schedule says what happens: the context ends (\<open>Cancel\<close>),
  the reader notices it and stops with \<open>n\<close> of the remaining events in the channel (\<open>ReaderStop\<close>; the
  channel holds 64), or \<^verbatim>\<open>select\<close> takes one of its cases at some time. A case that is not ready is not
  taken. The loop returns \<^const>\<open>None\<close> when the schedule ends before it does.
\<close>

record ReplayerConfig =
  rc_BatchSize :: int
  rc_UpsertDuration :: int

record ReplayResult =
  rr_CaughtUp :: bool
  rr_LastGTID :: string
  rr_LastEventSeq :: int
  rr_EventsApplied :: int

definition ReplayResult_zero :: ReplayResult where
  "ReplayResult_zero = \<lparr> rr_CaughtUp = False, rr_LastGTID = [], rr_LastEventSeq = 0, rr_EventsApplied = 0 \<rparr>"

datatype select_step =
    Cancel err
  | ReaderStop nat
  | TakeDone
  | TakeErr
  | TakeEvent gotime

definition mark_upsert :: "gotime \<Rightarrow> gotime \<Rightarrow> ChangeEvent \<Rightarrow> ChangeEvent" where
  "mark_upsert now upsertUntil ev =
     (if now < upsertUntil
      then ev\<lparr> ev_Metadata := Some (AList.update ''_write_mode'' ''upsert''
             (case ev_Metadata ev of None \<Rightarrow> [] | Some md \<Rightarrow> md)) \<rparr>
      else ev)"

fun replay_loop ::
  "(bytes \<Rightarrow> ChangeEvent res) \<Rightarrow> ('k \<Rightarrow> ChangeEvent list \<Rightarrow> 'k \<times> err option) \<Rightarrow> gotime \<Rightarrow> select_step list
     \<Rightarrow> CacheEvent list \<Rightarrow> err option \<Rightarrow> err option \<Rightarrow> 'k \<Rightarrow> ReplayResult
     \<Rightarrow> ('k \<times> ReplayResult \<times> err option) option" where
  "replay_loop deserialize write until [] pend er ctx sink result = None"
| "replay_loop deserialize write until (Cancel e # sched) pend er ctx sink result =
     replay_loop deserialize write until sched pend er (if ctx = None then Some e else ctx) sink result"
| "replay_loop deserialize write until (ReaderStop n # sched) pend er ctx sink result =
     (if ctx \<noteq> None \<and> n < length pend \<and> n \<le> 64
      then replay_loop deserialize write until sched (take n pend) None ctx sink result
      else replay_loop deserialize write until sched pend er ctx sink result)"
| "replay_loop deserialize write until (TakeDone # sched) pend er ctx sink result =
     (case ctx of
        None \<Rightarrow> replay_loop deserialize write until sched pend er ctx sink result
      | Some e \<Rightarrow> Some (sink, result\<lparr> rr_CaughtUp := False \<rparr>, Some e))"
| "replay_loop deserialize write until (TakeErr # sched) pend er ctx sink result =
     (case er of
        Some e \<Rightarrow>
          if length pend \<le> 64 then Some (sink, result, Some e)
          else replay_loop deserialize write until sched pend er ctx sink result
      | None \<Rightarrow> replay_loop deserialize write until sched pend er ctx sink result)"
| "replay_loop deserialize write until (TakeEvent now # sched) pend er ctx sink result =
     (case pend of
        [] \<Rightarrow> Some (sink, result\<lparr> rr_CaughtUp := True \<rparr>, None)
      | ev # pend \<Rightarrow>
          (case deserialize (ce_Payload ev) of
             Inl e \<Rightarrow> Some (sink, result, Some e)
           | Inr changeEvent \<Rightarrow>
               (case write sink [mark_upsert now until changeEvent] of
                  (sink, Some e) \<Rightarrow> Some (sink, result, Some e)
                | (sink, None) \<Rightarrow>
                    replay_loop deserialize write until sched pend er ctx sink
                      (result\<lparr> rr_LastGTID := ce_TxID ev, rr_LastEventSeq := ce_EventSeq ev,
                              rr_EventsApplied := rr_EventsApplied result + 1 \<rparr>))))"

definition Replay ::
  "(bytes \<Rightarrow> CacheEvent res) \<Rightarrow> (bytes \<Rightarrow> ChangeEvent res) \<Rightarrow> ('k \<Rightarrow> ChangeEvent list \<Rightarrow> 'k \<times> err option)
     \<Rightarrow> ReplayerConfig \<Rightarrow> OS \<Rightarrow> gotime \<Rightarrow> select_step list \<Rightarrow> LocalBackend \<Rightarrow> 'k \<Rightarrow> string \<Rightarrow> string \<Rightarrow> int
     \<Rightarrow> ('k \<times> ReplayResult \<times> err option) option" where
  "Replay unmarshal deserialize write config os start sched cache sink tableID fromTxID fromEventSeq =
     (let (evs, er) = lb_Read unmarshal os cache tableID fromTxID fromEventSeq
      in replay_loop deserialize write (start + rc_UpsertDuration config) sched evs er None sink ReplayResult_zero)"

section \<open>The pipeline (pipeline_integration.go)\<close>

text \<open>
  \<^verbatim>\<open>routeEvents\<close> reads the event channel until it is closed or the pipeline is stopped. What the two
  channels deliver is the list \<open>ins\<close>: events, or the stop signal. Errors of \<^verbatim>\<open>Route\<close> are discarded; a
  panic ends the program.
\<close>

datatype pipe_in = PipeEvent ChangeEvent | PipeStop

fun routeEvents ::
  "('s, 'k) ConsumerDeps \<Rightarrow> OS \<Rightarrow> (nat \<Rightarrow> gotime) \<Rightarrow> nat \<Rightarrow> ('s, 'k) BinlogConsumer \<Rightarrow> pipe_in list
     \<Rightarrow> ('s, 'k) BinlogConsumer res" where
  "routeEvents deps os now i c [] = Inr c"
| "routeEvents deps os now i c (PipeStop # ins) = Inr c"
| "routeEvents deps os now i c (PipeEvent ev # ins) =
     (case Route deps os (now i) c ev of
        (c, Some (Panic p)) \<Rightarrow> Inl (Panic p)
      | (c, _) \<Rightarrow> routeEvents deps os now (i + 1) c ins)"

section \<open>Hash chunks (hash_chunker.go)\<close>

definition join_or_one :: "string list \<Rightarrow> string \<Rightarrow> string" where
  "join_or_one parts sep = (if length parts = 1 then parts ! 0 else strings_Join parts sep)"

definition buildMySQL :: "int \<Rightarrow> string \<Rightarrow> string \<Rightarrow> string list \<Rightarrow> int \<Rightarrow> string" where
  "buildMySQL workers schema table pkCols workerID =
     (let q = [CHR 0x60]; quoted = map (\<lambda>col. q @ col @ q) pkCols in
      ''SELECT * FROM '' @ q @ schema @ q @ ''.'' @ q @ table @ q @ '' WHERE MOD(CRC32(CONCAT('' @
      strings_Join quoted '','' @ '')), '' @ Itoa workers @ '') = '' @ Itoa workerID)"

definition buildPostgres :: "int \<Rightarrow> string \<Rightarrow> string \<Rightarrow> string list \<Rightarrow> int \<Rightarrow> string" where
  "buildPostgres workers schema table pkCols workerID =
     (let parts = map (\<lambda>col. Quote col @ ''::text'') pkCols in
      ''SELECT * FROM '' @ Quote schema @ ''.'' @ Quote table @ '' WHERE MOD(hashtext('' @
      join_or_one parts '' || '' @ ''), '' @ Itoa workers @ '') = '' @ Itoa workerID)"

definition buildOracle :: "int \<Rightarrow> string \<Rightarrow> string \<Rightarrow> string list \<Rightarrow> int \<Rightarrow> string" where
  "buildOracle workers schema table pkCols workerID =
     (let quoted = map Quote pkCols in
      ''SELECT * FROM '' @ Quote schema @ ''.'' @ Quote table @ '' WHERE MOD(ORA_HASH('' @
      join_or_one quoted '' || '' @ ''), '' @ Itoa workers @ '') = '' @ Itoa workerID)"

definition buildSQLServer :: "int \<Rightarrow> string \<Rightarrow> string \<Rightarrow> string list \<Rightarrow> int \<Rightarrow> string" where
  "buildSQLServer workers schema table pkCols workerID =
     (let quoted = map (\<lambda>col. ''['' @ col @ '']'') pkCols in
      ''SELECT * FROM ['' @ schema @ ''].['' @ table @ ''] WHERE ABS(CHECKSUM('' @
      strings_Join quoted '','' @ '')) % '' @ Itoa workers @ '' = '' @ Itoa workerID)"

definition BuildChunkSQL :: "int \<Rightarrow> string \<Rightarrow> string \<Rightarrow> string list \<Rightarrow> int \<Rightarrow> string \<Rightarrow> string" where
  "BuildChunkSQL workers schema table pkCols workerID dbType =
     (let t = ToLower dbType in
      if t = ''mysql'' \<or> t = ''mariadb'' then buildMySQL workers schema table pkCols workerID
      else if t = ''postgres'' then buildPostgres workers schema table pkCols workerID
      else if t = ''oracle'' then buildOracle workers schema table pkCols workerID
      else if t = ''sqlserver'' then buildSQLServer workers schema table pkCols workerID
      else [])"

end
