(* ===== verification/Ddl_Handling.thy ===== *)
theory Ddl_Handling
  imports Consumer
begin

section \<open>What the consumer needs of the target store\<close>

text \<open>
  The consumer's handling of DDL rests on the \<^verbatim>\<open>ddl_state\<close> row of a table: a row just saved is loaded
  with the same statement, status and retry count, a deleted one is gone, and saving schema history
  leaves the rows alone. The locale states these laws; \<open>savable\<close> and \<open>recordable_row\<close> say which values
  the store can encode. The store on MySQL gives them when the database has no fault.
\<close>

locale ddl_store =
  fixes ts :: "'s TargetStore"
    and savable :: "TableInfo option \<Rightarrow> bool"
    and recordable_row :: "SchemaHistoryRow \<Rightarrow> bool"
  assumes save_load: "savable (ds_LastSuccessInfo r) \<Longrightarrow>
      \<exists>s' r'. ts_SaveDDLState ts s r = (s', None)
        \<and> ts_LoadDDLState ts s' (ds_DBName r) (ds_TableName r) = Inr (Some r')
        \<and> ds_DDL r' = ds_DDL r \<and> ds_Status r' = ds_Status r \<and> ds_RetryCount r' = ds_RetryCount r"
    and delete_load: "\<exists>s'. ts_DeleteDDLState ts s db tbl = (s', None) \<and> ts_LoadDDLState ts s' db tbl = Inr None"
    and history_saves: "recordable_row row \<Longrightarrow> \<exists>s'. ts_SaveSchemaHistory ts s row = (s', None)"
begin

text \<open>The state in which a failed statement of a table waits.\<close>

definition failed_once :: "'s \<Rightarrow> string \<Rightarrow> string \<Rightarrow> string \<Rightarrow> bool" where
  "failed_once s db tbl ddl =
     (\<exists>r. ts_LoadDDLState ts s db tbl = Inr (Some r) \<and> ds_Status r = ''failed'' \<and> ds_RetryCount r = 1
        \<and> ds_DDL r = ddl)"

lemma save_row:
  assumes "savable lastInfo"
  obtains s' r' where "ts_SaveDDLState ts s (ddl_state_row db tbl ddl lastInfo st msg n) = (s', None)"
    "ts_LoadDDLState ts s' db tbl = Inr (Some r')" "ds_DDL r' = ddl" "ds_Status r' = st" "ds_RetryCount r' = n"
  using save_load [of "ddl_state_row db tbl ddl lastInfo st msg n" s] assms
  by (auto simp: ddl_state_row_def)

text \<open>After \<^verbatim>\<open>applying\<close> has been saved, a failure is always counted as the first one.\<close>

lemma failure_counts_one:
  assumes "savable lastInfo"
    and "ts_LoadDDLState ts (bc_ddlStore c) db tbl = Inr (Some r0)" "ds_RetryCount r0 = 0"
  shows "\<exists>c'. handleDDLFailure ts now c db tbl ddl lastInfo e
        = (c', Some (Wrapf (''DDL failed for '' @ db @ ''.'' @ tbl) e))
    \<and> failed_once (bc_ddlStore c') db tbl ddl \<and> bc_sink c' = bc_sink c \<and> bc_tables c' = bc_tables c
    \<and> bc_cache c' = bc_cache c \<and> bc_taskID c' = bc_taskID c
    \<and> bc_store c' = (case ls_Get (bc_store c) (bc_taskID c) (short_tid db tbl) of
         Inl _ \<Rightarrow> bc_store c
       | Inr lc \<Rightarrow> ls_Save (bc_store c) (bc_taskID c) (or_same lc (Pause lc now)))"
proof -
  obtain s' r' where s': "ts_SaveDDLState ts (bc_ddlStore c)
        (ddl_state_row db tbl ddl lastInfo ''failed'' (Error e) 1) = (s', None)"
    "ts_LoadDDLState ts s' db tbl = Inr (Some r')" "ds_DDL r' = ddl" "ds_Status r' = ''failed''" "ds_RetryCount r' = 1"
    by (rule save_row [OF assms(1)])
  then show ?thesis
    using assms(2,3) by (auto simp: handleDDLFailure_def failed_once_def Let_def split: sum.split)
qed

text \<open>
  One pass of \<^verbatim>\<open>handleDDL\<close> that fails, in the parser or at the sink: the statement waits as failed once,
  and the definitions of the tables are as before.
\<close>

lemma handleDDL_fails:
  assumes deps: "cd_applyDDL deps = Some ap" "cd_ddlRecords deps" "cd_ddlStore deps = Some ts" "bc_tables c = Some tables"
    and ev: "ti_Database (ev_Table ev) = db" "ti_Table (ev_Table ev) = tbl"
      "ev_Metadata ev = Some md" "map_of md ''ddl'' = Some ddl" "ddl \<noteq> []"
    and sv: "savable (Tables_Get tables db tbl)"
    and fail: "(\<exists>r. ap (Tables_Get tables db tbl) ddl = Inr r) \<and> cd_write deps (bc_sink c) [ev] = (k, Some e)
      \<or> ap (Tables_Get tables db tbl) ddl = Inl e \<and> (\<forall>p. e \<noteq> Panic p) \<and> k = bc_sink c"
  shows "\<exists>c'. handleDDL deps now c ev = (c', Some (Wrapf (''DDL failed for '' @ db @ ''.'' @ tbl) e))
    \<and> failed_once (bc_ddlStore c') db tbl ddl \<and> bc_sink c' = k \<and> bc_tables c' = bc_tables c
    \<and> bc_cache c' = bc_cache c \<and> bc_taskID c' = bc_taskID c
    \<and> bc_store c' = (case ls_Get (bc_store c) (bc_taskID c) (short_tid db tbl) of
         Inl _ \<Rightarrow> bc_store c
       | Inr lc \<Rightarrow> ls_Save (bc_store c) (bc_taskID c) (or_same lc (Pause lc now)))"
proof -
  let ?old = "Tables_Get tables db tbl"
  obtain s1 r1 where s1: "ts_SaveDDLState ts (bc_ddlStore c) (ddl_state_row db tbl ddl ?old ''applying'' [] 0) = (s1, None)"
    "ts_LoadDDLState ts s1 db tbl = Inr (Some r1)" "ds_RetryCount r1 = 0"
    by (rule save_row [OF sv])
  let ?c = "c\<lparr> bc_ddlStore := s1, bc_sink := k \<rparr>"
  have "handleDDL deps now c ev = handleDDLFailure ts now ?c db tbl ddl ?old e"
    using fail deps ev s1 by (cases e) (auto simp: handleDDL_def Let_def)
  then show ?thesis
    using failure_counts_one [OF sv, of ?c db tbl r1 now ddl e] s1 by (simp cong: sum.case_cong)
qed

end

lemma SaveDDLState_fine:
  assumes "case ds_LastSuccessInfo r of None \<Rightarrow> True | Some _ \<Rightarrow> \<exists>d. marshalTI (ds_LastSuccessInfo r) = Inr d"
  shows "\<exists>row. SaveDDLState coll marshalTI db_fine s r
        = (s\<lparr> db_ddl := AList.update (coll (ds_DBName r), coll (ds_TableName r)) row (db_ddl s) \<rparr>, None)
    \<and> dd_ddl row = ds_DDL r \<and> dd_status row = ds_Status r \<and> dd_retry row = ds_RetryCount r"
  using assms by (auto simp: SaveDDLState_def Let_def split: option.splits)

interpretation mysql_ddl: ddl_store "mysql_ops coll marshalPos marshalTI unmarshalTI jsoncol stamp db_fine"
  "\<lambda>ti. case ti of None \<Rightarrow> True | Some _ \<Rightarrow> \<exists>d. marshalTI ti = Inr d"
  "\<lambda>row. (\<exists>d. marshalPos (Some (sh_Position row)) = Inr d) \<and> (\<exists>d. marshalTI (sh_TableInfo row) = Inr d)"
  for coll marshalPos marshalTI unmarshalTI jsoncol stamp
proof
  fix r :: DDLStateRow and s
  assume "case ds_LastSuccessInfo r of None \<Rightarrow> True | Some _ \<Rightarrow> \<exists>d. marshalTI (ds_LastSuccessInfo r) = Inr d"
  then show "\<exists>s' r'. ts_SaveDDLState (mysql_ops coll marshalPos marshalTI unmarshalTI jsoncol stamp db_fine) s r = (s', None)
      \<and> ts_LoadDDLState (mysql_ops coll marshalPos marshalTI unmarshalTI jsoncol stamp db_fine) s'
          (ds_DBName r) (ds_TableName r) = Inr (Some r')
      \<and> ds_DDL r' = ds_DDL r \<and> ds_Status r' = ds_Status r \<and> ds_RetryCount r' = ds_RetryCount r"
    using SaveDDLState_fine [where r = r and marshalTI = marshalTI and coll = coll and s = s]
    by (auto simp: mysql_ops_def LoadDDLState_def ddl_row_def)
next
  show "\<exists>s'. ts_DeleteDDLState (mysql_ops coll marshalPos marshalTI unmarshalTI jsoncol stamp db_fine) s db tbl = (s', None)
      \<and> ts_LoadDDLState (mysql_ops coll marshalPos marshalTI unmarshalTI jsoncol stamp db_fine) s' db tbl = Inr None"
    for s db tbl
    by (simp add: mysql_ops_def DeleteDDLState_def LoadDDLState_def delete_conv')
next
  fix row :: SchemaHistoryRow and s
  assume "(\<exists>d. marshalPos (Some (sh_Position row)) = Inr d) \<and> (\<exists>d. marshalTI (sh_TableInfo row) = Inr d)"
  then show "\<exists>s'. ts_SaveSchemaHistory (mysql_ops coll marshalPos marshalTI unmarshalTI jsoncol stamp db_fine) s row = (s', None)"
    by (auto simp: mysql_ops_def SaveSchemaHistory_def)
qed

section \<open>Retries\<close>

lemma or_same_key:
  "tl_TableID (or_same lc (Pause lc now)) = tl_TableID lc" "tl_TableID (or_same lc (Resume lc now)) = tl_TableID lc"
  by (auto simp: or_same_def Pause_def Resume_def split: sum.split)

context ddl_store
begin

text \<open>A table with a failed statement, as the consumer finds it at the next event of the table.\<close>

definition waiting :: "('s, 'k) BinlogConsumer \<Rightarrow> Tables \<Rightarrow> string \<Rightarrow> string \<Rightarrow> string \<Rightarrow> bool" where
  "waiting c tables db tbl ddl =
     (failed_once (bc_ddlStore c) db tbl ddl \<and> bc_tables c = Some tables \<and> ls_invar (bc_store c)
      \<and> ls_lookup (bc_store c) (bc_taskID c) (short_tid db tbl) \<noteq> None)"

lemma failed_then_waiting:
  assumes "failed_once (bc_ddlStore c') db tbl ddl" "bc_tables c' = Some tables" "bc_taskID c' = bc_taskID c"
    and "bc_store c' = (case ls_Get (bc_store c) (bc_taskID c) (short_tid db tbl) of
         Inl _ \<Rightarrow> bc_store c
       | Inr lc \<Rightarrow> ls_Save (bc_store c) (bc_taskID c) (or_same lc (Pause lc now)))"
    and "ls_invar (bc_store c)" "ls_lookup (bc_store c) (bc_taskID c) (short_tid db tbl) \<noteq> None"
  shows "waiting c' tables db tbl ddl"
proof (rule ls_Get_cases [of "bc_store c" "bc_taskID c" "short_tid db tbl"])
  fix lc assume lc: "ls_lookup (bc_store c) (bc_taskID c) (short_tid db tbl) = Some lc"
    "ls_Get (bc_store c) (bc_taskID c) (short_tid db tbl) = Inr lc"
  have "tl_TableID lc = short_tid db tbl" using mem.get_key [OF assms(5) lc(1)] .
  with assms lc show ?thesis
    by (simp add: waiting_def mem.get_save mem.invar_save or_same_key)
qed (use assms in simp)

lemma waiting_retries:
  fixes deps :: "('s, ChangeEvent list) ConsumerDeps"
  assumes deps: "cd_applyDDL deps = Some ap" "cd_ddlRecords deps" "cd_ddlStore deps = Some ts"
    and down: "cd_write deps = (\<lambda>k evs. (k @ evs, Some e))"
    and ap: "ap (Tables_Get tables db tbl) ddl = Inr r" and sv: "savable (Tables_Get tables db tbl)" and ddl: "ddl \<noteq> []"
    and w: "waiting c tables db tbl ddl"
    and dml: "\<not> IsDDL dml" "ti_Database (ev_Table dml) = db" "ti_Table (ev_Table dml) = tbl"
  shows "waiting (fst (Route deps os now c dml)) tables db tbl ddl
    \<and> bc_sink (fst (Route deps os now c dml)) = bc_sink c @ [retry_event db tbl ddl]
    \<and> bc_cache (fst (Route deps os now c dml)) = bc_cache c"
proof -
  obtain r0 where r0: "ts_LoadDDLState ts (bc_ddlStore c) db tbl = Inr (Some r0)" "ds_Status r0 = ''failed''"
    "ds_RetryCount r0 = 1" "ds_DDL r0 = ddl" using w by (auto simp: waiting_def failed_once_def)
  obtain lc where lc: "ls_lookup (bc_store c) (bc_taskID c) (short_tid db tbl) = Some lc"
    "ls_Get (bc_store c) (bc_taskID c) (short_tid db tbl) = Inr lc"
    using w by (auto simp: waiting_def ls_Get_Inr)
  have inv: "ls_invar (bc_store c)" using w by (simp add: waiting_def)
  have key: "tl_TableID lc = short_tid db tbl" using mem.get_key [OF inv lc(1)] .
  let ?c = "c\<lparr> bc_store := ls_Save (bc_store c) (bc_taskID c) (or_same lc (Resume lc now)) \<rparr>"
  have inv1: "ls_invar (bc_store ?c)" "ls_lookup (bc_store ?c) (bc_taskID ?c) (short_tid db tbl) \<noteq> None"
    by (simp_all add: mem.invar_save [OF inv] mem.get_save [OF inv] or_same_key key)
  have tb: "bc_tables ?c = Some tables" using w by (simp add: waiting_def)
  have "\<exists>c'. handleDDL deps now ?c (retry_event db tbl ddl)
        = (c', Some (Wrapf (''DDL failed for '' @ db @ ''.'' @ tbl) e))
      \<and> failed_once (bc_ddlStore c') db tbl ddl \<and> bc_sink c' = bc_sink c @ [retry_event db tbl ddl]
      \<and> bc_tables c' = bc_tables ?c \<and> bc_cache c' = bc_cache ?c \<and> bc_taskID c' = bc_taskID ?c
      \<and> bc_store c' = (case ls_Get (bc_store ?c) (bc_taskID ?c) (short_tid db tbl) of
           Inl _ \<Rightarrow> bc_store ?c
         | Inr lc \<Rightarrow> ls_Save (bc_store ?c) (bc_taskID ?c) (or_same lc (Pause lc now)))"
    by (rule handleDDL_fails [where md = "[(''ddl'', ddl)]", OF deps tb _ _ _ _ ddl sv])
      (simp_all add: retry_event_def ap down)
  then obtain c' where c': "handleDDL deps now ?c (retry_event db tbl ddl)
        = (c', Some (Wrapf (''DDL failed for '' @ db @ ''.'' @ tbl) e))"
      "failed_once (bc_ddlStore c') db tbl ddl" "bc_sink c' = bc_sink c @ [retry_event db tbl ddl]"
      "bc_tables c' = bc_tables ?c" "bc_cache c' = bc_cache ?c" "bc_taskID c' = bc_taskID ?c"
      "bc_store c' = (case ls_Get (bc_store ?c) (bc_taskID ?c) (short_tid db tbl) of
           Inl _ \<Rightarrow> bc_store ?c
         | Inr lc \<Rightarrow> ls_Save (bc_store ?c) (bc_taskID ?c) (or_same lc (Pause lc now)))"
    by blast
  have "checkDDLState deps now c db tbl = (c', Inr True)"
    using deps(3) r0 lc c'(1) by (simp add: checkDDLState_def maxDDLRetries_def Let_def)
  then have route: "Route deps os now c dml = (c', None)"
    using dml by (simp add: Route_def event_tid_def Let_def)
  have "waiting c' tables db tbl ddl"
    by (rule failed_then_waiting [OF c'(2) _ c'(6,7) inv1]) (use c'(4) tb in simp)
  with route c'(3,5) show ?thesis by simp
qed

lemma waiting_run:
  fixes deps :: "('s, ChangeEvent list) ConsumerDeps" and os :: OS and now :: gotime
  assumes deps: "cd_applyDDL deps = Some ap" "cd_ddlRecords deps" "cd_ddlStore deps = Some ts"
    and down: "cd_write deps = (\<lambda>k evs. (k @ evs, Some e))"
    and ap: "ap (Tables_Get tables db tbl) ddl = Inr r" and sv: "savable (Tables_Get tables db tbl)" and ddl: "ddl \<noteq> []"
    and w: "waiting c tables db tbl ddl"
    and dmls: "list_all (\<lambda>d. \<not> IsDDL d \<and> ti_Database (ev_Table d) = db \<and> ti_Table (ev_Table d) = tbl) dmls"
  defines "c' \<equiv> foldl (\<lambda>c x. fst (Route deps os now c x)) c dmls"
  shows "waiting c' tables db tbl ddl
    \<and> bc_sink c' = bc_sink c @ replicate (length dmls) (retry_event db tbl ddl) \<and> bc_cache c' = bc_cache c"
  unfolding c'_def using w dmls
proof (induction dmls arbitrary: c)
  case (Cons d dmls)
  from Cons.prems(2) have d: "\<not> IsDDL d" "ti_Database (ev_Table d) = db" "ti_Table (ev_Table d) = tbl" by simp_all
  note step = waiting_retries [OF deps down ap sv ddl Cons.prems(1) d, of os now]
  from Cons.IH [of "fst (Route deps os now c d)"] step Cons.prems(2) show ?case by simp
qed simp

end

text \<open>
  C34. The limit on DDL retries does not limit anything. Let the parser accept a statement and the sink
  refuse it (it records what it is offered). Route the DDL event and then any number of row events of
  the table: the sink is offered the statement again for every one of them, however many, and the
  stored retry count is still 1 afterwards, so the limit \<^verbatim>\<open>maxDDLRetries\<close> is never reached. No row
  event of the table reaches the sink or the cache.
\<close>

theorem ddl_retries_unbounded:
  fixes deps :: "(MySQLStore, ChangeEvent list) ConsumerDeps"
    and coll :: "string \<Rightarrow> string" and os :: OS and now :: gotime
    and c :: "(MySQLStore, ChangeEvent list) BinlogConsumer" and ev :: ChangeEvent and dmls :: "ChangeEvent list"
  assumes deps: "cd_applyDDL deps = Some ap" "cd_ddlRecords deps"
      "cd_ddlStore deps = Some (mysql_ops coll marshalPos marshalTI unmarshalTI jsoncol stamp db_fine)"
    and down: "cd_write deps = (\<lambda>k evs. (k @ evs, Some e))"
    and ap: "ap (Tables_Get tables db tbl) ddl = Inr r" and ddl: "ddl \<noteq> []"
    and sv: "case Tables_Get tables db tbl of None \<Rightarrow> True | Some ti \<Rightarrow> \<exists>d. marshalTI (Some ti) = Inr d"
    and c: "bc_tables c = Some tables" "ls_invar (bc_store c)"
      "ls_lookup (bc_store c) (bc_taskID c) (short_tid db tbl) \<noteq> None"
    and ev: "IsDDL ev" "ti_Database (ev_Table ev) = db" "ti_Table (ev_Table ev) = tbl"
      "ev_Metadata ev = Some md" "map_of md ''ddl'' = Some ddl"
    and dmls: "list_all (\<lambda>d. \<not> IsDDL d \<and> ti_Database (ev_Table d) = db \<and> ti_Table (ev_Table d) = tbl) dmls"
  defines "c' \<equiv> foldl (\<lambda>c x. fst (Route deps os now c x)) c (ev # dmls)"
  shows "bc_sink c' = bc_sink c @ ev # replicate (length dmls) (retry_event db tbl ddl)
    \<and> bc_cache c' = bc_cache c
    \<and> (\<exists>row. LoadDDLState coll unmarshalTI jsoncol stamp db_fine (bc_ddlStore c') db tbl = Inr (Some row)
          \<and> ds_RetryCount row = 1 \<and> ds_RetryCount row < maxDDLRetries)"
proof -
  let ?ts = "mysql_ops coll marshalPos marshalTI unmarshalTI jsoncol stamp db_fine"
  have sv': "case Tables_Get tables db tbl of None \<Rightarrow> True | Some _ \<Rightarrow> \<exists>d. marshalTI (Tables_Get tables db tbl) = Inr d"
    using sv by (simp split: option.splits)
  have fail: "(\<exists>r. ap (Tables_Get tables db tbl) ddl = Inr r) \<and> cd_write deps (bc_sink c) [ev] = (bc_sink c @ [ev], Some e)
      \<or> ap (Tables_Get tables db tbl) ddl = Inl e \<and> (\<forall>p. e \<noteq> Panic p) \<and> bc_sink c @ [ev] = bc_sink c"
    using ap down by simp
  from mysql_ddl.handleDDL_fails [OF deps c(1) ev(2-5) ddl sv' fail, of now]
  obtain c1 where c1: "handleDDL deps now c ev = (c1, Some (Wrapf (''DDL failed for '' @ db @ ''.'' @ tbl) e))"
    "mysql_ddl.failed_once coll marshalPos marshalTI unmarshalTI jsoncol stamp (bc_ddlStore c1) db tbl ddl"
    "bc_sink c1 = bc_sink c @ [ev]" "bc_tables c1 = bc_tables c" "bc_cache c1 = bc_cache c" "bc_taskID c1 = bc_taskID c"
    "bc_store c1 = (case ls_Get (bc_store c) (bc_taskID c) (short_tid db tbl) of
         Inl _ \<Rightarrow> bc_store c
       | Inr lc \<Rightarrow> ls_Save (bc_store c) (bc_taskID c) (or_same lc (Pause lc now)))"
    by blast
  have w: "mysql_ddl.waiting coll marshalPos marshalTI unmarshalTI jsoncol stamp c1 tables db tbl ddl"
    by (rule mysql_ddl.failed_then_waiting [OF c1(2) _ c1(6,7) c(2,3)]) (use c1(4) c(1) in simp)
  from mysql_ddl.waiting_run [OF deps down ap sv' ddl w dmls, of os now]
  have run: "mysql_ddl.waiting coll marshalPos marshalTI unmarshalTI jsoncol stamp c' tables db tbl ddl"
    "bc_sink c' = bc_sink c1 @ replicate (length dmls) (retry_event db tbl ddl)" "bc_cache c' = bc_cache c1"
    using c1(1) ev(1) by (simp_all add: c'_def Route_def)
  from run(1) obtain row where "ts_LoadDDLState ?ts (bc_ddlStore c') db tbl = Inr (Some row)" "ds_RetryCount row = 1"
    by (auto simp: mysql_ddl.waiting_def mysql_ddl.failed_once_def)
  then have "\<exists>row. LoadDDLState coll unmarshalTI jsoncol stamp db_fine (bc_ddlStore c') db tbl = Inr (Some row)
          \<and> ds_RetryCount row = 1 \<and> ds_RetryCount row < maxDDLRetries"
    by (simp add: mysql_ops_def maxDDLRetries_def)
  with run(2,3) c1(3,5) show ?thesis by simp
qed

text \<open>A consumer for the witnesses: table \<^verbatim>\<open>db.a\<close> streams, the parser knows one statement.\<close>

definition wit_consumer :: "(MySQLStore, ChangeEvent list) BinlogConsumer" where
  "wit_consumer =
     \<lparr> bc_taskID = ''task'', bc_store = ss_store (wit_sched TableStateStreaming), bc_cache = lb_fresh SyncModeNone,
       bc_sink = [], bc_sourceType = SourceTypeMySQLGTID, bc_tables = Some NewTables, bc_ddlStore = MySQLStore_empty \<rparr>"

definition wit_deps :: "(string \<Rightarrow> Root) \<Rightarrow> err option \<Rightarrow> (MySQLStore, ChangeEvent list) ConsumerDeps" where
  "wit_deps parse answer =
     \<lparr> cd_applyDDL = Some (mysql_apply parse), cd_ddlRecords = True,
       cd_ddlStore = Some (mysql_ops id wit_marshalPos wit_marshalTI wit_unmarshalTI id (\<lambda>_. (0, 0)) db_fine),
       cd_write = (\<lambda>k evs. (k @ evs, answer)),
       cd_marshalEvent = (\<lambda>_. Inr []), cd_marshalPos = (\<lambda>_. Inr []), cd_marshalCache = (\<lambda>_. Inr []) \<rparr>"

definition wit_row_event :: ChangeEvent where
  "wit_row_event = (retry_event ''db'' ''a'' [])\<lparr> ev_Type := EventTypeInsert, ev_Metadata := None \<rparr>"

lemma wit_consumer_simps [simp]:
  "bc_tables wit_consumer = Some NewTables" "bc_sink wit_consumer = []" "bc_ddlStore wit_consumer = MySQLStore_empty"
  "bc_taskID wit_consumer = ''task''" "bc_store wit_consumer = ss_store (wit_sched TableStateStreaming)"
  by (simp_all add: wit_consumer_def)

lemma wit_deps_simps [simp]:
  "cd_applyDDL (wit_deps parse e) = Some (mysql_apply parse)" "cd_ddlRecords (wit_deps parse e)"
  "cd_ddlStore (wit_deps parse e) = Some (mysql_ops id wit_marshalPos wit_marshalTI wit_unmarshalTI id (\<lambda>_. (0, 0)) db_fine)"
  "cd_write (wit_deps parse e) = (\<lambda>k evs. (k @ evs, e))"
  by (simp_all add: wit_deps_def)

lemma retry_event_simps [simp]:
  "IsDDL (retry_event db tbl ddl)" "ti_Database (ev_Table (retry_event db tbl ddl)) = db"
  "ti_Table (ev_Table (retry_event db tbl ddl)) = tbl" "ev_Metadata (retry_event db tbl ddl) = Some [(''ddl'', ddl)]"
  by (simp_all add: retry_event_def IsDDL_def)

lemma wit_row_event_simps [simp]:
  "\<not> IsDDL wit_row_event" "ti_Database (ev_Table wit_row_event) = ''db''" "ti_Table (ev_Table wit_row_event) = ''a''"
  by (simp_all add: wit_row_event_def IsDDL_def)

lemma wit_lookup: "ls_lookup (ss_store (wit_sched st)) ''task'' (short_tid ''db'' ''a'') = Some (wit_lc ''a'' st)"
  using wit_sched_lookup(1) [of st]
  by (simp add: short_tid_def wit_tid_def wit_sched_def NewSnapshotScheduler_def)

lemma wit_create_apply: "\<exists>r. mysql_apply wit_create None ddl = Inr r"
  by (simp add: mysql_apply_def mysql_ApplyDDL_def ApplyDDL_def Parse_def VisitRoot_def VisitSqlStatement_def
      wit_create_def DDLResults_Add_def VisitColumnCreateTable_def Let_def)

theorem ddl_retries_unbounded_witness:
  "bc_sink (foldl (\<lambda>c x. fst (Route (wit_deps wit_create (Some EOF)) os_fine 7 c x)) wit_consumer
       (retry_event ''db'' ''a'' ''create'' # replicate 5 wit_row_event))
     = replicate 6 (retry_event ''db'' ''a'' ''create'')"
proof -
  obtain r where r: "mysql_apply wit_create (Tables_Get NewTables ''db'' ''a'') ''create'' = Inr r"
    using wit_create_apply [of "''create''"] by (auto simp: Tables_Get_def NewTables_def)
  have sv: "case Tables_Get NewTables ''db'' ''a'' of None \<Rightarrow> True | Some ti \<Rightarrow> \<exists>d. wit_marshalTI (Some ti) = Inr d"
    by (simp add: Tables_Get_def NewTables_def)
  have "bc_sink (foldl (\<lambda>c x. fst (Route (wit_deps wit_create (Some EOF)) os_fine 7 c x)) wit_consumer
       (retry_event ''db'' ''a'' ''create'' # replicate 5 wit_row_event))
     = bc_sink wit_consumer @ retry_event ''db'' ''a'' ''create'' #
         replicate (length (replicate 5 wit_row_event)) (retry_event ''db'' ''a'' ''create'')"
    by (rule conjunct1 [OF ddl_retries_unbounded [where ap = "mysql_apply wit_create" and tables = NewTables and db = "''db''" and tbl = "''a''"
        and ddl = "''create''" and marshalTI = wit_marshalTI and marshalPos = wit_marshalPos and md = "[(''ddl'', ''create'')]", OF _ _ _ _ r _ sv]])
      (simp_all add: wit_lookup wit_sched_inv list_all_iff)
  then show ?thesis by (simp add: numeral_eq_Suc)
qed

section \<open>Success\<close>

lemma handleDDL_accepted:
  fixes deps :: "(MySQLStore, 'k) ConsumerDeps"
  assumes deps: "cd_applyDDL deps = Some ap" "cd_ddlRecords deps"
      "cd_ddlStore deps = Some (mysql_ops coll marshalPos marshalTI unmarshalTI jsoncol stamp db_fine)"
    and c: "bc_tables c = Some tables"
    and ev: "ti_Database (ev_Table ev) = db" "ti_Table (ev_Table ev) = tbl"
      "ev_Metadata ev = Some md" "map_of md ''ddl'' = Some ddl" "ddl \<noteq> []"
    and ap: "ap (Tables_Get tables db tbl) ddl = Inr (Some r)" and sink: "cd_write deps (bc_sink c) [ev] = (k, None)"
    and json: "case Tables_Get tables db tbl of None \<Rightarrow> True | Some ti \<Rightarrow> \<exists>d. marshalTI (Some ti) = Inr d"
      "marshalPos (Some (ev_Position ev)) = Inr pd" "marshalTI (dres_NewTableInfo r) = Inr td"
  shows "\<exists>c' h. handleDDL deps now c ev = (c', None) \<and> bc_sink c' = k
    \<and> bc_tables c' = Some (case dres_NewTableInfo r of
         Some ti \<Rightarrow> Tables_Put tables ti | None \<Rightarrow> Tables_Remove tables db tbl)
    \<and> db_history (bc_ddlStore c') = db_history (bc_ddlStore c) @ [h]
    \<and> hd_ddl h = ddl \<and> hd_db h = db \<and> hd_tbl h = tbl \<and> hd_ct h = inferChangeType r (Tables_Get tables db tbl)
    \<and> LoadDDLState coll unmarshalTI jsoncol stamp db_fine (bc_ddlStore c') db tbl = Inr None
    \<and> bc_store c' = bc_store c \<and> bc_cache c' = bc_cache c"
proof -
  let ?row = "ddl_state_row db tbl ddl (Tables_Get tables db tbl) ''applying'' [] 0"
  have "case ds_LastSuccessInfo ?row of None \<Rightarrow> True | Some _ \<Rightarrow> \<exists>d. marshalTI (ds_LastSuccessInfo ?row) = Inr d"
    using json(1) by (simp add: ddl_state_row_def split: option.splits)
  from SaveDDLState_fine [where r = ?row and marshalTI = marshalTI and coll = coll and s = "bc_ddlStore c", OF this]
  obtain row where row: "SaveDDLState coll marshalTI db_fine (bc_ddlStore c) ?row
      = ((bc_ddlStore c)\<lparr> db_ddl := AList.update (coll db, coll tbl) row (db_ddl (bc_ddlStore c)) \<rparr>, None)"
    by (auto simp: ddl_state_row_def)
  show ?thesis
    using deps c ev ap sink json(2,3)
    by (simp add: handleDDL_def mysql_ops_def row Let_def SaveSchemaHistory_def DeleteDDLState_def LoadDDLState_def)
qed

text \<open>
  C33. A DDL event that the parser and the sink accept: \<^verbatim>\<open>handleDDL\<close> returns without error, the sink has
  been given the event, the new definition is stored (or the table removed if there is none), one
  history record with the statement and the change type has been appended, no DDL state is left for
  the table, and the lifecycle store and the cache are as before.
\<close>

theorem handleDDL_success:
  fixes deps :: "(MySQLStore, 'k) ConsumerDeps"
  assumes deps: "cd_applyDDL deps = Some ap" "cd_ddlRecords deps"
      "cd_ddlStore deps = Some (mysql_ops coll marshalPos marshalTI unmarshalTI jsoncol stamp db_fine)"
    and c: "bc_tables c = Some tables"
    and ev: "ti_Database (ev_Table ev) = db" "ti_Table (ev_Table ev) = tbl"
      "ev_Metadata ev = Some md" "map_of md ''ddl'' = Some ddl" "ddl \<noteq> []"
    and ap: "ap (Tables_Get tables db tbl) ddl = Inr (Some r)" and sink: "cd_write deps (bc_sink c) [ev] = (k, None)"
    and json: "case Tables_Get tables db tbl of None \<Rightarrow> True | Some ti \<Rightarrow> \<exists>d. marshalTI (Some ti) = Inr d"
      "marshalPos (Some (ev_Position ev)) = Inr pd" "marshalTI (dres_NewTableInfo r) = Inr td"
  shows "\<exists>c' h. handleDDL deps now c ev = (c', None) \<and> bc_sink c' = k
    \<and> bc_tables c' = Some (case dres_NewTableInfo r of
         Some ti \<Rightarrow> Tables_Put tables ti | None \<Rightarrow> Tables_Remove tables db tbl)
    \<and> db_history (bc_ddlStore c') = db_history (bc_ddlStore c) @ [h]
    \<and> hd_ddl h = ddl \<and> hd_db h = db \<and> hd_tbl h = tbl \<and> hd_ct h = inferChangeType r (Tables_Get tables db tbl)
    \<and> LoadDDLState coll unmarshalTI jsoncol stamp db_fine (bc_ddlStore c') db tbl = Inr None
    \<and> bc_store c' = bc_store c \<and> bc_cache c' = bc_cache c"
  by (rule handleDDL_accepted [OF assms])

theorem handleDDL_success_witness:
  "\<exists>c' t. handleDDL (wit_deps wit_create None) 7 wit_consumer (retry_event ''db'' ''a'' ''create'') = (c', None)
     \<and> bc_tables c' = Some (Tables_Put NewTables t) \<and> bc_sink c' = [retry_event ''db'' ''a'' ''create'']"
proof -
  have g: "Tables_Get NewTables ''db'' ''a'' = None" by (simp add: Tables_Get_def NewTables_def)
  obtain r t where r: "mysql_apply wit_create (Tables_Get NewTables ''db'' ''a'') ''create'' = Inr (Some r)"
    "dres_NewTableInfo r = Some t"
    by (simp add: g mysql_apply_def mysql_ApplyDDL_def ApplyDDL_def Parse_def VisitRoot_def VisitSqlStatement_def
      wit_create_def DDLResults_Add_def VisitColumnCreateTable_def Let_def)
  have sv: "case Tables_Get NewTables ''db'' ''a'' of None \<Rightarrow> True | Some ti \<Rightarrow> \<exists>d. wit_marshalTI (Some ti) = Inr d"
    by (simp add: g)
  obtain pd where pd: "wit_marshalPos (Some (ev_Position (retry_event ''db'' ''a'' ''create''))) = Inr pd"
    by (simp add: wit_marshalPos_def)
  obtain td where td: "wit_marshalTI (dres_NewTableInfo r) = Inr td"
    by (cases "dres_NewTableInfo r") (simp_all add: wit_marshalTI_def)
  have "\<exists>c' h. handleDDL (wit_deps wit_create None) 7 wit_consumer (retry_event ''db'' ''a'' ''create'') = (c', None)
      \<and> bc_sink c' = [retry_event ''db'' ''a'' ''create'']
      \<and> bc_tables c' = Some (case dres_NewTableInfo r of
         Some ti \<Rightarrow> Tables_Put NewTables ti | None \<Rightarrow> Tables_Remove NewTables ''db'' ''a'')
      \<and> db_history (bc_ddlStore c') = db_history (bc_ddlStore wit_consumer) @ [h]
      \<and> hd_ddl h = ''create'' \<and> hd_db h = ''db'' \<and> hd_tbl h = ''a''
      \<and> hd_ct h = inferChangeType r (Tables_Get NewTables ''db'' ''a'')
      \<and> LoadDDLState id wit_unmarshalTI id (\<lambda>_. (0, 0)) db_fine (bc_ddlStore c') ''db'' ''a'' = Inr None
      \<and> bc_store c' = bc_store wit_consumer \<and> bc_cache c' = bc_cache wit_consumer"
    by (rule handleDDL_success [where ap = "mysql_apply wit_create" and tables = NewTables and db = "''db''" and tbl = "''a''"
        and ddl = "''create''" and marshalTI = wit_marshalTI and marshalPos = wit_marshalPos and md = "[(''ddl'', ''create'')]",
        OF _ _ _ _ _ _ _ _ _ r(1) _ sv pd td]) simp_all
  then show ?thesis using r(2) by auto
qed

section \<open>Unqualified names\<close>

lemma tableKey_unqualified:
  assumes "db \<noteq> []" "CHR ''.'' \<notin> set name"
  shows "tableKey [] name \<noteq> tableKey db tbl"
proof
  assume "tableKey [] name = tableKey db tbl"
  then have eq: "CHR ''.'' # name = db @ CHR ''.'' # tbl" by (simp add: tableKey_def)
  then obtain db' where "db = CHR ''.'' # db'" using assms(1) by (cases db) auto
  with eq have "name = db' @ CHR ''.'' # tbl" by simp
  with assms(2) show False by simp
qed

lemma alter_unknown:
  assumes "rt_statements (parse ddl) = Some [Some (SAlterTable t specs)]"
  shows "mysql_apply parse None ddl = Inl (Errorf ''oldTable is required for ALTER TABLE'')"
proof -
  have "Parse (\<lambda>s. VisitRoot (parse s)) ddl = Inr [VisitAlterTable (rt_text (parse ddl)) t specs]"
    by (rule apply_single [where parse = parse and ddl = ddl, OF assms]) simp
  then show ?thesis by (simp add: mysql_apply_def mysql_ApplyDDL_def ApplyDDL_def VisitAlterTable_def Let_def)
qed

text \<open>
  A table created by an unqualified statement is lost. A binlog carries \<^verbatim>\<open>CREATE TABLE orders (...)\<close>
  with the database in the event, not in the statement. With the MySQL parser, the MySQL store and a
  sink that accepts everything, the consumer processes such an event without an error, but afterwards
  it has no definition for the table of the event, and the next \<^verbatim>\<open>ALTER TABLE\<close> of that table fails.
\<close>

theorem unqualified_create_lost:
  fixes deps :: "(MySQLStore, ChangeEvent list) ConsumerDeps" and os :: OS and now :: gotime
    and c :: "(MySQLStore, ChangeEvent list) BinlogConsumer" and ev :: ChangeEvent
  assumes deps: "cd_applyDDL deps = Some (mysql_apply parse)" "cd_ddlRecords deps"
      "cd_ddlStore deps = Some (mysql_ops coll marshalPos marshalTI unmarshalTI jsoncol stamp db_fine)"
      "cd_write deps = (\<lambda>k evs. (k @ evs, None))"
    and json: "\<And>p. \<exists>d. marshalPos p = Inr d" "\<And>t. \<exists>d. marshalTI t = Inr d"
    and c: "bc_tables c = Some tables" "Tables_Get tables db tbl = None" "db \<noteq> []"
    and ev: "IsDDL ev" "ti_Database (ev_Table ev) = db" "ti_Table (ev_Table ev) = tbl"
      "ev_Metadata ev = Some md" "map_of md ''ddl'' = Some ddl" "ddl \<noteq> []"
    and ev2: "IsDDL ev2" "ti_Database (ev_Table ev2) = db" "ti_Table (ev_Table ev2) = tbl"
      "ev_Metadata ev2 = Some md2" "map_of md2 ''ddl'' = Some ddl2" "ddl2 \<noteq> []"
    and create: "rt_statements (parse ddl) = Some [Some (SCreateTable (ColumnCreateTable (Some name) (Some defs)))]"
      "CHR ''.'' \<notin> set name"
    and alter: "rt_statements (parse ddl2) = Some [Some (SAlterTable t specs)]"
  defines "c1 \<equiv> fst (Route deps os now c ev)"
  shows "snd (Route deps os now c ev) = None
    \<and> (\<exists>tables1. bc_tables c1 = Some tables1 \<and> Tables_Get tables1 db tbl = None)
    \<and> snd (Route deps os now c1 ev2)
        = Some (Wrapf (''DDL failed for '' @ db @ ''.'' @ tbl) (Errorf ''oldTable is required for ALTER TABLE''))"
proof -
  have nm: "split_name name = ([], remove_char (CHR 0x60) name)"
    using create(2) by (simp add: split_name_def Contains_def remove_char_def strings_Index_char_none Let_def)
  let ?v = "VisitColumnCreateTable (rt_text (parse ddl)) (Some name) (Some defs)"
  have "Parse (\<lambda>s. VisitRoot (parse s)) ddl = Inr [?v]"
    by (rule apply_single [where parse = parse and ddl = ddl, OF create(1)]) simp
  then obtain r ti where r: "mysql_apply parse (Tables_Get tables db tbl) ddl = Inr (Some r)" "dres_NewTableInfo r = Some ti"
      "ti_Database ti = []" "ti_Table ti = remove_char (CHR 0x60) name"
    by (simp add: mysql_apply_def mysql_ApplyDDL_def ApplyDDL_def VisitColumnCreateTable_def Let_def
        buildEventTableInfo_def nm)
  have sv: "case Tables_Get tables db tbl of None \<Rightarrow> True | Some ti \<Rightarrow> \<exists>d. marshalTI (Some ti) = Inr d"
    by (simp add: c(2))
  obtain pd td where j: "marshalPos (Some (ev_Position ev)) = Inr pd" "marshalTI (dres_NewTableInfo r) = Inr td"
    using json by blast
  have sink: "cd_write deps (bc_sink c) [ev] = (bc_sink c @ [ev], None)" by (simp add: deps(4))
  from handleDDL_accepted [where ap = "mysql_apply parse", OF deps(1-3) c(1) ev(2-6) r(1) sink sv j, of now]
  obtain c' where c': "handleDDL deps now c ev = (c', None)" "bc_tables c' = Some (Tables_Put tables ti)"
    using r(2) by auto
  have c1: "Route deps os now c ev = (c', None)" using ev(1) c'(1) by (simp add: Route_def)
  have "Tables_Get (Tables_Put tables ti) db tbl = None"
    using c(2) tableKey_unqualified [OF c(3), of "remove_char (CHR 0x60) name" tbl] create(2) r(3,4)
    by (auto simp: Tables_Get_def Tables_Put_def remove_char_def)
  then have lost: "Tables_Get (Tables_Put tables ti) db tbl = None" .
  have fail: "(\<exists>r. mysql_apply parse (Tables_Get (Tables_Put tables ti) db tbl) ddl2 = Inr r)
        \<and> cd_write deps (bc_sink c') [ev2] = (bc_sink c', Some (Errorf ''oldTable is required for ALTER TABLE''))
      \<or> mysql_apply parse (Tables_Get (Tables_Put tables ti) db tbl) ddl2 = Inl (Errorf ''oldTable is required for ALTER TABLE'')
        \<and> (\<forall>p. Errorf ''oldTable is required for ALTER TABLE'' \<noteq> Panic p) \<and> bc_sink c' = bc_sink c'"
    using alter_unknown [where parse = parse and ddl = ddl2, OF alter] by (simp add: lost)
  have sv2: "case Tables_Get (Tables_Put tables ti) db tbl of None \<Rightarrow> True
      | Some _ \<Rightarrow> \<exists>d. marshalTI (Tables_Get (Tables_Put tables ti) db tbl) = Inr d" by (simp add: lost)
  from mysql_ddl.handleDDL_fails [OF deps(1-3) c'(2) ev2(2-6) sv2 fail, of now]
  have "snd (Route deps os now c' ev2)
      = Some (Wrapf (''DDL failed for '' @ db @ ''.'' @ tbl) (Errorf ''oldTable is required for ALTER TABLE''))"
    using ev2(1) by (auto simp: Route_def)
  with c1 c'(2) lost show ?thesis by (simp add: c1_def)
qed

definition wit_two :: "string \<Rightarrow> Root" where
  "wit_two ddl =
     (if ddl = ''create'' then wit_create ddl
      else \<lparr> rt_text = ddl, rt_statements = Some [Some (SAlterTable (Some ''orders'') [AlterByDropColumn (Some ''v'')])] \<rparr>)"

theorem unqualified_create_lost_witness:
  "let c1 = fst (Route (wit_deps wit_two None) os_fine 7 wit_consumer (retry_event ''db'' ''orders'' ''create'')) in
   snd (Route (wit_deps wit_two None) os_fine 7 c1 (retry_event ''db'' ''orders'' ''alter''))
     = Some (Wrapf ''DDL failed for db.orders'' (Errorf ''oldTable is required for ALTER TABLE''))"
proof -
  have mp: "\<exists>d. wit_marshalPos p = Inr d" for p by (simp add: wit_marshalPos_def split: option.split)
  have mt: "\<exists>d. wit_marshalTI t = Inr d" for t by (cases t) (simp_all add: wit_marshalTI_def)
  have cr: "rt_statements (wit_two ''create'') = Some [Some (SCreateTable (ColumnCreateTable (Some ''orders'')
         (Some [ColumnDeclaration (Some ''id'') (Some \<lparr> cd_text = ''BIGINTPRIMARYKEY'', cd_dataType = Some ''BIGINT'',
                   cd_constraints = [PrimaryKeyColumnConstraint] \<rparr>)])))]"
    by (simp add: wit_two_def wit_create_def)
  have al: "rt_statements (wit_two ''alter'') = Some [Some (SAlterTable (Some ''orders'') [AlterByDropColumn (Some ''v'')])]"
    by (simp add: wit_two_def)
  have g: "Tables_Get NewTables ''db'' ''orders'' = None" by (simp add: Tables_Get_def NewTables_def)
  have "snd (Route (wit_deps wit_two None) os_fine 7
      (fst (Route (wit_deps wit_two None) os_fine 7 wit_consumer (retry_event ''db'' ''orders'' ''create'')))
      (retry_event ''db'' ''orders'' ''alter''))
     = Some (Wrapf (''DDL failed for '' @ ''db'' @ ''.'' @ ''orders'') (Errorf ''oldTable is required for ALTER TABLE''))"
    by (rule conjunct2 [OF conjunct2 [OF unqualified_create_lost [where parse = wit_two and marshalPos = wit_marshalPos
          and marshalTI = wit_marshalTI and tables = NewTables and ddl = "''create''" and ?ddl2.0 = "''alter''"
          and md = "[(''ddl'', ''create'')]" and ?md2.0 = "[(''ddl'', ''alter'')]",
          OF _ _ _ _ mp mt _ g _ _ _ _ _ _ _ _ _ _ _ _ _ cr _ al]]]) simp_all
  then show ?thesis by (simp add: Let_def)
qed

end
