(* ===== verification/Catch_Up.thy ===== *)
theory Catch_Up
  imports Consumer
begin

section \<open>From the snapshot to the stream\<close>

text \<open>
  The composition of the consumer, the cache and the replayer: what is routed while a table is being
  snapshotted is what the replayer gives to the sink afterwards. The sink is one that accepts every
  write and keeps what it was given.
\<close>

definition keeping_sink :: "ChangeEvent list \<Rightarrow> ChangeEvent list \<Rightarrow> ChangeEvent list \<times> err option" where
  "keeping_sink k evs = (k @ evs, None)"

text \<open>A schedule in which the context does not end.\<close>

fun quiet_step :: "select_step \<Rightarrow> bool" where
  "quiet_step TakeErr = True"
| "quiet_step (TakeEvent now) = True"
| "quiet_step _ = False"

fun is_take :: "select_step \<Rightarrow> bool" where
  "is_take (TakeEvent now) = True"
| "is_take _ = False"

definition marked :: "gotime \<Rightarrow> ChangeEvent \<Rightarrow> ChangeEvent \<Rightarrow> bool" where
  "marked until ev ev' = (\<exists>now. ev' = mark_upsert now until ev)"

definition decodes :: "(bytes \<Rightarrow> ChangeEvent res) \<Rightarrow> CacheEvent \<Rightarrow> ChangeEvent \<Rightarrow> bool" where
  "decodes deserialize ce ev = (deserialize (ce_Payload ce) = Inr ev)"

lemma replay_drains:
  assumes "list_all2 (decodes deserialize) ces evs" "list_all quiet_step sched"
    and "length evs < length (filter is_take sched)"
  shows "\<exists>out result. replay_loop deserialize keeping_sink until sched ces None None sink res0 = Some (sink @ out, result, None)
    \<and> rr_CaughtUp result \<and> rr_EventsApplied result = rr_EventsApplied res0 + int (length evs)
    \<and> list_all2 (marked until) evs out"
  using assms
proof (induction sched arbitrary: ces evs sink res0)
  case (Cons st sched)
  show ?case
  proof (cases st)
    case (TakeEvent now)
    show ?thesis
    proof (cases ces)
      case Nil
      with Cons.prems(1) TakeEvent show ?thesis by simp
    next
      case (Cons ce ces')
      with Cons.prems(1) obtain ev evs' where evs: "evs = ev # evs'" "decodes deserialize ce ev"
        "list_all2 (decodes deserialize) ces' evs'" by (auto simp: list_all2_Cons1)
      let ?ev = "mark_upsert now until ev"
      let ?res = "res0\<lparr> rr_LastGTID := ce_TxID ce, rr_LastEventSeq := ce_EventSeq ce,
                       rr_EventsApplied := rr_EventsApplied res0 + 1 \<rparr>"
      have "\<exists>out result. replay_loop deserialize keeping_sink until sched ces' None None (sink @ [?ev]) ?res
            = Some ((sink @ [?ev]) @ out, result, None)
          \<and> rr_CaughtUp result \<and> rr_EventsApplied result = rr_EventsApplied ?res + int (length evs')
          \<and> list_all2 (marked until) evs' out"
        using Cons.prems(2,3) evs TakeEvent by (intro Cons.IH) simp_all
      then obtain out result where o: "replay_loop deserialize keeping_sink until sched ces' None None (sink @ [?ev]) ?res
            = Some ((sink @ [?ev]) @ out, result, None)" "rr_CaughtUp result"
          "rr_EventsApplied result = rr_EventsApplied ?res + int (length evs')" "list_all2 (marked until) evs' out"
        by blast
      have "replay_loop deserialize keeping_sink until (st # sched) ces None None sink res0
          = Some (sink @ ?ev # out, result, None)"
        using o(1) evs(2) by (simp add: TakeEvent Cons decodes_def keeping_sink_def)
      moreover have "list_all2 (marked until) evs (?ev # out)" using o(4) evs(1) by (auto simp: marked_def)
      ultimately show ?thesis using o(2,3) evs(1) by auto
    qed
  qed (use Cons in simp_all)
qed simp

section \<open>Routing while a table is snapshotted\<close>

definition no_ddl :: "('s, 'k) ConsumerDeps \<Rightarrow> ('s, 'k) BinlogConsumer \<Rightarrow> TableID \<Rightarrow> bool" where
  "no_ddl deps c t =
     (case cd_ddlStore deps of
        None \<Rightarrow> True
      | Some ts \<Rightarrow> ts_LoadDDLState ts (bc_ddlStore c) (tid_Database t) (tid_Table t) = Inr None)"

definition row_of :: "TableID \<Rightarrow> ChangeEvent \<Rightarrow> bool" where
  "row_of t ev = (\<not> IsDDL ev \<and> event_tid ev = t)"

definition cached_form :: "('s, 'k) ConsumerDeps \<Rightarrow> ('s, 'k) BinlogConsumer \<Rightarrow> ChangeEvent \<Rightarrow> CacheEvent" where
  "cached_form deps c ev = eventToCacheEvent (cd_marshalEvent deps) (cd_marshalPos deps) ev (bc_sourceType c)"

text \<open>The JSON forms of an event survive the cache.\<close>

definition event_json_ok ::
  "('s, 'k) ConsumerDeps \<Rightarrow> ('s, 'k) BinlogConsumer \<Rightarrow> (bytes \<Rightarrow> CacheEvent res) \<Rightarrow> (bytes \<Rightarrow> ChangeEvent res)
     \<Rightarrow> ChangeEvent \<Rightarrow> bool" where
  "event_json_ok deps c unmarshal deserialize ev =
     (json_ok (cd_marshalCache deps) unmarshal (cached_form deps c ev)
      \<and> (\<exists>p. cd_marshalEvent deps ev = Inr p \<and> deserialize p = Inr ev))"

lemma no_ddl_check:
  "no_ddl deps c t \<Longrightarrow> checkDDLState deps now c (tid_Database t) (tid_Table t) = (c, Inr False)"
  by (simp add: no_ddl_def checkDDLState_def split: option.splits)

lemma Route_snapshotting:
  assumes "row_of t ev" "no_ddl deps c t" "ls_lookup (bc_store c) (bc_taskID c) t = Some lc"
    and "tl_State lc = TableStateSnapshotting"
  shows "Route deps os now c ev
    = (c\<lparr> bc_cache := fst (lb_Write (cd_marshalCache deps) os (bc_cache c) (TableID_String t) (cached_form deps c ev)) \<rparr>,
       snd (lb_Write (cd_marshalCache deps) os (bc_cache c) (TableID_String t) (cached_form deps c ev)))"
proof -
  have "ls_Get (bc_store c) (bc_taskID c) t = Inr lc" using assms(3) by (simp add: ls_Get_Inr)
  then show ?thesis
    using assms no_ddl_check [OF assms(2), of now]
    by (simp add: Route_def row_of_def cached_form_def GetState_def case_prod_beta Let_def)
qed

lemma Route_live:
  assumes "row_of t ev" "no_ddl deps c t" "ls_lookup (bc_store c) (bc_taskID c) t = Some lc"
    and "tl_State lc = TableStateCatchingUp \<or> tl_State lc = TableStateStreaming"
  shows "Route deps os now c ev
    = (c\<lparr> bc_sink := fst (cd_write deps (bc_sink c) [ev]) \<rparr>, snd (cd_write deps (bc_sink c) [ev]))"
proof -
  have "ls_Get (bc_store c) (bc_taskID c) t = Inr lc" using assms(3) by (simp add: ls_Get_Inr)
  then show ?thesis
    using assms no_ddl_check [OF assms(2), of now]
    by (auto simp: Route_def row_of_def GetState_def case_prod_beta Let_def)
qed

lemma Route_window:
  assumes "list_all (row_of t) evs" "no_ddl deps c t" "ls_lookup (bc_store c) (bc_taskID c) t = Some lc"
    and "tl_State lc = TableStateSnapshotting"
  shows "foldl (\<lambda>c ev. fst (Route deps os_fine now c ev)) c evs
    = c\<lparr> bc_cache := fst (run_ops (cd_marshalCache deps) (bc_cache c)
          (map (\<lambda>ev. OpWrite (TableID_String t) (cached_form deps c ev)) evs)) \<rparr>"
  using assms
proof (induction evs arbitrary: c)
  case (Cons ev evs)
  let ?c = "fst (Route deps os_fine now c ev)"
  have r: "Route deps os_fine now c ev
    = (c\<lparr> bc_cache := fst (lb_Write (cd_marshalCache deps) os_fine (bc_cache c) (TableID_String t) (cached_form deps c ev)) \<rparr>,
       snd (lb_Write (cd_marshalCache deps) os_fine (bc_cache c) (TableID_String t) (cached_form deps c ev)))"
    using Cons.prems by (intro Route_snapshotting) simp_all
  have "no_ddl deps ?c t" "ls_lookup (bc_store ?c) (bc_taskID ?c) t = Some lc" "cached_form deps ?c = cached_form deps c"
    using Cons.prems by (simp_all add: r no_ddl_def cached_form_def fun_eq_iff cong: option.case_cong)
  with Cons.IH [of ?c] Cons.prems r show ?case by (simp add: case_prod_beta Let_def)
qed simp

lemma run_ops_append:
  "fst (run_ops marshal lb (as @ bs)) = fst (run_ops marshal (fst (run_ops marshal lb as)) bs)"
  by (induction as arbitrary: lb) (simp_all add: case_prod_beta Let_def)

lemma spec_writes:
  "foldl spec_op l (map (\<lambda>ev. OpWrite t (f ev)) evs) t = l t @ map f evs"
  by (induction evs arbitrary: l) simp_all

lemma fresh_read:
  assumes "inj_on sanitizeTableID T" "list_all (op_ok (json_ok marshal unmarshal) T) ops" "t \<in> T"
  shows "lb_Read unmarshal os_fine (fst (run_ops marshal (lb_fresh mode) ops)) t [] 0
    = (foldl spec_op (\<lambda>_. []) ops t, None)"
proof -
  have "lb_inv T (lb_fresh mode)" "\<forall>u \<in> T. content (lb_fresh mode) u = log_bytes marshal []"
    by (simp_all add: lb_inv_def content_def lb_fresh_def FS_empty_def)
  from run_ops_refines [OF this(1) assms(1,2) this(2)]
  show ?thesis
    using assms(3) read_loop_log [OF spec_ops_json_ok [OF assms(2)], of "\<lambda>_. []" "[]" 0 0 t]
    by (simp add: lb_Read_content from_position_def)
qed

text \<open>What the cache holds after the window, as the replayer reads it.\<close>

lemma window_read:
  assumes "inj_on sanitizeTableID T" "list_all (op_ok (json_ok (cd_marshalCache deps) unmarshal) T) ops" "TableID_String t \<in> T"
    and "list_all (event_json_ok deps c unmarshal deserialize) evs"
    and "bc_cache c = fst (run_ops (cd_marshalCache deps) (lb_fresh mode) ops)"
    and "foldl spec_op (\<lambda>_. []) ops (TableID_String t) = []"
  shows "lb_Read unmarshal os_fine (fst (run_ops (cd_marshalCache deps) (bc_cache c)
          (map (\<lambda>ev. OpWrite (TableID_String t) (cached_form deps c ev)) evs))) (TableID_String t) [] 0
      = (map (cached_form deps c) evs, None)
    \<and> list_all2 (decodes deserialize) (map (cached_form deps c) evs) evs"
proof -
  let ?ops = "ops @ map (\<lambda>ev. OpWrite (TableID_String t) (cached_form deps c ev)) evs"
  have "list_all (op_ok (json_ok (cd_marshalCache deps) unmarshal) T) ?ops"
    using assms(2-4) by (auto simp: list_all_iff event_json_ok_def)
  from fresh_read [OF assms(1) this assms(3), of mode] assms(5,6)
  have "lb_Read unmarshal os_fine (fst (run_ops (cd_marshalCache deps) (bc_cache c)
          (map (\<lambda>ev. OpWrite (TableID_String t) (cached_form deps c ev)) evs))) (TableID_String t) [] 0
      = (map (cached_form deps c) evs, None)"
    by (simp add: run_ops_append spec_writes)
  moreover have "list_all2 (decodes deserialize) (map (cached_form deps c) evs) evs"
    using assms(4)
  proof (induction evs)
    case (Cons ev evs)
    then obtain p where "cd_marshalEvent deps ev = Inr p" "deserialize p = Inr ev" by (auto simp: event_json_ok_def)
    then have "decodes deserialize (cached_form deps c ev) ev"
      by (simp add: decodes_def cached_form_def eventToCacheEvent_def SetPosition_def Let_def split: sum.split)
    with Cons show ?case by simp
  qed simp
  ultimately show ?thesis by simp
qed

text \<open>
  C4. Nothing is lost or reordered between a snapshot and the stream. Let a table be in snapshotting
  with an empty cache and no DDL pending, and let any row events of it be routed, with no fault of the
  file system and with events whose JSON forms read back. Then the sink has received none of them;
  and a replay that is not cancelled returns as soon as its \<^verbatim>\<open>select\<close> has taken the event channel often
  enough, reports that it has caught up, and has given the sink exactly these events, in the order
  in which they were routed, each at most marked for upsert.
\<close>

theorem snapshot_window_replayed:
  fixes deps :: "('s, ChangeEvent list) ConsumerDeps" and c :: "('s, ChangeEvent list) BinlogConsumer"
    and now :: gotime and start :: gotime and sink :: "ChangeEvent list"
  assumes cache: "inj_on sanitizeTableID T" "list_all (op_ok (json_ok (cd_marshalCache deps) unmarshal) T) ops"
      "TableID_String t \<in> T" "bc_cache c = fst (run_ops (cd_marshalCache deps) (lb_fresh mode) ops)"
      "foldl spec_op (\<lambda>_. []) ops (TableID_String t) = []"
    and table: "ls_lookup (bc_store c) (bc_taskID c) t = Some lc" "tl_State lc = TableStateSnapshotting" "no_ddl deps c t"
    and evs: "list_all (row_of t) evs" "list_all (event_json_ok deps c unmarshal deserialize) evs"
    and sched: "list_all quiet_step sched" "length evs < length (filter is_take sched)"
  defines "c' \<equiv> foldl (\<lambda>c ev. fst (Route deps os_fine now c ev)) c evs"
  shows "bc_sink c' = bc_sink c
    \<and> (\<exists>out result. Replay unmarshal deserialize keeping_sink cfg os_fine start sched (bc_cache c') sink
          (TableID_String t) [] 0 = Some (sink @ out, result, None)
        \<and> rr_CaughtUp result \<and> rr_EventsApplied result = int (length evs)
        \<and> list_all2 (marked (start + rc_UpsertDuration cfg)) evs out)"
proof -
  have c': "c' = c\<lparr> bc_cache := fst (run_ops (cd_marshalCache deps) (bc_cache c)
          (map (\<lambda>ev. OpWrite (TableID_String t) (cached_form deps c ev)) evs)) \<rparr>"
    unfolding c'_def by (rule Route_window [OF evs(1) table(3,1,2)])
  note rd = window_read [OF cache(1-3) evs(2) cache(4,5)]
  from replay_drains [OF conjunct2 [OF rd] sched, of "start + rc_UpsertDuration cfg" sink ReplayResult_zero]
  show ?thesis using conjunct1 [OF rd] by (simp add: Replay_def c' ReplayResult_zero_def)
qed

text \<open>A table in the given state, one event with its JSON forms, and a consumer, for the witnesses.\<close>

definition wit_ev :: ChangeEvent where
  "wit_ev = (retry_event ''db'' ''a'' [])\<lparr> ev_Type := EventTypeInsert, ev_Metadata := None \<rparr>"

definition wit_cdeps :: "(unit, ChangeEvent list) ConsumerDeps" where
  "wit_cdeps =
     \<lparr> cd_applyDDL = None, cd_ddlRecords = False, cd_ddlStore = Some NoopStore, cd_write = keeping_sink,
       cd_marshalEvent = (\<lambda>_. Inr [7]), cd_marshalPos = (\<lambda>_. Inr []), cd_marshalCache = (\<lambda>_. Inr [9]) \<rparr>"

definition wit_bc :: "TableState \<Rightarrow> (unit, ChangeEvent list) BinlogConsumer" where
  "wit_bc st =
     \<lparr> bc_taskID = ''task'', bc_store = ss_store (wit_sched st), bc_cache = lb_fresh SyncModeNone, bc_sink = [],
       bc_sourceType = SourceTypeMySQLGTID, bc_tables = None, bc_ddlStore = () \<rparr>"

definition wit_unmarshalCE :: "bytes \<Rightarrow> CacheEvent res" where
  "wit_unmarshalCE b = Inr (cached_form wit_cdeps (wit_bc TableStateSnapshotting) wit_ev)"

definition wit_deserialize :: "bytes \<Rightarrow> ChangeEvent res" where
  "wit_deserialize b = Inr wit_ev"

lemma wit_cdeps_simps [simp]:
  "cd_marshalCache wit_cdeps = (\<lambda>_. Inr [9])" "cd_write wit_cdeps = keeping_sink" "bc_cache (wit_bc st) = lb_fresh SyncModeNone"
  "bc_sink (wit_bc st) = []" "bc_store (wit_bc st) = ss_store (wit_sched st)" "bc_taskID (wit_bc st) = ''task''"
  by (simp_all add: wit_cdeps_def wit_bc_def)

lemma wit_window:
  "no_ddl wit_cdeps (wit_bc st) t"
  "list_all (row_of (wit_tid ''a'')) (replicate n wit_ev)"
  "list_all (event_json_ok wit_cdeps (wit_bc TableStateSnapshotting) wit_unmarshalCE wit_deserialize) (replicate n wit_ev)"
  "ls_lookup (ss_store (wit_sched st)) ''task'' (wit_tid ''a'') = Some (wit_lc ''a'' st)"
  "tl_State (wit_lc ''a'' st) = st"
  by (simp_all add: no_ddl_def wit_cdeps_def NoopStore_def row_of_def wit_ev_def IsDDL_def event_tid_def wit_tid_def
      retry_event_def TableInfo_zero_def list_all_iff event_json_ok_def json_ok_def payload_ok_def wit_unmarshalCE_def
      wit_deserialize_def wit_lc_def)
   (use wit_sched_lookup(1) [of st] in \<open>simp add: wit_tid_def wit_sched_def NewSnapshotScheduler_def wit_lc_def\<close>)

theorem snapshot_window_replayed_witness:
  "\<exists>out result. Replay wit_unmarshalCE wit_deserialize keeping_sink \<lparr> rc_BatchSize = 1, rc_UpsertDuration = 60 \<rparr> os_fine 5
      [TakeErr, TakeEvent 6, TakeEvent 70, TakeErr, TakeEvent 80]
      (bc_cache (foldl (\<lambda>c ev. fst (Route wit_cdeps os_fine 3 c ev)) (wit_bc TableStateSnapshotting) [wit_ev, wit_ev]))
      [] (TableID_String (wit_tid ''a'')) [] 0 = Some ([] @ out, result, None)
    \<and> rr_CaughtUp result \<and> rr_EventsApplied result = 2 \<and> list_all2 (marked 65) [wit_ev, wit_ev] out"
proof -
  have ops: "list_all (op_ok (json_ok (cd_marshalCache wit_cdeps) wit_unmarshalCE) {TableID_String (wit_tid ''a'')}) []"
    "bc_cache (wit_bc TableStateSnapshotting) = fst (run_ops (cd_marshalCache wit_cdeps) (lb_fresh SyncModeNone) [])"
    "foldl spec_op (\<lambda>_. []) [] (TableID_String (wit_tid ''a'')) = []" by simp_all
  have evs: "list_all (row_of (wit_tid ''a'')) [wit_ev, wit_ev]"
    "list_all (event_json_ok wit_cdeps (wit_bc TableStateSnapshotting) wit_unmarshalCE wit_deserialize) [wit_ev, wit_ev]"
    using wit_window(2,3) [of 2] by (simp_all add: numeral_eq_Suc)
  have lk: "ls_lookup (bc_store (wit_bc TableStateSnapshotting)) (bc_taskID (wit_bc TableStateSnapshotting)) (wit_tid ''a'')
      = Some (wit_lc ''a'' TableStateSnapshotting)" using wit_window(4) by simp
  from snapshot_window_replayed [where T = "{TableID_String (wit_tid ''a'')}", OF _ ops(1) _ ops(2,3) lk wit_window(5,1) evs,
      of "[TakeErr, TakeEvent 6, TakeEvent 70, TakeErr, TakeEvent 80]" 3 "\<lparr> rc_BatchSize = 1, rc_UpsertDuration = 60 \<rparr>" 5 "[]"]
  show ?thesis by simp
qed

section \<open>Two faults of the hand-over\<close>

lemma replay_takes_all:
  assumes "list_all2 (decodes deserialize) ces evs"
  shows "\<exists>sched out result. list_all (\<lambda>st. is_take st) sched
    \<and> replay_loop deserialize keeping_sink until sched ces er None sink res0 = Some (sink @ out, result, None)
    \<and> rr_CaughtUp result"
  using assms
proof (induction ces arbitrary: evs sink res0)
  case Nil
  then show ?case by (intro exI [of _ "[TakeEvent 0]"]) simp
next
  case (Cons ce ces)
  then obtain ev evs' where evs: "decodes deserialize ce ev" "list_all2 (decodes deserialize) ces evs'"
    by (auto simp: list_all2_Cons1)
  let ?res = "res0\<lparr> rr_LastGTID := ce_TxID ce, rr_LastEventSeq := ce_EventSeq ce,
                   rr_EventsApplied := rr_EventsApplied res0 + 1 \<rparr>"
  from Cons.IH [OF evs(2), of "sink @ [mark_upsert 0 until ev]" ?res]
  obtain sched out result where "list_all is_take sched" "rr_CaughtUp result"
    "replay_loop deserialize keeping_sink until sched ces er None (sink @ [mark_upsert 0 until ev]) ?res
       = Some ((sink @ [mark_upsert 0 until ev]) @ out, result, None)" by auto
  then show ?case
    using evs(1)
    by (intro exI [of _ "TakeEvent 0 # sched"] exI [of _ "mark_upsert 0 until ev # out"] exI [of _ result])
      (simp add: decodes_def keeping_sink_def [of sink "[mark_upsert 0 until ev]"])
qed

text \<open>
  A replay may report that it has caught up when it has not. Let a read of the cache deliver some
  events and then end, with or without an error. There is a run of the replayer in which it never
  looks at the error channel and returns no error and \<^verbatim>\<open>CaughtUp\<close>, although the read failed. And if
  there is at least one event and the context is cancelled, there is a run in which the reader stops
  at once and the replayer returns no error and \<^verbatim>\<open>CaughtUp\<close> without having applied anything.
\<close>

theorem replay_false_caught_up:
  assumes "lb_Read unmarshal os cache tableID fromTxID fromEventSeq = (ces, er)"
    and "list_all2 (decodes deserialize) ces evs"
  shows "(\<exists>sched out result. Replay unmarshal deserialize keeping_sink cfg os start sched cache sink tableID fromTxID fromEventSeq
        = Some (sink @ out, result, None) \<and> rr_CaughtUp result)
    \<and> (ces \<noteq> [] \<longrightarrow> (\<exists>sched result. Replay unmarshal deserialize keeping_sink cfg os start sched cache sink tableID
          fromTxID fromEventSeq = Some (sink, result, None)
        \<and> Cancel Canceled \<in> set sched \<and> rr_CaughtUp result \<and> rr_EventsApplied result = 0))"
proof
  show "\<exists>sched out result. Replay unmarshal deserialize keeping_sink cfg os start sched cache sink tableID fromTxID fromEventSeq
        = Some (sink @ out, result, None) \<and> rr_CaughtUp result"
    using replay_takes_all [OF assms(2)] assms(1) by (simp add: Replay_def) blast
  show "ces \<noteq> [] \<longrightarrow> (\<exists>sched result. Replay unmarshal deserialize keeping_sink cfg os start sched cache sink tableID
          fromTxID fromEventSeq = Some (sink, result, None)
        \<and> Cancel Canceled \<in> set sched \<and> rr_CaughtUp result \<and> rr_EventsApplied result = 0)"
    using assms(1)
    by (intro impI exI [of _ "[Cancel Canceled, ReaderStop 0, TakeEvent 0]"])
      (simp add: Replay_def ReplayResult_zero_def)
qed

theorem replay_false_caught_up_witness:
  "\<exists>sched out result. Replay wit_unmarshalCE wit_deserialize keeping_sink \<lparr> rc_BatchSize = 1, rc_UpsertDuration = 60 \<rparr>
      (os_fine\<lparr> os_open := Some EOF \<rparr>) 5 sched
      (fst (lb_Write (\<lambda>_. Inr [9]) os_fine (lb_fresh SyncModeNone) ''db.a'' (NewCacheEvent 0))) [] ''db.a'' [] 0
      = Some ([] @ out, result, None) \<and> rr_CaughtUp result"
proof -
  have "\<exists>e. lb_Read wit_unmarshalCE (os_fine\<lparr> os_open := Some EOF \<rparr>)
      (fst (lb_Write (\<lambda>_. Inr [9]) os_fine (lb_fresh SyncModeNone) ''db.a'' (NewCacheEvent 0))) ''db.a'' [] 0 = ([], Some e)"
    by (simp add: lb_Read_def lb_Write_def getFile_def lb_fresh_def FS_empty_def marshalAndWrite_def encode_record_ok
        payload_ok_def maybeSync_def fs_append_def filePath_def Let_def)
  then obtain e where "lb_Read wit_unmarshalCE (os_fine\<lparr> os_open := Some EOF \<rparr>)
      (fst (lb_Write (\<lambda>_. Inr [9]) os_fine (lb_fresh SyncModeNone) ''db.a'' (NewCacheEvent 0))) ''db.a'' [] 0 = ([], Some e)" ..
  from conjunct1 [OF replay_false_caught_up [OF this, where deserialize = wit_deserialize and evs = "[]"
        and cfg = "\<lparr> rc_BatchSize = 1, rc_UpsertDuration = 60 \<rparr>" and start = 5 and sink = "[]"]]
  show ?thesis by simp
qed

text \<open>
  C35. New events overtake the cached ones. When a table goes from snapshotting to catching_up, its
  cached events are still to be replayed, but \<^verbatim>\<open>Route\<close> already writes its new events to the sink. So
  an event routed before the replay reaches the sink before all the older, cached events of the table.
\<close>

theorem catching_up_overtakes:
  fixes deps :: "('s, ChangeEvent list) ConsumerDeps" and c :: "('s, ChangeEvent list) BinlogConsumer"
    and c1 c2 c3 :: "('s, ChangeEvent list) BinlogConsumer" and now :: gotime and start :: gotime
  assumes cache: "inj_on sanitizeTableID T" "list_all (op_ok (json_ok (cd_marshalCache deps) unmarshal) T) ops"
      "TableID_String t \<in> T" "bc_cache c = fst (run_ops (cd_marshalCache deps) (lb_fresh mode) ops)"
      "foldl spec_op (\<lambda>_. []) ops (TableID_String t) = []"
    and table: "ls_lookup (bc_store c) (bc_taskID c) t = Some lc" "tl_State lc = TableStateSnapshotting" "no_ddl deps c t"
      "ls_invar (bc_store c)" "TransitionTo lc TableStateCatchingUp None now = Inr lc'"
    and evs: "list_all (row_of t) evs" "list_all (event_json_ok deps c unmarshal deserialize) evs"
    and ev: "row_of t ev" "cd_write deps = keeping_sink"
    and sched: "list_all quiet_step sched" "length evs < length (filter is_take sched)"
  defines "c1 \<equiv> foldl (\<lambda>c ev. fst (Route deps os_fine now c ev)) c evs"
    and "c2 \<equiv> c1\<lparr> bc_store := ls_Save (bc_store c1) (bc_taskID c1) lc' \<rparr>"
    and "c3 \<equiv> fst (Route deps os_fine now c2 ev)"
  shows "\<exists>out result. Replay unmarshal deserialize (cd_write deps) cfg os_fine start sched (bc_cache c3) (bc_sink c3)
          (TableID_String t) [] 0 = Some (bc_sink c @ ev # out, result, None)
        \<and> rr_CaughtUp result \<and> list_all2 (marked (start + rc_UpsertDuration cfg)) evs out"
proof -
  have c1: "c1 = c\<lparr> bc_cache := fst (run_ops (cd_marshalCache deps) (bc_cache c)
          (map (\<lambda>ev. OpWrite (TableID_String t) (cached_form deps c ev)) evs)) \<rparr>"
    unfolding c1_def by (rule Route_window [OF evs(1) table(3,1,2)])
  have "tl_TableID lc' = tl_TableID lc" "tl_State lc' = TableStateCatchingUp" using table(5) by (auto simp: lifecycle_cases)
  moreover have "tl_TableID lc = t" using mem.get_key [OF table(4,1)] .
  ultimately have lk: "ls_lookup (bc_store c2) (bc_taskID c2) t = Some lc'" "tl_State lc' = TableStateCatchingUp"
    by (simp_all add: c2_def c1 mem.get_save [OF table(4)])
  have nd: "no_ddl deps c2 t" using table(3) by (simp add: c2_def c1 no_ddl_def cong: option.case_cong)
  have c3: "c3 = c2\<lparr> bc_sink := bc_sink c @ [ev] \<rparr>"
    unfolding c3_def Route_live [OF ev(1) nd lk(1) disjI1 [OF lk(2)]]
    by (simp add: c2_def c1 ev(2) keeping_sink_def)
  note rd = window_read [OF cache(1-3) evs(2) cache(4,5)]
  from replay_drains [OF conjunct2 [OF rd] sched, of "start + rc_UpsertDuration cfg" "bc_sink c @ [ev]" ReplayResult_zero]
  show ?thesis using conjunct1 [OF rd] by (auto simp: Replay_def c3 c2_def c1 ev(2))
qed

theorem catching_up_overtakes_witness:
  "\<exists>lc' out result. TransitionTo (wit_lc ''a'' TableStateSnapshotting) TableStateCatchingUp None 3 = Inr lc'
    \<and> (let c1 = foldl (\<lambda>c ev. fst (Route wit_cdeps os_fine 3 c ev)) (wit_bc TableStateSnapshotting) [wit_ev];
            c2 = c1\<lparr> bc_store := ls_Save (bc_store c1) (bc_taskID c1) lc' \<rparr>;
            c3 = fst (Route wit_cdeps os_fine 3 c2 wit_ev)
        in Replay wit_unmarshalCE wit_deserialize (cd_write wit_cdeps) \<lparr> rc_BatchSize = 1, rc_UpsertDuration = 60 \<rparr> os_fine 5
             [TakeEvent 6, TakeEvent 70] (bc_cache c3) (bc_sink c3) (TableID_String (wit_tid ''a'')) [] 0
           = Some (wit_ev # out, result, None))"
proof -
  have ops: "list_all (op_ok (json_ok (cd_marshalCache wit_cdeps) wit_unmarshalCE) {TableID_String (wit_tid ''a'')}) []"
    "bc_cache (wit_bc TableStateSnapshotting) = fst (run_ops (cd_marshalCache wit_cdeps) (lb_fresh SyncModeNone) [])"
    "foldl spec_op (\<lambda>_. []) [] (TableID_String (wit_tid ''a'')) = []" by simp_all
  have evs: "list_all (row_of (wit_tid ''a'')) [wit_ev]" "row_of (wit_tid ''a'') wit_ev"
    "list_all (event_json_ok wit_cdeps (wit_bc TableStateSnapshotting) wit_unmarshalCE wit_deserialize) [wit_ev]"
    using wit_window(2,3) [of 1] by simp_all
  have lk: "ls_lookup (bc_store (wit_bc TableStateSnapshotting)) (bc_taskID (wit_bc TableStateSnapshotting)) (wit_tid ''a'')
      = Some (wit_lc ''a'' TableStateSnapshotting)" using wit_window(4) by simp
  have inv: "ls_invar (bc_store (wit_bc TableStateSnapshotting))" by (simp add: wit_sched_inv)
  obtain lc' where tr: "TransitionTo (wit_lc ''a'' TableStateSnapshotting) TableStateCatchingUp None 3 = Inr lc'"
    by (simp add: TransitionTo_def wit_lc_def)
  from catching_up_overtakes [where T = "{TableID_String (wit_tid ''a'')}", OF _ ops(1) _ ops(2,3) lk wit_window(5,1) inv tr
      evs(1,3,2), of "[TakeEvent 6, TakeEvent 70]" "\<lparr> rc_BatchSize = 1, rc_UpsertDuration = 60 \<rparr>" 5]
  show ?thesis using tr by (auto simp: Let_def)
qed

end
