(* ===== verification/Snapshot_Chunks.thy ===== *)
theory Snapshot_Chunks
  imports Table_Lifecycle Go_Text "HOL-Library.Multiset"
begin

section \<open>The snapshot coordinator (internal/source/snapshot_coordinator.go)\<close>

text \<open>
  The coordinator cuts each table into chunks of its key range, hands the chunks to workers and counts
  the results. Integers are 64-bit: sums wrap around (\<open>wrap64\<close>). The loop over the key range need not
  end, so it is a partial function whose value is \<^const>\<open>None\<close> when it does not return. The key range and
  the reading of a chunk come from the connector (\<^verbatim>\<open>SnapshotReader\<close>, an interface).
\<close>

definition wrap64 :: "int \<Rightarrow> int" where
  "wrap64 i = (i + 2 ^ 63) mod 2 ^ 64 - 2 ^ 63"

definition in_int64 :: "int \<Rightarrow> bool" where
  "in_int64 i = (min_int64 \<le> i \<and> i \<le> max_int64)"

text \<open>A key as the connector returns it: \<^verbatim>\<open>int\<close> or \<^verbatim>\<open>int64\<close>, or a value of another type.\<close>

datatype key = KInt int | KInt64 int | KOther gval

record ChunkRange =
  cr_StartKey :: key
  cr_EndKey :: key

record SnapshotTask =
  st_TableID :: TableID
  st_Schema :: TableInfo
  st_ChunkID :: int
  st_ChunkRange :: "ChunkRange option"
  st_Priority :: int

subsection \<open>Configuration and plan (snapshot_config.go)\<close>

record SnapshotConcurrencyConfig =
  scc_MaxTableThreads :: int
  scc_EnableChunkParallel :: bool
  scc_MaxChunkThreads :: int
  scc_ChunkThreshold :: int
  scc_BatchSize :: int
  scc_ChunkSize :: int
  scc_TaskQueueSize :: int
  scc_EventBufferSize :: int

definition DefaultSnapshotConcurrencyConfig :: SnapshotConcurrencyConfig where
  "DefaultSnapshotConcurrencyConfig =
     \<lparr> scc_MaxTableThreads = 4, scc_EnableChunkParallel = True, scc_MaxChunkThreads = 4,
       scc_ChunkThreshold = 100000, scc_BatchSize = 1000, scc_ChunkSize = 10000, scc_TaskQueueSize = 1000,
       scc_EventBufferSize = 10000 \<rparr>"

definition scc_Validate :: "SnapshotConcurrencyConfig \<Rightarrow> err option" where
  "scc_Validate c =
     (if scc_MaxTableThreads c < 1 \<or> scc_MaxTableThreads c > 16
      then Some (Errorf ''max-table-threads must be between 1 and 16'')
      else if scc_MaxChunkThreads c < 1 \<or> scc_MaxChunkThreads c > 8
      then Some (Errorf ''max-chunk-threads must be between 1 and 8'')
      else if scc_BatchSize c < 100 \<or> scc_BatchSize c > 10000
      then Some (Errorf ''batch-size must be between 100 and 10000'')
      else if scc_ChunkSize c < 1000 then Some (Errorf ''chunk-size must be at least 1000'')
      else None)"

datatype ConcurrencyMode = ConcurrencyModeSingle | ConcurrencyModeChunkParallel

record TableConcurrencyPlan =
  tcp_TableID :: TableID
  tcp_Mode :: ConcurrencyMode
  tcp_ChunkThreads :: int
  tcp_ChunkSize :: int
  tcp_BatchSize :: int

record PlanTableInfo =
  pti_TableID :: TableID
  pti_EstimatedRows :: int

definition plan_table :: "SnapshotConcurrencyConfig \<Rightarrow> PlanTableInfo \<Rightarrow> TableConcurrencyPlan" where
  "plan_table config t =
     (let tp = \<lparr> tcp_TableID = pti_TableID t, tcp_Mode = ConcurrencyModeSingle, tcp_ChunkThreads = 0,
                 tcp_ChunkSize = scc_ChunkSize config, tcp_BatchSize = scc_BatchSize config \<rparr> in
      if scc_EnableChunkParallel config \<and> pti_EstimatedRows t \<ge> scc_ChunkThreshold config
      then tp\<lparr> tcp_Mode := ConcurrencyModeChunkParallel, tcp_ChunkThreads := scc_MaxChunkThreads config \<rparr>
      else tp)"

definition PlanConcurrency :: "SnapshotConcurrencyConfig \<Rightarrow> PlanTableInfo list \<Rightarrow> (string, TableConcurrencyPlan) gomap" where
  "PlanConcurrency config tables =
     fold (\<lambda>t m. AList.update (TableID_String (pti_TableID t)) (plan_table config t) m) tables []"

subsection \<open>Tasks\<close>

definition whole_task :: "TableID \<Rightarrow> TableInfo \<Rightarrow> SnapshotTask" where
  "whole_task tableID table =
     \<lparr> st_TableID = tableID, st_Schema = table, st_ChunkID = 0, st_ChunkRange = None, st_Priority = 0 \<rparr>"

definition chunk_end :: "int \<Rightarrow> int \<Rightarrow> int \<Rightarrow> int" where
  "chunk_end sz mx start =
     (let e = wrap64 (wrap64 (start + sz) - 1) in if e > mx then mx else e)"

text \<open>The loop over the starts, with the number of the next chunk.\<close>

partial_function (option) chunk_loop :: "int \<Rightarrow> int \<Rightarrow> int \<Rightarrow> int \<Rightarrow> (int \<times> int \<times> int) list option" where
  "chunk_loop sz mx start chunkID =
     (if start \<le> mx
      then Option.bind (chunk_loop sz mx (wrap64 (start + sz)) (wrap64 (chunkID + 1)))
             (\<lambda>rest. Some ((chunkID, start, chunk_end sz mx start) # rest))
      else Some [])"

definition chunk_task :: "TableID \<Rightarrow> TableInfo \<Rightarrow> (int \<Rightarrow> key) \<Rightarrow> int \<times> int \<times> int \<Rightarrow> SnapshotTask" where
  "chunk_task tableID table k c =
     (case c of (i, s, e) \<Rightarrow>
        \<lparr> st_TableID = tableID, st_Schema = table, st_ChunkID = i,
          st_ChunkRange = Some \<lparr> cr_StartKey = k s, cr_EndKey = k e \<rparr>, st_Priority = i \<rparr>)"

text \<open>The value is \<^const>\<open>None\<close> when the loop does not return; the inner result is a panic or the tasks.\<close>

definition generateTableTasks ::
  "SnapshotConcurrencyConfig \<Rightarrow> (TableInfo \<Rightarrow> (key \<times> key) res) \<Rightarrow> TableInfo \<Rightarrow> SnapshotTask list res option" where
  "generateTableTasks config getKeyRange table =
     (let tableID = \<lparr> tid_Database = ti_Database table, tid_Schema = ti_Schema table, tid_Table = ti_Table table \<rparr> in
      case getKeyRange table of
        Inl _ \<Rightarrow> Some (Inr [whole_task tableID table])
      | Inr (KInt mi, ma) \<Rightarrow>
          (case ma of
             KInt m \<Rightarrow> map_option (\<lambda>cs. Inr (map (chunk_task tableID table KInt) cs))
                         (chunk_loop (scc_ChunkSize config) m mi 0)
           | _ \<Rightarrow> Some (Inl (Panic ''interface conversion: maxKey is not int'')))
      | Inr (KInt64 mi, ma) \<Rightarrow>
          (case ma of
             KInt64 m \<Rightarrow> map_option (\<lambda>cs. Inr (map (chunk_task tableID table KInt64) cs))
                           (chunk_loop (scc_ChunkSize config) m mi 0)
           | _ \<Rightarrow> Some (Inl (Panic ''interface conversion: maxKey is not int64'')))
      | Inr (KOther _, _) \<Rightarrow> Some (Inr [whole_task tableID table]))"

fun generateTasks ::
  "SnapshotConcurrencyConfig \<Rightarrow> (TableInfo \<Rightarrow> (key \<times> key) res) \<Rightarrow> TableInfo list \<Rightarrow> SnapshotTask list res option" where
  "generateTasks config getKeyRange [] = Some (Inr [])"
| "generateTasks config getKeyRange (table # tables) =
     (case generateTableTasks config getKeyRange table of
        None \<Rightarrow> None
      | Some (Inl e) \<Rightarrow> Some (Inl e)
      | Some (Inr tasks) \<Rightarrow>
          (case generateTasks config getKeyRange tables of
             None \<Rightarrow> None
           | Some (Inl e) \<Rightarrow> Some (Inl e)
           | Some (Inr rest) \<Rightarrow> Some (Inr (tasks @ rest))))"

subsection \<open>Workers and progress\<close>

record SnapshotResult =
  sr_TableID :: TableID
  sr_ChunkID :: int
  sr_Events :: "ChangeEvent list"
  sr_Error :: "err option"

record SnapshotProgress =
  sp_TotalTables :: int
  sp_CompletedTable :: int
  sp_StartTime :: gotime

definition worker_result :: "(SnapshotTask \<Rightarrow> ChangeEvent list \<times> err option) \<Rightarrow> SnapshotTask \<Rightarrow> SnapshotResult" where
  "worker_result readSnapshot task =
     (let (events, er) = readSnapshot task in
      \<lparr> sr_TableID = st_TableID task, sr_ChunkID = st_ChunkID task, sr_Events = events, sr_Error = er \<rparr>)"

definition start_progress :: "TableInfo list \<Rightarrow> gotime \<Rightarrow> SnapshotProgress" where
  "start_progress tables now = \<lparr> sp_TotalTables = int (length tables), sp_CompletedTable = 0, sp_StartTime = now \<rparr>"

fun handleResults :: "SnapshotProgress \<Rightarrow> SnapshotResult list \<Rightarrow> SnapshotProgress" where
  "handleResults p [] = p"
| "handleResults p (r # rs) =
     (if sr_Error r \<noteq> None then handleResults p rs
      else handleResults (p\<lparr> sp_CompletedTable := sp_CompletedTable p + 1 \<rparr>) rs)"

section \<open>The chunks of a key range\<close>

lemma wrap64_id: "in_int64 i \<Longrightarrow> wrap64 i = i"
  by (simp add: wrap64_def in_int64_def min_int64_def max_int64_def)

lemma wrap64_range: "in_int64 (wrap64 i)"
  using pos_mod_bound [of "2 ^ 64" "i + 2 ^ 63"] pos_mod_sign [of "2 ^ 64" "i + 2 ^ 63"]
  by (simp add: wrap64_def in_int64_def min_int64_def max_int64_def)

lemma chunk_loop_step:
  assumes "0 < sz" "in_int64 start" "mx + sz \<le> max_int64" "start \<le> mx" "0 \<le> n" "n < max_int64"
  shows "wrap64 (start + sz) = start + sz" "wrap64 (n + 1) = n + 1"
    "chunk_end sz mx start = min (start + sz - 1) mx" "in_int64 (start + sz)"
proof -
  have r: "in_int64 (start + sz)" "in_int64 (start + sz - 1)" "in_int64 (n + 1)"
    using assms by (simp_all add: in_int64_def min_int64_def max_int64_def)
  show "wrap64 (start + sz) = start + sz" "wrap64 (n + 1) = n + 1" "in_int64 (start + sz)"
    using r by (simp_all add: wrap64_id)
  show "chunk_end sz mx start = min (start + sz - 1) mx"
    using r by (auto simp: chunk_end_def wrap64_id Let_def)
qed

text \<open>The chunks as the property wants them: contiguous from \<open>start\<close> to \<open>mx\<close>, numbered from \<open>n\<close>, none too large.\<close>

fun chunks_ok :: "int \<Rightarrow> int \<Rightarrow> int \<Rightarrow> int \<Rightarrow> (int \<times> int \<times> int) list \<Rightarrow> bool" where
  "chunks_ok sz mx start n [] = (mx < start)"
| "chunks_ok sz mx start n ((i, s, e) # cs) =
     (i = n \<and> s = start \<and> s \<le> e \<and> e \<le> mx \<and> e - s < sz \<and> chunks_ok sz mx (e + 1) (n + 1) cs)"

lemma chunks_ok_beyond: "mx < start \<Longrightarrow> chunks_ok sz mx start n cs \<Longrightarrow> cs = []"
  by (cases cs) auto

lemma chunk_loop_ok:
  assumes "0 < sz" "mx + sz \<le> max_int64" "in_int64 start" "0 \<le> n" "n + (mx - start) < max_int64" "n \<le> max_int64"
  shows "\<exists>cs. chunk_loop sz mx start n = Some cs \<and> chunks_ok sz mx start n cs"
  using assms(3-6)
proof (induction "nat (mx - start + 1)" arbitrary: start n rule: less_induct)
  case less
  show ?case
  proof (cases "start \<le> mx")
    case False
    then show ?thesis by (intro exI [of _ "[]"]) (simp add: chunk_loop.simps)
  next
    case True
    have n: "n < max_int64" using less.prems(3) True by simp
    note st = chunk_loop_step [OF assms(1) less.prems(1) assms(2) True less.prems(2) n]
    have "\<exists>cs. chunk_loop sz mx (start + sz) (n + 1) = Some cs \<and> chunks_ok sz mx (start + sz) (n + 1) cs"
      using less.prems True st(4) n assms(1) by (intro less.hyps) auto
    then obtain cs where cs: "chunk_loop sz mx (start + sz) (n + 1) = Some cs"
      "chunks_ok sz mx (start + sz) (n + 1) cs" by blast
    have "chunk_loop sz mx start n = Some ((n, start, min (start + sz - 1) mx) # cs)"
      using True by (subst chunk_loop.simps) (simp add: st cs(1))
    moreover have "chunks_ok sz mx start n ((n, start, min (start + sz - 1) mx) # cs)"
    proof (cases "start + sz - 1 \<le> mx")
      case True
      with cs(2) assms(1) show ?thesis by simp
    next
      case False
      with cs(2) have "cs = []" by (intro chunks_ok_beyond [of mx "start + sz"]) auto
      with False True assms(1) show ?thesis by (simp add: min_def)
    qed
    ultimately show ?thesis by blast
  qed
qed

lemma chunks_ok_covers:
  assumes "chunks_ok sz mx start n cs" "start \<le> k" "k \<le> mx"
  shows "\<exists>!c. c \<in> set cs \<and> (case c of (i, s, e) \<Rightarrow> s \<le> k \<and> k \<le> e)"
  using assms
proof (induction cs arbitrary: start n)
  case (Cons c cs)
  obtain i s e where c: "c = (i, s, e)" by (cases c)
  have bound: "\<forall>(i, s, e) \<in> set ds. a \<le> s" if "chunks_ok sz mx a m ds" for a m ds
    using that
  proof (induction ds arbitrary: a m)
    case (Cons d ds)
    then show ?case by (cases d) (fastforce dest: Cons.IH)
  qed simp
  show ?case
  proof (cases "k \<le> e")
    case True
    have "\<not> (case d of (i, s, e) \<Rightarrow> s \<le> k \<and> k \<le> e)" if "d \<in> set cs" for d
      using bound [of "e + 1" "n + 1" cs] Cons.prems(1) c True that by auto
    with True Cons.prems c show ?thesis by (intro ex1I [of _ c]) auto
  next
    case False
    from Cons.IH [of "e + 1" "n + 1"] False Cons.prems c
    have "\<exists>!c. c \<in> set cs \<and> (case c of (i, s, e) \<Rightarrow> s \<le> k \<and> k \<le> e)" by simp
    with False c show ?thesis by auto
  qed
qed simp

lemma chunks_ok_ids: "chunks_ok sz mx start n cs \<Longrightarrow> map fst cs = map (\<lambda>i. n + int i) [0..<length cs]"
proof (induction cs arbitrary: start n)
  case (Cons c cs)
  obtain i s e where c: "c = (i, s, e)" by (cases c)
  with Cons.prems have "map fst cs = map (\<lambda>i. (n + 1) + int i) [0..<length cs]" "i = n" by (auto intro: Cons.IH)
  moreover have "map (\<lambda>i. n + int i) [0..<length (c # cs)] = n # map (\<lambda>i. (n + 1) + int i) [0..<length cs]"
    by (simp only: length_Cons upt_conv_Cons [of 0] map_Suc_upt [symmetric]) (simp add: comp_def)
  ultimately show ?case by (simp add: c)
qed simp

text \<open>
  C6. The chunks partition the key range. If the chunk size is positive and the largest key plus the
  chunk size fits into 64 bits, \<^verbatim>\<open>generateTableTasks\<close> returns, and its tasks are numbered from 0 in order;
  every key between the smallest and the largest lies in exactly one chunk, no chunk is larger than the
  configured sz, and all chunks lie inside the range.
\<close>

theorem chunks_partition:
  assumes "getKeyRange table = Inr (KInt64 mi, KInt64 ma)" "in_int64 mi"
    and "0 < scc_ChunkSize config" "ma + scc_ChunkSize config \<le> max_int64" "ma - mi < max_int64"
  shows "\<exists>cs. generateTableTasks config getKeyRange table
        = Some (Inr (map (chunk_task \<lparr> tid_Database = ti_Database table, tid_Schema = ti_Schema table,
                                       tid_Table = ti_Table table \<rparr> table KInt64) cs))
    \<and> map fst cs = map int [0..<length cs]
    \<and> (\<forall>k. mi \<le> k \<and> k \<le> ma \<longrightarrow> (\<exists>!c. c \<in> set cs \<and> (case c of (i, s, e) \<Rightarrow> s \<le> k \<and> k \<le> e)))
    \<and> list_all (\<lambda>(i, s, e). mi \<le> s \<and> s \<le> e \<and> e \<le> ma \<and> e - s < scc_ChunkSize config) cs"
proof -
  have "\<exists>cs. chunk_loop (scc_ChunkSize config) ma mi 0 = Some cs \<and> chunks_ok (scc_ChunkSize config) ma mi 0 cs"
    using assms(2-5) by (intro chunk_loop_ok) (simp_all add: max_int64_def)
  then obtain cs where cs: "chunk_loop (scc_ChunkSize config) ma mi 0 = Some cs"
    "chunks_ok (scc_ChunkSize config) ma mi 0 cs" by blast
  have b: "list_all (\<lambda>(i, s, e). a \<le> s \<and> s \<le> e \<and> e \<le> m \<and> e - s < sz) ds" if "chunks_ok sz m a n ds" for sz m a n ds
    using that
  proof (induction ds arbitrary: a n)
    case (Cons d ds)
    obtain i s e where d: "d = (i, s, e)" by (cases d)
    with Cons.IH [of "e + 1" "n + 1"] Cons.prems show ?case by (auto simp: list_all_iff)
  qed simp
  show ?thesis
  proof (intro exI [of _ cs] conjI allI impI)
    show "\<exists>!c. c \<in> set cs \<and> (case c of (i, s, e) \<Rightarrow> s \<le> k \<and> k \<le> e)" if "mi \<le> k \<and> k \<le> ma" for k
      using chunks_ok_covers [OF cs(2)] that by blast
  qed (use assms(1) cs(1) chunks_ok_ids [OF cs(2)] b [OF cs(2)] in \<open>simp_all add: generateTableTasks_def Let_def\<close>)
qed

definition wit_config :: "int \<Rightarrow> SnapshotConcurrencyConfig" where
  "wit_config sz = DefaultSnapshotConcurrencyConfig\<lparr> scc_ChunkSize := sz \<rparr>"

theorem chunks_partition_witness:
  "\<exists>cs. generateTableTasks (wit_config 4) (\<lambda>_. Inr (KInt64 1, KInt64 10)) TableInfo_zero
        = Some (Inr (map (chunk_task \<lparr> tid_Database = [], tid_Schema = [], tid_Table = [] \<rparr> TableInfo_zero KInt64) cs))
    \<and> (\<exists>!c. c \<in> set cs \<and> (case c of (i, s, e) \<Rightarrow> s \<le> 7 \<and> 7 \<le> e))"
proof -
  have "in_int64 1" "0 < scc_ChunkSize (wit_config 4)" "10 + scc_ChunkSize (wit_config 4) \<le> max_int64" "10 - 1 < max_int64"
    by (simp_all add: in_int64_def min_int64_def max_int64_def wit_config_def)
  from chunks_partition [where table = TableInfo_zero and getKeyRange = "\<lambda>_. Inr (KInt64 1, KInt64 10)", OF refl this]
  obtain cs where cs: "generateTableTasks (wit_config 4) (\<lambda>_. Inr (KInt64 1, KInt64 10)) TableInfo_zero
        = Some (Inr (map (chunk_task \<lparr> tid_Database = [], tid_Schema = [], tid_Table = [] \<rparr> TableInfo_zero KInt64) cs))"
      "\<forall>k. 1 \<le> k \<and> k \<le> 10 \<longrightarrow> (\<exists>!c. c \<in> set cs \<and> (case c of (i, s, e) \<Rightarrow> s \<le> k \<and> k \<le> e))"
    by (auto simp: TableInfo_zero_def)
  from cs(2) have "\<exists>!c. c \<in> set cs \<and> (case c of (i, s, e) \<Rightarrow> s \<le> 7 \<and> 7 \<le> e)" by simp
  with cs(1) show ?thesis by blast
qed

lemma chunk_loop_diverges:
  assumes "\<And>s. P s \<Longrightarrow> s \<le> mx \<and> P (wrap64 (s + sz))"
  shows "P start \<Longrightarrow> chunk_loop sz mx start n \<noteq> Some cs"
proof (induction cs arbitrary: start n)
  case Nil
  then show ?case using assms [of start] by (subst chunk_loop.simps) (auto simp: Option.bind_eq_Some_conv)
next
  case (Cons c cs)
  show ?case
  proof
    assume "chunk_loop sz mx start n = Some (c # cs)"
    then have "chunk_loop sz mx (wrap64 (start + sz)) (wrap64 (n + 1)) = Some cs"
      using assms [OF Cons.prems] by (subst (asm) chunk_loop.simps) (auto simp: Option.bind_eq_Some_conv)
    with Cons.IH assms [OF Cons.prems] show False by blast
  qed
qed

text \<open>
  C36. Where the loop over the key range does not end. If the smallest key is not above the largest,
  and the chunk size is zero, or the largest key is the largest 64-bit integer (so that no start can
  exceed it and the sum wraps around), \<^verbatim>\<open>generateTableTasks\<close> never returns.
\<close>

theorem chunks_do_not_end:
  assumes "getKeyRange table = Inr (KInt64 mi, KInt64 ma)" "in_int64 mi" "mi \<le> ma"
    and "scc_ChunkSize config = 0 \<or> ma = max_int64"
  shows "generateTableTasks config getKeyRange table = None"
proof -
  have "chunk_loop (scc_ChunkSize config) ma mi 0 \<noteq> Some cs" for cs
  proof (cases "ma = max_int64")
    case True
    show ?thesis
      by (rule chunk_loop_diverges [of in_int64, OF _ assms(2)]) (simp add: True wrap64_range, simp add: in_int64_def)
  next
    case False
    with assms(2-4) show ?thesis
      by (intro chunk_loop_diverges [of "\<lambda>s. s = mi"]) (simp_all add: wrap64_id)
  qed
  then have "chunk_loop (scc_ChunkSize config) ma mi 0 = None" by blast
  then show ?thesis using assms(1) by (simp add: generateTableTasks_def Let_def)
qed

theorem chunks_do_not_end_witness:
  "generateTableTasks (wit_config 100) (\<lambda>_. Inr (KInt64 1, KInt64 9223372036854775807)) TableInfo_zero = None"
  by (rule chunks_do_not_end [OF refl]) (simp_all add: in_int64_def min_int64_def max_int64_def)

section \<open>Progress\<close>

lemma handleResults_total: "sp_TotalTables (handleResults p rs) = sp_TotalTables p"
  by (induction rs arbitrary: p) simp_all

lemma handleResults_completed:
  "sp_CompletedTable (handleResults p rs) = sp_CompletedTable p + int (length (filter (\<lambda>r. sr_Error r = None) rs))"
  by (induction rs arbitrary: p) simp_all

text \<open>
  Progress goes beyond 100 per cent. The total is the number of tables but every chunk that
  succeeds counts as a completed table: when the workers have read all tasks without error, in whatever
  order the results arrive, the count of completed tables is the number of tasks, which is larger than
  the total as soon as there are more tasks than tables.
\<close>

theorem progress_counts_chunks:
  assumes "\<And>task. snd (readSnapshot task) = None" "mset results = mset (map (worker_result readSnapshot) tasks)"
  shows "sp_CompletedTable (handleResults (start_progress tables now) results) = int (length tasks)
    \<and> sp_TotalTables (handleResults (start_progress tables now) results) = int (length tables)"
proof -
  have "set results = set (map (worker_result readSnapshot) tasks)" using mset_eq_setD [OF assms(2)] .
  then have "\<forall>r \<in> set results. sr_Error r = None"
    using assms(1) by (auto simp: worker_result_def case_prod_beta)
  then have "filter (\<lambda>r. sr_Error r = None) results = results" by (simp add: filter_id_conv)
  moreover have "length results = length tasks" using mset_eq_length [OF assms(2)] by simp
  ultimately show ?thesis by (simp add: handleResults_completed handleResults_total start_progress_def)
qed

theorem progress_counts_chunks_witness:
  "let task = whole_task \<lparr> tid_Database = [], tid_Schema = [], tid_Table = [] \<rparr> TableInfo_zero in
   sp_CompletedTable (handleResults (start_progress [TableInfo_zero] 0)
     (map (worker_result (\<lambda>_. ([], None))) [task, task, task])) = 3"
proof -
  let ?task = "whole_task \<lparr> tid_Database = [], tid_Schema = [], tid_Table = [] \<rparr> TableInfo_zero"
  have "sp_CompletedTable (handleResults (start_progress [TableInfo_zero] 0)
      (map (worker_result (\<lambda>_. ([], None))) [?task, ?task, ?task])) = int (length [?task, ?task, ?task])"
    by (rule conjunct1 [OF progress_counts_chunks [of "\<lambda>_. ([], None)" _ "[?task, ?task, ?task]"]]) simp_all
  then show ?thesis by (simp only: Let_def) simp
qed

end
