(* ===== verification/Sink_Writer.thy ===== *)
theory Sink_Writer
  imports Events Go_Text
begin

section \<open>Rows, hashing and dispatch (internal/sink)\<close>

text \<open>
  The concurrent sink writer: events are dispatched to workers by a hash of their row key
  (row_identifier.go, hash_dispatcher.go) and each worker writes batches (concurrent_writer.go). The
  verb \<^verbatim>\<open>%v\<close> on a column value is the argument \<open>fmtv\<close>. A channel is the list of its elements. A method
  that may wait forever returns \<^const>\<open>None\<close> when it waits.
\<close>

subsection \<open>Row identifiers (row_identifier.go)\<close>

datatype RowKeyType = KeyTypePrimaryKey | KeyTypeUniqueIndex | KeyTypeFullRow

record RowIdentifier =
  ri_Schema :: string
  ri_Database :: string
  ri_Table :: string
  ri_PrimaryKeyValues :: string
  ri_KeyType :: RowKeyType

definition key_part :: "(gval \<Rightarrow> string) \<Rightarrow> RowData \<Rightarrow> string \<Rightarrow> string" where
  "key_part fmtv row col = col @ ''='' @ fmtv (fst (RowData_Get (Some row) col))"

definition extractKeyValues :: "(gval \<Rightarrow> string) \<Rightarrow> RowData \<Rightarrow> string list \<Rightarrow> string" where
  "extractKeyValues fmtv row columns = strings_Join (map (key_part fmtv row) columns) '',''"

definition extractFullRow :: "(gval \<Rightarrow> string) \<Rightarrow> RowData \<Rightarrow> string" where
  "extractFullRow fmtv row =
     (if RowData_IsEmpty (Some row) then []
      else strings_Join (map (key_part fmtv row) (sort (ColumnNames (Some row)))) '','')"

definition BuildRowIdentifier :: "(gval \<Rightarrow> string) \<Rightarrow> ChangeEvent \<Rightarrow> TableInfo \<Rightarrow> RowIdentifier" where
  "BuildRowIdentifier fmtv e schema =
     (let rid = \<lparr> ri_Schema = ti_Schema schema, ri_Database = ti_Database schema, ri_Table = ti_Table schema,
                  ri_PrimaryKeyValues = [], ri_KeyType = KeyTypePrimaryKey \<rparr>;
          row = (if RowData_IsEmpty (Some (ev_After e)) then ev_Before e else ev_After e)
      in if HasPrimaryKey schema
         then rid\<lparr> ri_PrimaryKeyValues := extractKeyValues fmtv row (ti_PrimaryKeyColumns schema),
                   ri_KeyType := KeyTypePrimaryKey \<rparr>
         else if HasUniqueKey schema
         then rid\<lparr> ri_PrimaryKeyValues := extractKeyValues fmtv row (ti_UniqueKeyColumns schema),
                   ri_KeyType := KeyTypeUniqueIndex \<rparr>
         else rid\<lparr> ri_PrimaryKeyValues := extractFullRow fmtv row, ri_KeyType := KeyTypeFullRow \<rparr>)"

definition HashKey :: "RowIdentifier \<Rightarrow> string" where
  "HashKey r = ri_Schema r @ ''.'' @ ri_Database r @ ''.'' @ ri_Table r @ '':'' @ ri_PrimaryKeyValues r"

definition RowIdentifier_String :: "RowIdentifier \<Rightarrow> string" where
  "RowIdentifier_String r =
     (let keyTypeName = (case ri_KeyType r of
            KeyTypePrimaryKey \<Rightarrow> ''pk'' | KeyTypeUniqueIndex \<Rightarrow> ''uk'' | KeyTypeFullRow \<Rightarrow> ''fullrow'')
      in ri_Schema r @ ''.'' @ ri_Database r @ ''.'' @ ri_Table r @ ''['' @ keyTypeName @ '':'' @
         ri_PrimaryKeyValues r @ '']'')"

subsection \<open>The dispatcher (hash_dispatcher.go)\<close>

definition NoPKStrategySingle :: string where "NoPKStrategySingle = ''single''"
definition NoPKStrategyTable :: string where "NoPKStrategyTable = ''table''"

record DispatcherConfig =
  dc_WorkerCount :: int
  dc_BufferSize :: int
  dc_NoPKTableStrategy :: string

definition DefaultDispatcherConfig :: DispatcherConfig where
  "DefaultDispatcherConfig =
     \<lparr> dc_WorkerCount = 4, dc_BufferSize = 1024, dc_NoPKTableStrategy = NoPKStrategyTable \<rparr>"

record HashDispatcher =
  hd_config :: DispatcherConfig
  hd_workerChans :: "ChangeEvent list list"
  hd_tableWorkerMap :: "(string, int) gomap"
  hd_closed :: bool

definition NewHashDispatcher :: "DispatcherConfig option \<Rightarrow> HashDispatcher" where
  "NewHashDispatcher config =
     (let c = (case config of None \<Rightarrow> DefaultDispatcherConfig | Some c \<Rightarrow> c);
          c = (if dc_WorkerCount c \<le> 0 then c\<lparr> dc_WorkerCount := 4 \<rparr> else c);
          c = (if dc_BufferSize c \<le> 0 then c\<lparr> dc_BufferSize := 1024 \<rparr> else c);
          c = (if dc_NoPKTableStrategy c = [] then c\<lparr> dc_NoPKTableStrategy := NoPKStrategyTable \<rparr> else c)
      in \<lparr> hd_config = c, hd_workerChans = replicate (nat (dc_WorkerCount c)) [], hd_tableWorkerMap = [],
           hd_closed = False \<rparr>)"

definition fnv32 :: "string \<Rightarrow> uint32" where
  "fnv32 key = fold (\<lambda>ch h. (h XOR of_nat (of_char ch)) * 16777619) key 2166136261"

definition sink_tableKey :: "TableInfo \<Rightarrow> string" where
  "sink_tableKey schema = ti_Schema schema @ ''.'' @ ti_Database schema @ ''.'' @ ti_Table schema"

definition hash_worker :: "int \<Rightarrow> string \<Rightarrow> int" where
  "hash_worker n key = uint (fnv32 key) mod n"

definition calculateWorkerID ::
  "(gval \<Rightarrow> string) \<Rightarrow> HashDispatcher \<Rightarrow> ChangeEvent \<Rightarrow> TableInfo \<Rightarrow> HashDispatcher \<times> int" where
  "calculateWorkerID fmtv d e schema =
     (let rid = BuildRowIdentifier fmtv e schema; n = dc_WorkerCount (hd_config d) in
      case ri_KeyType rid of
        KeyTypeFullRow \<Rightarrow>
          if dc_NoPKTableStrategy (hd_config d) = NoPKStrategySingle then (d, 0)
          else
            let tableKey = sink_tableKey schema in
            (case map_of (hd_tableWorkerMap d) tableKey of
               Some i \<Rightarrow> (d, i)
             | None \<Rightarrow>
                 let workerID = hash_worker n tableKey in
                 (d\<lparr> hd_tableWorkerMap := AList.update tableKey workerID (hd_tableWorkerMap d) \<rparr>, workerID))
      | _ \<Rightarrow> (d, hash_worker n (HashKey rid)))"

text \<open>
  \<^verbatim>\<open>Dispatch\<close>: the send is possible when the worker's channel has room; \<open>ctx\<close> is the error of the context
  if it has ended, and \<open>pick\<close> is what \<^verbatim>\<open>select\<close> takes when both cases are ready.
\<close>

definition Dispatch ::
  "(gval \<Rightarrow> string) \<Rightarrow> bool \<Rightarrow> err option \<Rightarrow> HashDispatcher \<Rightarrow> ChangeEvent \<Rightarrow> TableInfo
     \<Rightarrow> (HashDispatcher \<times> err option) option" where
  "Dispatch fmtv pick ctx d e schema =
     (let (d, workerID) = calculateWorkerID fmtv d e schema; w = nat workerID in
      if workerID < 0 \<or> length (hd_workerChans d) \<le> w
      then Some (d, Some (Panic ''index out of range''))
      else if hd_closed d
      then (if ctx \<noteq> None \<and> \<not> pick then Some (d, ctx) else Some (d, Some (Panic ''send on closed channel'')))
      else
        let room = (int (length (hd_workerChans d ! w)) < dc_BufferSize (hd_config d)) in
        if room \<and> (ctx = None \<or> pick)
        then Some (d\<lparr> hd_workerChans := (hd_workerChans d)[w := hd_workerChans d ! w @ [e]] \<rparr>, None)
        else if ctx \<noteq> None then Some (d, ctx)
        else None)"

definition hd_Close :: "HashDispatcher \<Rightarrow> HashDispatcher \<times> err option" where
  "hd_Close d =
     (if hd_closed d \<and> hd_workerChans d \<noteq> [] then (d, Some (Panic ''close of closed channel''))
      else (d\<lparr> hd_closed := True \<rparr>, None))"

subsection \<open>The workers (concurrent_writer.go)\<close>

record ConcurrentSinkConfig =
  csc_WorkerCount :: int
  csc_BatchSize :: int
  csc_FlushInterval :: int
  csc_MaxRetry :: int
  csc_RetryBackoff :: int

definition DefaultConcurrentSinkConfig :: ConcurrentSinkConfig where
  "DefaultConcurrentSinkConfig =
     \<lparr> csc_WorkerCount = 4, csc_BatchSize = 100, csc_FlushInterval = 500000000, csc_MaxRetry = 3,
       csc_RetryBackoff = 100000000 \<rparr>"

record SinkWorker =
  sw_id :: int
  sw_batchSize :: int
  sw_maxRetry :: int
  sw_buffer :: "ChangeEvent list"
  sw_eventsWritten :: int
  sw_batchesFlushed :: int
  sw_batchesFailed :: int

text \<open>
  \<^verbatim>\<open>flush\<close> is called with the background context, which never ends: the attempts go on until one
  succeeds or \<^verbatim>\<open>maxRetry\<close> retries have failed. The waits between them do not change the result.
  \<open>n\<close> is the number of attempts left.
\<close>

fun flush_loop ::
  "('k \<Rightarrow> ChangeEvent list \<Rightarrow> 'k \<times> err option) \<Rightarrow> ChangeEvent list \<Rightarrow> nat \<Rightarrow> 'k \<Rightarrow> err option \<Rightarrow> 'k \<times> bool \<times> err option" where
  "flush_loop write batch 0 sink lastErr = (sink, False, lastErr)"
| "flush_loop write batch (Suc n) sink lastErr =
     (case write sink batch of
        (sink, Some e) \<Rightarrow> flush_loop write batch n sink (Some e)
      | (sink, None) \<Rightarrow> (sink, True, None))"

definition flush ::
  "('k \<Rightarrow> ChangeEvent list \<Rightarrow> 'k \<times> err option) \<Rightarrow> SinkWorker \<Rightarrow> 'k \<Rightarrow> SinkWorker \<times> 'k \<times> err option" where
  "flush write w sink =
     (if sw_buffer w = [] then (w, sink, None)
      else
        let batch = sw_buffer w; w = w\<lparr> sw_buffer := [] \<rparr> in
        case flush_loop write batch (nat (sw_maxRetry w + 1)) sink None of
          (sink, True, _) \<Rightarrow>
            (w\<lparr> sw_eventsWritten := sw_eventsWritten w + int (length batch),
                sw_batchesFlushed := sw_batchesFlushed w + 1 \<rparr>, sink, None)
        | (sink, False, lastErr) \<Rightarrow> (w\<lparr> sw_batchesFailed := sw_batchesFailed w + 1 \<rparr>, sink, lastErr))"

text \<open>The cases of the \<^verbatim>\<open>select\<close> in \<^verbatim>\<open>SinkWorker.Run\<close>: an event, the tick, the closed channel, the end of the context.\<close>

datatype work_in = WEvent ChangeEvent | WTick | WClosed | WDone

definition run_case ::
  "('k \<Rightarrow> ChangeEvent list \<Rightarrow> 'k \<times> err option) \<Rightarrow> work_in \<Rightarrow> SinkWorker \<Rightarrow> 'k \<Rightarrow> SinkWorker \<times> 'k \<times> bool" where
  "run_case write inp w sink =
     (case inp of
        WEvent e \<Rightarrow>
          (let w = w\<lparr> sw_buffer := sw_buffer w @ [e] \<rparr> in
           if int (length (sw_buffer w)) \<ge> sw_batchSize w
           then let (w, sink, _) = flush write w sink in (w, sink, True)
           else (w, sink, True))
      | WTick \<Rightarrow>
          if length (sw_buffer w) > 0
          then let (w, sink, _) = flush write w sink in (w, sink, True)
          else (w, sink, True)
      | WClosed \<Rightarrow> (let (w, sink, _) = flush write w sink in (w, sink, False))
      | WDone \<Rightarrow> (let (w, sink, _) = flush write w sink in (w, sink, False)))"

record 'k ConcurrentSinkWriter =
  cw_sink :: 'k
  cw_dispatcher :: HashDispatcher
  cw_workers :: "SinkWorker list"
  cw_running :: "bool list"

definition NewConcurrentSinkWriter :: "'k \<Rightarrow> ConcurrentSinkConfig option \<Rightarrow> 'k ConcurrentSinkWriter" where
  "NewConcurrentSinkWriter sink config =
     (let c = (case config of None \<Rightarrow> DefaultConcurrentSinkConfig | Some c \<Rightarrow> c);
          c = (if csc_WorkerCount c \<le> 0 then c\<lparr> csc_WorkerCount := 4 \<rparr> else c);
          c = (if csc_BatchSize c \<le> 0 then c\<lparr> csc_BatchSize := 100 \<rparr> else c);
          c = (if csc_FlushInterval c \<le> 0 then c\<lparr> csc_FlushInterval := 500000000 \<rparr> else c);
          d = NewHashDispatcher (Some \<lparr> dc_WorkerCount = csc_WorkerCount c, dc_BufferSize = csc_BatchSize c * 4,
                                        dc_NoPKTableStrategy = NoPKStrategyTable \<rparr>);
          worker = (\<lambda>i. \<lparr> sw_id = int i, sw_batchSize = csc_BatchSize c, sw_maxRetry = csc_MaxRetry c, sw_buffer = [],
                          sw_eventsWritten = 0, sw_batchesFlushed = 0, sw_batchesFailed = 0 \<rparr>)
      in \<lparr> cw_sink = sink, cw_dispatcher = d, cw_workers = map worker [0..<nat (csc_WorkerCount c)],
           cw_running = replicate (nat (csc_WorkerCount c)) True \<rparr>)"

definition cw_Stats :: "'k ConcurrentSinkWriter \<Rightarrow> int \<times> int" where
  "cw_Stats w = (sum_list (map sw_eventsWritten (cw_workers w)), sum_list (map sw_batchesFlushed (cw_workers w)))"

text \<open>
  The steps of a running writer: a \<^verbatim>\<open>Write\<close> whose send succeeds, one pass of a worker through its loop
  (it takes the head of its channel, a tick, or notices that its channel is closed and empty), and
  \<^verbatim>\<open>Close\<close>, of which only the first has an effect (\<^verbatim>\<open>closeOnce\<close>). The context of the workers is cancelled
  only after they have returned. A worker that has returned takes no more steps. The trace collects the dispatched events.
\<close>

datatype cw_label = LWrite ChangeEvent TableInfo | LWork nat | LTick nat | LClose

fun cw_exec ::
  "(gval \<Rightarrow> string) \<Rightarrow> ('k \<Rightarrow> ChangeEvent list \<Rightarrow> 'k \<times> err option) \<Rightarrow> cw_label \<Rightarrow> 'k ConcurrentSinkWriter
     \<Rightarrow> 'k ConcurrentSinkWriter option" where
  "cw_exec fmtv write (LWrite e schema) w =
     (case Dispatch fmtv True None (cw_dispatcher w) e schema of
        Some (d, None) \<Rightarrow> Some (w\<lparr> cw_dispatcher := d \<rparr>)
      | _ \<Rightarrow> None)"
| "cw_exec fmtv write (LWork i) w =
     (if i < length (cw_workers w) \<and> i < length (cw_running w) \<and> cw_running w ! i
      then
        case hd_workerChans (cw_dispatcher w) ! i of
          e # q \<Rightarrow>
            (let (wk, sink, r) = run_case write (WEvent e) (cw_workers w ! i) (cw_sink w) in
             Some (w\<lparr> cw_workers := (cw_workers w)[i := wk], cw_sink := sink,
                      cw_dispatcher := (cw_dispatcher w)\<lparr> hd_workerChans := (hd_workerChans (cw_dispatcher w))[i := q] \<rparr> \<rparr>))
        | [] \<Rightarrow>
            if hd_closed (cw_dispatcher w)
            then let (wk, sink, r) = run_case write WClosed (cw_workers w ! i) (cw_sink w) in
                 Some (w\<lparr> cw_workers := (cw_workers w)[i := wk], cw_sink := sink, cw_running := (cw_running w)[i := r] \<rparr>)
            else None
      else None)"
| "cw_exec fmtv write (LTick i) w =
     (if i < length (cw_workers w) \<and> i < length (cw_running w) \<and> cw_running w ! i
      then let (wk, sink, r) = run_case write WTick (cw_workers w ! i) (cw_sink w) in
           Some (w\<lparr> cw_workers := (cw_workers w)[i := wk], cw_sink := sink \<rparr>)
      else None)"
| "cw_exec fmtv write LClose w =
     (if hd_closed (cw_dispatcher w) then Some w else Some (w\<lparr> cw_dispatcher := fst (hd_Close (cw_dispatcher w)) \<rparr>))"

inductive cw_run ::
  "(gval \<Rightarrow> string) \<Rightarrow> ('k \<Rightarrow> ChangeEvent list \<Rightarrow> 'k \<times> err option) \<Rightarrow> 'k ConcurrentSinkWriter
     \<Rightarrow> (ChangeEvent \<times> TableInfo) list \<Rightarrow> 'k ConcurrentSinkWriter \<Rightarrow> bool"
  for fmtv :: "gval \<Rightarrow> string" and wr :: "'k \<Rightarrow> ChangeEvent list \<Rightarrow> 'k \<times> err option"
    and w0 :: "'k ConcurrentSinkWriter" where
  cw_start: "cw_run fmtv wr w0 [] w0"
| cw_write: "cw_run fmtv wr w0 tr w \<Longrightarrow> cw_exec fmtv wr (LWrite e schema) w = Some w'
     \<Longrightarrow> cw_run fmtv wr w0 (tr @ [(e, schema)]) w'"
| cw_other: "cw_run fmtv wr w0 tr w \<Longrightarrow> cw_exec fmtv wr l w = Some w' \<Longrightarrow> \<forall>e schema. l \<noteq> LWrite e schema
     \<Longrightarrow> cw_run fmtv wr w0 tr w'"

section \<open>Where an event goes\<close>

text \<open>What decides the worker of an event: its row key, or its table when it has none.\<close>

definition keyed :: "TableInfo \<Rightarrow> bool" where
  "keyed schema = (HasPrimaryKey schema \<or> HasUniqueKey schema)"

definition lane :: "(gval \<Rightarrow> string) \<Rightarrow> ChangeEvent \<Rightarrow> TableInfo \<Rightarrow> string" where
  "lane fmtv e schema =
     (if keyed schema then HashKey (BuildRowIdentifier fmtv e schema) else sink_tableKey schema)"

lemma key_type: "ri_KeyType (BuildRowIdentifier fmtv e schema) = KeyTypeFullRow \<longleftrightarrow> \<not> keyed schema"
  by (simp add: BuildRowIdentifier_def keyed_def Let_def)

definition hd_inv :: "DispatcherConfig \<Rightarrow> HashDispatcher \<Rightarrow> bool" where
  "hd_inv c d =
     (hd_config d = c \<and> 0 < dc_WorkerCount c \<and> int (length (hd_workerChans d)) = dc_WorkerCount c
      \<and> (\<forall>k i. map_of (hd_tableWorkerMap d) k = Some i \<longrightarrow> i = hash_worker (dc_WorkerCount c) k))"

definition worker_of :: "(gval \<Rightarrow> string) \<Rightarrow> DispatcherConfig \<Rightarrow> ChangeEvent \<Rightarrow> TableInfo \<Rightarrow> int" where
  "worker_of fmtv c e schema =
     (if \<not> keyed schema \<and> dc_NoPKTableStrategy c = NoPKStrategySingle then 0
      else hash_worker (dc_WorkerCount c) (lane fmtv e schema))"

lemma calculateWorkerID_inv:
  assumes "hd_inv c d"
  shows "snd (calculateWorkerID fmtv d e schema) = worker_of fmtv c e schema"
    "hd_inv c (fst (calculateWorkerID fmtv d e schema))"
    "hd_workerChans (fst (calculateWorkerID fmtv d e schema)) = hd_workerChans d"
    "hd_closed (fst (calculateWorkerID fmtv d e schema)) = hd_closed d"
proof -
  have kt: "ri_KeyType (BuildRowIdentifier fmtv e schema) = KeyTypeFullRow \<longleftrightarrow> \<not> keyed schema" by (rule key_type)
  show "snd (calculateWorkerID fmtv d e schema) = worker_of fmtv c e schema"
    using assms kt by (auto simp: calculateWorkerID_def worker_of_def lane_def hd_inv_def Let_def
        split: RowKeyType.split option.split)
  show "hd_inv c (fst (calculateWorkerID fmtv d e schema))"
    using assms by (auto simp: calculateWorkerID_def hd_inv_def Let_def split: RowKeyType.split option.split)
  show "hd_workerChans (fst (calculateWorkerID fmtv d e schema)) = hd_workerChans d"
    "hd_closed (fst (calculateWorkerID fmtv d e schema)) = hd_closed d"
    by (auto simp: calculateWorkerID_def Let_def split: RowKeyType.split option.split)
qed

lemma worker_of_range: "0 < dc_WorkerCount c \<Longrightarrow> 0 \<le> worker_of fmtv c e schema \<and> worker_of fmtv c e schema < dc_WorkerCount c"
  by (simp add: worker_of_def hash_worker_def)

lemma Dispatch_cases:
  assumes "hd_inv c d"
  shows "Dispatch fmtv pick ctx d e schema =
     (let d' = fst (calculateWorkerID fmtv d e schema); w = nat (worker_of fmtv c e schema) in
      if hd_closed d
      then (if ctx \<noteq> None \<and> \<not> pick then Some (d', ctx) else Some (d', Some (Panic ''send on closed channel'')))
      else if int (length (hd_workerChans d ! w)) < dc_BufferSize c \<and> (ctx = None \<or> pick)
      then Some (d'\<lparr> hd_workerChans := (hd_workerChans d)[w := hd_workerChans d ! w @ [e]] \<rparr>, None)
      else if ctx \<noteq> None then Some (d', ctx)
      else None)"
proof -
  have r: "0 \<le> worker_of fmtv c e schema" "nat (worker_of fmtv c e schema) < length (hd_workerChans d)"
    using worker_of_range [of c fmtv e schema] assms by (auto simp: hd_inv_def)
  have cfg: "hd_config (fst (calculateWorkerID fmtv d e schema)) = c"
    using calculateWorkerID_inv(2) [OF assms] by (simp add: hd_inv_def)
  show ?thesis
    using r by (simp add: Dispatch_def case_prod_beta Let_def calculateWorkerID_inv [OF assms] cfg) auto
qed

lemma hd_inv_chans: "hd_inv c d \<Longrightarrow> length qs = length (hd_workerChans d) \<Longrightarrow> hd_inv c (d\<lparr> hd_workerChans := qs \<rparr>)"
  by (simp add: hd_inv_def)

lemma Dispatch_result:
  assumes "hd_inv c d" "Dispatch fmtv pick ctx d e schema = Some (d', er)"
  shows "d' = fst (calculateWorkerID fmtv d e schema)
    \<or> er = None \<and> \<not> hd_closed d \<and> d' = (fst (calculateWorkerID fmtv d e schema))\<lparr> hd_workerChans :=
        (hd_workerChans d)[nat (worker_of fmtv c e schema) := hd_workerChans d ! nat (worker_of fmtv c e schema) @ [e]] \<rparr>"
  using assms(2) unfolding Dispatch_cases [OF assms(1)] Let_def by (simp split: if_splits)

lemma Dispatch_inv:
  assumes "hd_inv c d" "Dispatch fmtv pick ctx d e schema = Some (d', er)"
  shows "hd_inv c d'"
  using Dispatch_result [OF assms] hd_inv_chans [OF calculateWorkerID_inv(2) [OF assms(1)]]
    calculateWorkerID_inv(2,3) [OF assms(1), of fmtv e schema] by auto

lemma New_inv: "hd_inv (hd_config (NewHashDispatcher config)) (NewHashDispatcher config)"
  by (auto simp: NewHashDispatcher_def hd_inv_def Let_def DefaultDispatcherConfig_def split: option.split)

text \<open>The dispatchers that any calls of \<^verbatim>\<open>Dispatch\<close> and \<^verbatim>\<open>Close\<close> lead to.\<close>

inductive hd_reach :: "(gval \<Rightarrow> string) \<Rightarrow> DispatcherConfig option \<Rightarrow> HashDispatcher \<Rightarrow> bool"
  for fmtv :: "gval \<Rightarrow> string" and config :: "DispatcherConfig option" where
  reach_new: "hd_reach fmtv config (NewHashDispatcher config)"
| reach_dispatch: "hd_reach fmtv config d \<Longrightarrow> Dispatch fmtv pick ctx d e schema = Some (d', er) \<Longrightarrow> hd_reach fmtv config d'"
| reach_close: "hd_reach fmtv config d \<Longrightarrow> hd_reach fmtv config (fst (hd_Close d))"

lemma hd_reach_inv: "hd_reach fmtv config d \<Longrightarrow> hd_inv (hd_config (NewHashDispatcher config)) d"
proof (induction rule: hd_reach.induct)
  case reach_new
  show ?case by (rule New_inv)
next
  case (reach_dispatch d pick ctx e schema d' er)
  then show ?case by (blast intro: Dispatch_inv)
next
  case (reach_close d)
  then show ?case by (simp add: hd_inv_def hd_Close_def)
qed

text \<open>
  The worker of an event. For every configuration, after any calls of \<^verbatim>\<open>Dispatch\<close> and \<^verbatim>\<open>Close\<close>, the
  worker computed for an event is the index of one of the channels (so dispatching never indexes out of
  range), and two events whose row keys (or tables, for tables without a key) agree always get the same
  worker, however many other events were dispatched in between.
\<close>

theorem dispatch_worker:
  assumes "hd_reach fmtv config d" "hd_reach fmtv config d'"
  shows "0 \<le> snd (calculateWorkerID fmtv d e schema)
    \<and> nat (snd (calculateWorkerID fmtv d e schema)) < length (hd_workerChans d)
    \<and> (keyed schema' = keyed schema \<and> lane fmtv e' schema' = lane fmtv e schema \<longrightarrow>
         snd (calculateWorkerID fmtv d' e' schema') = snd (calculateWorkerID fmtv d e schema))"
proof -
  note inv = hd_reach_inv [OF assms(1)] hd_reach_inv [OF assms(2)]
  let ?c = "hd_config (NewHashDispatcher config)"
  have "0 < dc_WorkerCount ?c" "int (length (hd_workerChans d)) = dc_WorkerCount ?c"
    using inv(1) by (auto simp: hd_inv_def)
  with worker_of_range [of ?c fmtv e schema] show ?thesis
    by (auto simp: calculateWorkerID_inv(1) [OF inv(1)] calculateWorkerID_inv(1) [OF inv(2)] worker_of_def)
qed

definition sink_event :: "string \<Rightarrow> ChangeEvent" where
  "sink_event i =
     \<lparr> ev_ID = i, ev_Source = SourceInfo_zero, ev_Type = EventTypeInsert, ev_Position = Position_zero,
       ev_Table = TableInfo_zero, ev_Before = RowData_zero, ev_After = RowData_zero, ev_Timestamp = 0,
       ev_Transaction = None, ev_Schema = None, ev_Metadata = None \<rparr>"

theorem dispatch_worker_witness:
  "nat (snd (calculateWorkerID (\<lambda>_. []) (NewHashDispatcher None) (sink_event ''1'') TableInfo_zero)) < 4"
proof -
  have "nat (snd (calculateWorkerID (\<lambda>_. []) (NewHashDispatcher None) (sink_event ''1'') TableInfo_zero))
      < length (hd_workerChans (NewHashDispatcher None))"
    by (rule conjunct1 [OF conjunct2 [OF dispatch_worker [OF reach_new reach_new]]])
  moreover have "length (hd_workerChans (NewHashDispatcher None)) = 4"
    by (simp add: NewHashDispatcher_def DefaultDispatcherConfig_def NoPKStrategyTable_def Let_def)
  ultimately show ?thesis by (simp only:)
qed

section \<open>Order of the rows at the sink\<close>

definition keep :: "ChangeEvent list \<Rightarrow> ChangeEvent list \<Rightarrow> ChangeEvent list \<times> err option" where
  "keep k batch = (k @ batch, None)"

lemma flush_keep:
  assumes "0 \<le> sw_maxRetry w"
  obtains w' where "flush keep w sink = (w', sink @ sw_buffer w, None)" "sw_buffer w' = []" "sw_maxRetry w' = sw_maxRetry w"
proof -
  have "nat (sw_maxRetry w + 1) = Suc (nat (sw_maxRetry w))" using assms by simp
  then show ?thesis using that by (cases "sw_buffer w = []") (auto simp: flush_def keep_def Let_def)
qed

text \<open>A batch that the sink refuses in every attempt is gone: the worker goes on with an empty buffer.\<close>

lemma flush_loop_fails:
  "(\<And>k. \<exists>e. wr k batch = (k, Some e)) \<Longrightarrow> \<exists>e. flush_loop wr batch n sink err = (sink, False, e)"
proof (induction n arbitrary: err)
  case (Suc n)
  obtain e where "wr sink batch = (sink, Some e)" using Suc.prems by blast
  then show ?case using Suc.IH [OF Suc.prems] by simp
qed simp

lemma failed_batch_lost:
  assumes "sw_buffer w \<noteq> []" "\<And>k. \<exists>e. write k (sw_buffer w) = (k, Some e)"
  shows "\<exists>w'. run_case write WTick w sink = (w', sink, True) \<and> sw_buffer w' = []
    \<and> sw_batchesFailed w' = sw_batchesFailed w + 1"
  using flush_loop_fails [where wr = "write" and batch = "sw_buffer w" and n = "nat (sw_maxRetry w + 1)" and sink = sink
      and err = "None", OF assms(2)] assms(1)
  by (auto simp: run_case_def flush_def Let_def)

text \<open>One pass of a worker moves its buffer (with the new event) to the sink or keeps it.\<close>

definition passes :: "SinkWorker \<Rightarrow> ChangeEvent list \<Rightarrow> ChangeEvent list \<Rightarrow> SinkWorker \<Rightarrow> ChangeEvent list \<Rightarrow> bool" where
  "passes w sink new w' sink' =
     (sw_maxRetry w' = sw_maxRetry w
      \<and> (sink' = sink \<and> sw_buffer w' = sw_buffer w @ new \<or> sink' = sink @ sw_buffer w @ new \<and> sw_buffer w' = []))"

lemma run_case_passes:
  assumes "0 \<le> sw_maxRetry w" "run_case keep inp w sink = (w', sink', r)"
  shows "passes w sink (case inp of WEvent e \<Rightarrow> [e] | _ \<Rightarrow> []) w' sink'
    \<and> (r \<longleftrightarrow> (case inp of WClosed \<Rightarrow> False | WDone \<Rightarrow> False | _ \<Rightarrow> True)) \<and> (r \<or> sw_buffer w' = [])"
proof (cases inp)
  case (WEvent e)
  let ?w = "w\<lparr> sw_buffer := sw_buffer w @ [e] \<rparr>"
  obtain w1 where "flush keep ?w sink = (w1, sink @ sw_buffer ?w, None)" "sw_buffer w1 = []" "sw_maxRetry w1 = sw_maxRetry ?w"
    using flush_keep [of ?w sink] assms(1) by auto
  with WEvent assms(2) show ?thesis
    by (auto simp: run_case_def passes_def Let_def split: if_splits)
next
  case WTick
  obtain w1 where "flush keep w sink = (w1, sink @ sw_buffer w, None)" "sw_buffer w1 = []" "sw_maxRetry w1 = sw_maxRetry w"
    using flush_keep [OF assms(1)] .
  with WTick assms(2) show ?thesis by (auto simp: run_case_def passes_def split: if_splits)
next
  case WClosed
  obtain w1 where "flush keep w sink = (w1, sink @ sw_buffer w, None)" "sw_buffer w1 = []" "sw_maxRetry w1 = sw_maxRetry w"
    using flush_keep [OF assms(1)] .
  with WClosed assms(2) show ?thesis by (auto simp: run_case_def passes_def)
next
  case WDone
  obtain w1 where "flush keep w sink = (w1, sink @ sw_buffer w, None)" "sw_buffer w1 = []" "sw_maxRetry w1 = sw_maxRetry w"
    using flush_keep [OF assms(1)] .
  with WDone assms(2) show ?thesis by (auto simp: run_case_def passes_def)
qed

lemma Dispatch_sent:
  assumes "hd_inv c d" "Dispatch fmtv True None d e schema = Some (d', None)"
  shows "\<not> hd_closed d \<and> d' = (fst (calculateWorkerID fmtv d e schema))\<lparr> hd_workerChans :=
        (hd_workerChans d)[nat (worker_of fmtv c e schema) := hd_workerChans d ! nat (worker_of fmtv c e schema) @ [e]] \<rparr>"
  using assms(2) unfolding Dispatch_cases [OF assms(1)] Let_def by (simp split: if_splits)

text \<open>
  The invariant of a running writer, for a function \<open>sch\<close> that gives the schema with which each event is
  written: every event in the buffer or the channel of a worker is in a lane of that worker, a worker
  that has returned has nothing left, and lane by lane the sink, the buffer and the channel together
  hold the events written, in order.
\<close>

definition lane_filter :: "(ChangeEvent \<Rightarrow> string) \<Rightarrow> string \<Rightarrow> ChangeEvent list \<Rightarrow> ChangeEvent list" where
  "lane_filter lan l es = filter (\<lambda>e. lan e = l) es"

lemma lane_filter_Nil [simp]: "lane_filter lan l [] = []"
  by (simp add: lane_filter_def)

lemma lane_filter_append [simp]: "lane_filter lan l (as @ bs) = lane_filter lan l as @ lane_filter lan l bs"
  by (simp add: lane_filter_def)

lemma lane_filter_none: "\<forall>e \<in> set es. lan e \<noteq> l \<Longrightarrow> lane_filter lan l es = []"
  by (simp add: lane_filter_def filter_empty_conv)

definition wid :: "DispatcherConfig \<Rightarrow> string \<Rightarrow> nat" where
  "wid c l = nat (hash_worker (dc_WorkerCount c) l)"

definition cw_parts ::
  "DispatcherConfig \<Rightarrow> (ChangeEvent \<Rightarrow> string) \<Rightarrow> SinkWorker list \<Rightarrow> ChangeEvent list list \<Rightarrow> bool list \<Rightarrow> bool \<Rightarrow> bool" where
  "cw_parts c lan ws qs rs closed =
     (length ws = length qs \<and> length rs = length qs
      \<and> (\<forall>i < length qs. 0 \<le> sw_maxRetry (ws ! i)
          \<and> (\<forall>e \<in> set (sw_buffer (ws ! i)) \<union> set (qs ! i). wid c (lan e) = i)
          \<and> (\<not> rs ! i \<longrightarrow> closed \<and> sw_buffer (ws ! i) = [] \<and> qs ! i = [])))"

definition cw_lanes ::
  "DispatcherConfig \<Rightarrow> (ChangeEvent \<Rightarrow> string) \<Rightarrow> SinkWorker list \<Rightarrow> ChangeEvent list list \<Rightarrow> ChangeEvent list
     \<Rightarrow> ChangeEvent list \<Rightarrow> bool" where
  "cw_lanes c lan ws qs sink es =
     (\<forall>l. lane_filter lan l sink @ lane_filter lan l (sw_buffer (ws ! wid c l)) @ lane_filter lan l (qs ! wid c l)
          = lane_filter lan l es)"

definition cw_inv ::
  "DispatcherConfig \<Rightarrow> (ChangeEvent \<Rightarrow> string) \<Rightarrow> ChangeEvent list \<Rightarrow> ChangeEvent list ConcurrentSinkWriter \<Rightarrow> bool" where
  "cw_inv c lan es w =
     (hd_inv c (cw_dispatcher w) \<and> dc_NoPKTableStrategy c = NoPKStrategyTable
      \<and> cw_parts c lan (cw_workers w) (hd_workerChans (cw_dispatcher w)) (cw_running w) (hd_closed (cw_dispatcher w))
      \<and> cw_lanes c lan (cw_workers w) (hd_workerChans (cw_dispatcher w)) (cw_sink w) es)"

lemma wid_less: "hd_inv c d \<Longrightarrow> wid c l < length (hd_workerChans d)"
  by (auto simp: hd_inv_def wid_def hash_worker_def nat_less_iff)

lemma cw_pass:
  assumes parts: "cw_parts c lan ws qs rs closed" and lanes: "cw_lanes c lan ws qs sink es"
    and j: "j < length qs" "rs ! j" "qs ! j = new @ q" and p: "passes (ws ! j) sink new w' sink'"
    and r: "r \<or> closed \<and> sw_buffer w' = [] \<and> q = []" and n: "\<And>l. wid c l < length qs"
  shows "cw_parts c lan (ws[j := w']) (qs[j := q]) (rs[j := r]) closed
    \<and> cw_lanes c lan (ws[j := w']) (qs[j := q]) sink' es"
proof
  have old: "\<forall>e \<in> set (sw_buffer (ws ! j)) \<union> set (qs ! j). wid c (lan e) = j" "0 \<le> sw_maxRetry (ws ! j)"
    "length ws = length qs" "length rs = length qs"
    using parts j(1) by (auto simp: cw_parts_def)
  have new: "\<forall>e \<in> set (sw_buffer w') \<union> set q. wid c (lan e) = j" "0 \<le> sw_maxRetry w'"
    using old p j(3) by (auto simp: passes_def)
  show "cw_parts c lan (ws[j := w']) (qs[j := q]) (rs[j := r]) closed"
    unfolding cw_parts_def
  proof (intro conjI allI impI)
    fix i
    assume i: "i < length (qs[j := q])"
    have "i \<noteq> j \<Longrightarrow> 0 \<le> sw_maxRetry (ws ! i) \<and> (\<forall>e \<in> set (sw_buffer (ws ! i)) \<union> set (qs ! i). wid c (lan e) = i)
        \<and> (\<not> rs ! i \<longrightarrow> closed \<and> sw_buffer (ws ! i) = [] \<and> qs ! i = [])"
      using parts i unfolding cw_parts_def by simp
    then have all: "0 \<le> sw_maxRetry (ws[j := w'] ! i)
        \<and> (\<forall>e \<in> set (sw_buffer (ws[j := w'] ! i)) \<union> set (qs[j := q] ! i). wid c (lan e) = i)
        \<and> (\<not> rs[j := r] ! i \<longrightarrow> closed \<and> sw_buffer (ws[j := w'] ! i) = [] \<and> qs[j := q] ! i = [])"
      using new r i old(3,4) by (cases "i = j") auto
    from all show "0 \<le> sw_maxRetry (ws[j := w'] ! i)" by blast
    from all show "\<forall>e \<in> set (sw_buffer (ws[j := w'] ! i)) \<union> set (qs[j := q] ! i). wid c (lan e) = i" by blast
    assume "\<not> rs[j := r] ! i"
    with all show "closed" "sw_buffer (ws[j := w'] ! i) = []" "qs[j := q] ! i = []" by blast+
  qed (simp_all add: old)
  show "cw_lanes c lan (ws[j := w']) (qs[j := q]) sink' es"
    unfolding cw_lanes_def
  proof
    fix l
    have eq: "lane_filter lan l sink @ lane_filter lan l (sw_buffer (ws ! wid c l)) @ lane_filter lan l (qs ! wid c l)
        = lane_filter lan l es" using lanes by (simp add: cw_lanes_def)
    show "lane_filter lan l sink' @ lane_filter lan l (sw_buffer (ws[j := w'] ! wid c l))
        @ lane_filter lan l (qs[j := q] ! wid c l) = lane_filter lan l es"
    proof (cases "wid c l = j")
      case True
      with eq p j(1,3) old(3) show ?thesis by (auto simp: passes_def)
    next
      case False
      have "\<forall>e \<in> set (sw_buffer (ws ! j) @ new). lan e \<noteq> l" using old(1) j(3) False by auto
      then have "lane_filter lan l (sw_buffer (ws ! j)) @ lane_filter lan l new = []"
        using lane_filter_none by (metis lane_filter_append)
      then have "lane_filter lan l sink' = lane_filter lan l sink" using p by (auto simp: passes_def)
      with eq False show ?thesis by simp
    qed
  qed
qed

lemma cw_inv_write:
  assumes inv: "cw_inv c lan es w" and lan: "lan e = lane fmtv e schema"
    and st: "cw_exec fmtv keep (LWrite e schema) w = Some w'"
  shows "cw_inv c lan (es @ [e]) w'"
proof -
  let ?d = "cw_dispatcher w" and ?i = "wid c (lan e)"
  let ?qs = "hd_workerChans ?d"
  have hi: "hd_inv c ?d" and strat: "dc_NoPKTableStrategy c = NoPKStrategyTable" using inv by (simp_all add: cw_inv_def)
  have wk: "nat (worker_of fmtv c e schema) = ?i"
    using strat by (simp add: worker_of_def wid_def lan NoPKStrategySingle_def NoPKStrategyTable_def)
  obtain d' where d': "Dispatch fmtv True None ?d e schema = Some (d', None)" "w' = w\<lparr> cw_dispatcher := d' \<rparr>"
    using st by (auto split: option.splits prod.splits)
  from Dispatch_sent [OF hi d'(1)]
  have cl: "\<not> hd_closed ?d" and d: "d' = (fst (calculateWorkerID fmtv ?d e schema))\<lparr> hd_workerChans := ?qs[?i := ?qs ! ?i @ [e]] \<rparr>"
    by (simp_all add: wk)
  have il: "?i < length ?qs" by (rule wid_less [OF hi])
  have "hd_inv c d'"
    unfolding d by (rule hd_inv_chans [OF calculateWorkerID_inv(2) [OF hi]]) (simp add: calculateWorkerID_inv(3) [OF hi])
  moreover have "hd_workerChans d' = ?qs[?i := ?qs ! ?i @ [e]]" "hd_closed d' = hd_closed ?d"
    unfolding d by (simp_all add: calculateWorkerID_inv(4) [OF hi])
  moreover have "cw_parts c lan (cw_workers w) (?qs[?i := ?qs ! ?i @ [e]]) (cw_running w) (hd_closed ?d)"
  proof -
    have parts: "cw_parts c lan (cw_workers w) ?qs (cw_running w) False" using inv cl by (simp add: cw_inv_def)
    have new: "\<forall>x \<in> set (sw_buffer (cw_workers w ! i)) \<union> set (?qs[?i := ?qs ! ?i @ [e]] ! i). wid c (lan x) = i"
      if i: "i < length ?qs" for i
    proof -
      have "\<forall>x \<in> set (sw_buffer (cw_workers w ! i)) \<union> set (?qs ! i). wid c (lan x) = i"
        using parts i unfolding cw_parts_def by blast
      moreover have "set (?qs[k := ?qs ! k @ [e]] ! i) \<subseteq> set (?qs ! i) \<union> (if k = i then {e} else {})" for k
        using i by (cases "k = i") auto
      from this [of ?i] have "\<forall>x \<in> set (?qs[?i := ?qs ! ?i @ [e]] ! i). x \<in> set (?qs ! i) \<or> x = e \<and> ?i = i"
        by (auto split: if_splits)
      ultimately show ?thesis by blast
    qed
    have "0 \<le> sw_maxRetry (cw_workers w ! i) \<and> cw_running w ! i" if "i < length ?qs" for i
      using parts that unfolding cw_parts_def by blast
    moreover have "length (cw_workers w) = length ?qs" "length (cw_running w) = length ?qs"
      using parts by (simp_all add: cw_parts_def)
    ultimately show ?thesis unfolding cw_parts_def length_list_update using new by blast
  qed
  moreover have "cw_lanes c lan (cw_workers w) (?qs[?i := ?qs ! ?i @ [e]]) (cw_sink w) (es @ [e])"
    unfolding cw_lanes_def
  proof
    fix l
    have eq: "lane_filter lan l (cw_sink w) @ lane_filter lan l (sw_buffer (cw_workers w ! wid c l))
        @ lane_filter lan l (?qs ! wid c l) = lane_filter lan l es" using inv by (simp add: cw_inv_def cw_lanes_def)
    have q: "lane_filter lan l (?qs[?i := ?qs ! ?i @ [e]] ! wid c l)
        = lane_filter lan l (?qs ! wid c l) @ lane_filter lan l [e]"
      using il by (cases "wid c l = ?i") (auto simp: lane_filter_def)
    show "lane_filter lan l (cw_sink w) @ lane_filter lan l (sw_buffer (cw_workers w ! wid c l))
        @ lane_filter lan l (?qs[?i := ?qs ! ?i @ [e]] ! wid c l) = lane_filter lan l (es @ [e])"
      unfolding q lane_filter_append eq [symmetric] by simp
  qed
  ultimately show ?thesis using strat by (simp add: cw_inv_def d'(2))
qed

lemma cw_inv_other:
  assumes inv: "cw_inv c lan es w" and st: "cw_exec fmtv keep l w = Some w'" and l: "\<forall>e schema. l \<noteq> LWrite e schema"
  shows "cw_inv c lan es w'"
proof -
  let ?d = "cw_dispatcher w"
  let ?qs = "hd_workerChans ?d"
  have hi: "hd_inv c ?d" and strat: "dc_NoPKTableStrategy c = NoPKStrategyTable"
    and parts: "cw_parts c lan (cw_workers w) ?qs (cw_running w) (hd_closed ?d)"
    and lanes: "cw_lanes c lan (cw_workers w) ?qs (cw_sink w) es" using inv by (simp_all add: cw_inv_def)
  note n = wid_less [OF hi]
  have len: "length (cw_workers w) = length ?qs" "length (cw_running w) = length ?qs" using parts by (simp_all add: cw_parts_def)
  have mr: "0 \<le> sw_maxRetry (cw_workers w ! i)" if "i < length ?qs" for i using parts that by (simp add: cw_parts_def)
  show ?thesis
  proof (cases l)
    case (LWork i)
    then have i: "i < length ?qs" "cw_running w ! i" using st len by (auto split: if_splits)
    show ?thesis
    proof (cases "?qs ! i")
      case (Cons e q)
      obtain wk sink r where rc: "run_case keep (WEvent e) (cw_workers w ! i) (cw_sink w) = (wk, sink, r)"
        by (cases "run_case keep (WEvent e) (cw_workers w ! i) (cw_sink w)")
      from run_case_passes [OF mr [OF i(1)] rc] have p: "passes (cw_workers w ! i) (cw_sink w) [e] wk sink" by simp
      have w': "w' = w\<lparr> cw_workers := (cw_workers w)[i := wk], cw_sink := sink,
            cw_dispatcher := ?d\<lparr> hd_workerChans := ?qs[i := q] \<rparr> \<rparr>"
        using st LWork i len Cons rc by simp
      have "cw_parts c lan ((cw_workers w)[i := wk]) (?qs[i := q]) ((cw_running w)[i := True]) (hd_closed ?d)
          \<and> cw_lanes c lan ((cw_workers w)[i := wk]) (?qs[i := q]) sink es"
        by (rule cw_pass [OF parts lanes i _ p _ n]) (simp_all add: Cons)
      moreover have "(cw_running w)[i := True] = cw_running w" using i len by (metis list_update_id)
      ultimately show ?thesis using hi strat w' by (simp add: cw_inv_def hd_inv_chans)
    next
      case Nil
      obtain wk sink r where rc: "run_case keep WClosed (cw_workers w ! i) (cw_sink w) = (wk, sink, r)"
        by (cases "run_case keep WClosed (cw_workers w ! i) (cw_sink w)")
      from run_case_passes [OF mr [OF i(1)] rc]
      have p: "passes (cw_workers w ! i) (cw_sink w) [] wk sink" "\<not> r" "sw_buffer wk = []" by auto
      have cl: "hd_closed ?d" and w': "w' = w\<lparr> cw_workers := (cw_workers w)[i := wk], cw_sink := sink,
            cw_running := (cw_running w)[i := r] \<rparr>"
        using st LWork i len Nil rc by (simp_all split: if_splits)
      have "cw_parts c lan ((cw_workers w)[i := wk]) (?qs[i := []]) ((cw_running w)[i := r]) (hd_closed ?d)
          \<and> cw_lanes c lan ((cw_workers w)[i := wk]) (?qs[i := []]) sink es"
        by (rule cw_pass [OF parts lanes i _ p(1) _ n]) (simp_all add: Nil cl p)
      moreover have "?qs[i := []] = ?qs" using i Nil by (metis list_update_id)
      ultimately show ?thesis using hi strat w' by (simp add: cw_inv_def)
    qed
  next
    case (LTick i)
    then have i: "i < length ?qs" "cw_running w ! i" using st len by (auto split: if_splits)
    obtain wk sink r where rc: "run_case keep WTick (cw_workers w ! i) (cw_sink w) = (wk, sink, r)"
      by (cases "run_case keep WTick (cw_workers w ! i) (cw_sink w)")
    from run_case_passes [OF mr [OF i(1)] rc] have p: "passes (cw_workers w ! i) (cw_sink w) [] wk sink" by simp
    have w': "w' = w\<lparr> cw_workers := (cw_workers w)[i := wk], cw_sink := sink \<rparr>" using st LTick i len rc by simp
    have "cw_parts c lan ((cw_workers w)[i := wk]) (?qs[i := ?qs ! i]) ((cw_running w)[i := True]) (hd_closed ?d)
        \<and> cw_lanes c lan ((cw_workers w)[i := wk]) (?qs[i := ?qs ! i]) sink es"
      by (rule cw_pass [OF parts lanes i _ p _ n]) simp_all
    moreover have "(cw_running w)[i := True] = cw_running w" using i len by (metis list_update_id)
    ultimately show ?thesis using hi strat w' by (simp add: cw_inv_def)
  next
    case LClose
    show ?thesis
    proof (cases "hd_closed ?d")
      case True
      then show ?thesis using inv st LClose by simp
    next
      case False
      then have "w' = w\<lparr> cw_dispatcher := ?d\<lparr> hd_closed := True \<rparr> \<rparr>" using st LClose by (simp add: hd_Close_def)
      then show ?thesis using inv False by (auto simp: cw_inv_def hd_inv_def cw_parts_def)
    qed
  qed (use l in blast)
qed

lemma New_shape:
  assumes "0 \<le> csc_MaxRetry config"
  obtains n b worker where "0 < n" "0 < b" "\<forall>i. sw_buffer (worker i) = []" "\<forall>i. 0 \<le> sw_maxRetry (worker i)"
    "NewConcurrentSinkWriter sink (Some config) =
       \<lparr> cw_sink = sink,
         cw_dispatcher = \<lparr> hd_config = \<lparr> dc_WorkerCount = n, dc_BufferSize = b, dc_NoPKTableStrategy = NoPKStrategyTable \<rparr>,
                           hd_workerChans = replicate (nat n) [], hd_tableWorkerMap = [], hd_closed = False \<rparr>,
         cw_workers = map worker [0..<nat n], cw_running = replicate (nat n) True \<rparr>"
proof -
  define c where "c = (if csc_WorkerCount config \<le> 0 then config\<lparr> csc_WorkerCount := 4 \<rparr> else config)"
  define c' where "c' = (if csc_BatchSize c \<le> 0 then c\<lparr> csc_BatchSize := 100 \<rparr> else c)"
  define c'' where "c'' = (if csc_FlushInterval c' \<le> 0 then c'\<lparr> csc_FlushInterval := 500000000 \<rparr> else c')"
  have pos: "0 < csc_WorkerCount c''" "0 < csc_BatchSize c''" "csc_MaxRetry c'' = csc_MaxRetry config"
    by (simp_all add: c''_def c'_def c_def)
  define worker where "worker = (\<lambda>i. \<lparr> sw_id = int i, sw_batchSize = csc_BatchSize c'', sw_maxRetry = csc_MaxRetry c'', sw_buffer = [],
      sw_eventsWritten = 0, sw_batchesFlushed = 0, sw_batchesFailed = 0 \<rparr>)"
  have new: "NewConcurrentSinkWriter sink (Some config) =
      \<lparr> cw_sink = sink,
        cw_dispatcher = NewHashDispatcher (Some \<lparr> dc_WorkerCount = csc_WorkerCount c'', dc_BufferSize = csc_BatchSize c'' * 4,
                                                   dc_NoPKTableStrategy = NoPKStrategyTable \<rparr>),
        cw_workers = map worker [0..<nat (csc_WorkerCount c'')], cw_running = replicate (nat (csc_WorkerCount c'')) True \<rparr>"
    by (simp only: NewConcurrentSinkWriter_def Let_def option.case worker_def c''_def [symmetric] c'_def [symmetric] c_def [symmetric])
  show thesis
    by (rule that [of "csc_WorkerCount c''" "csc_BatchSize c'' * 4" worker])
      (use pos assms in \<open>simp_all add: new NewHashDispatcher_def NoPKStrategyTable_def worker_def\<close>)
qed

lemma cw_inv_new:
  assumes "0 \<le> csc_MaxRetry config"
  shows "\<exists>c. cw_inv c lan [] (NewConcurrentSinkWriter [] (Some config))"
proof -
  obtain n b worker where w: "0 < n" "0 < b" "\<forall>i. sw_buffer (worker i) = []" "\<forall>i. 0 \<le> sw_maxRetry (worker i)"
    "NewConcurrentSinkWriter [] (Some config) =
       \<lparr> cw_sink = ([] :: ChangeEvent list),
         cw_dispatcher = \<lparr> hd_config = \<lparr> dc_WorkerCount = n, dc_BufferSize = b, dc_NoPKTableStrategy = NoPKStrategyTable \<rparr>,
                           hd_workerChans = replicate (nat n) [], hd_tableWorkerMap = [], hd_closed = False \<rparr>,
         cw_workers = map worker [0..<nat n], cw_running = replicate (nat n) True \<rparr>"
    by (rule New_shape [OF assms, where sink = "[]"]) (rule that, assumption+)
  let ?c = "\<lparr> dc_WorkerCount = n, dc_BufferSize = b, dc_NoPKTableStrategy = NoPKStrategyTable \<rparr>"
  let ?d = "\<lparr> hd_config = ?c, hd_workerChans = replicate (nat n) [], hd_tableWorkerMap = [], hd_closed = False \<rparr>"
  have hi: "hd_inv ?c ?d" using w(1,2) by (simp add: hd_inv_def)
  then have "wid ?c l < nat n" for l using wid_less [OF hi] by simp
  then have "cw_lanes ?c lan (map worker [0..<nat n]) (replicate (nat n) []) [] []"
    unfolding cw_lanes_def by (simp add: w(3))
  moreover have "cw_parts ?c lan (map worker [0..<nat n]) (replicate (nat n) []) (replicate (nat n) True) False"
    unfolding cw_parts_def by (simp add: w(3,4))
  ultimately have "cw_inv ?c lan [] (NewConcurrentSinkWriter [] (Some config))" using hi by (simp add: cw_inv_def w(5))
  then show ?thesis by (rule exI)
qed

text \<open>A schedule of a writer, as a list of its steps.\<close>

fun cw_execs ::
  "(gval \<Rightarrow> string) \<Rightarrow> ('k \<Rightarrow> ChangeEvent list \<Rightarrow> 'k \<times> err option) \<Rightarrow> cw_label list \<Rightarrow> 'k ConcurrentSinkWriter
     \<Rightarrow> 'k ConcurrentSinkWriter option" where
  "cw_execs fmtv write [] w = Some w"
| "cw_execs fmtv write (l # ls) w = (case cw_exec fmtv write l w of None \<Rightarrow> None | Some w' \<Rightarrow> cw_execs fmtv write ls w')"

fun writes_of :: "cw_label list \<Rightarrow> (ChangeEvent \<times> TableInfo) list" where
  "writes_of [] = []"
| "writes_of (LWrite e schema # ls) = (e, schema) # writes_of ls"
| "writes_of (_ # ls) = writes_of ls"

lemma cw_execs_run:
  "cw_execs fmtv write ls w = Some w' \<Longrightarrow> cw_run fmtv write w0 tr w \<Longrightarrow> cw_run fmtv write w0 (tr @ writes_of ls) w'"
proof (induction ls arbitrary: w tr)
  case (Cons l ls)
  then obtain w1 where w1: "cw_exec fmtv write l w = Some w1" "cw_execs fmtv write ls w1 = Some w'"
    by (auto split: option.splits)
  show ?case
  proof (cases "\<exists>e schema. l = LWrite e schema")
    case True
    then obtain e schema where l: "l = LWrite e schema" by blast
    show ?thesis using Cons.IH [OF w1(2) cw_write [OF Cons.prems(2) w1(1) [unfolded l]]] by (simp add: l)
  next
    case False
    then have "writes_of (l # ls) = writes_of ls" by (cases l) auto
    then show ?thesis using Cons.IH [OF w1(2) cw_other [OF Cons.prems(2) w1(1)]] False by simp
  qed
qed simp

text \<open>
  C5. Changes to one row reach the sink in the order in which they were written. Take a concurrent
  writer whose sink accepts every batch, and any interleaving of \<^verbatim>\<open>Write\<close> calls, passes of the workers
  through their loops, ticks and \<^verbatim>\<open>Close\<close>. At every moment the events of a row (or of a table without
  a key) that the sink has received are a prefix of those written; and once all workers have returned
  after \<^verbatim>\<open>Close\<close>, the sink has received all of them.
\<close>

theorem row_order_preserved:
  assumes "cw_run fmtv keep (NewConcurrentSinkWriter [] (Some config)) tr w" "0 \<le> csc_MaxRetry config"
    and "\<forall>(e, schema) \<in> set tr. schema = sch e"
  shows "(\<exists>rest. filter (\<lambda>e. lane fmtv e (sch e) = l) (map fst tr) = filter (\<lambda>e. lane fmtv e (sch e) = l) (cw_sink w) @ rest)
    \<and> (list_all (\<lambda>r. \<not> r) (cw_running w) \<longrightarrow>
         filter (\<lambda>e. lane fmtv e (sch e) = l) (cw_sink w) = filter (\<lambda>e. lane fmtv e (sch e) = l) (map fst tr))"
proof -
  let ?lan = "\<lambda>e. lane fmtv e (sch e)"
  obtain c where c: "cw_inv c ?lan [] (NewConcurrentSinkWriter [] (Some config))"
    using cw_inv_new [OF assms(2)] by blast
  have inv: "cw_inv c ?lan (map fst tr) w"
    using assms(1,3)
  proof (induction rule: cw_run.induct)
    case cw_start
    show ?case using c by simp
  next
    case (cw_write tr w e schema w')
    then have "cw_inv c ?lan (map fst tr @ [e]) w'"
      by (intro cw_inv_write [where fmtv = fmtv and schema = schema and w = w]) auto
    then show ?case by simp
  next
    case (cw_other tr w l w')
    then show ?case by (blast intro: cw_inv_other)
  qed
  let ?i = "wid c l" and ?qs = "hd_workerChans (cw_dispatcher w)"
  have eq: "lane_filter ?lan l (cw_sink w) @ lane_filter ?lan l (sw_buffer (cw_workers w ! ?i)) @ lane_filter ?lan l (?qs ! ?i)
      = lane_filter ?lan l (map fst tr)" using inv by (simp add: cw_inv_def cw_lanes_def)
  have il: "?i < length ?qs" using inv by (intro wid_less) (simp add: cw_inv_def)
  have "sw_buffer (cw_workers w ! ?i) = [] \<and> ?qs ! ?i = []" if "list_all (\<lambda>r. \<not> r) (cw_running w)"
    using inv il that by (auto simp: cw_inv_def cw_parts_def list_all_length)
  then show ?thesis using eq [symmetric] by (auto simp: lane_filter_def)
qed

lemma case_option_ex: "(case x of None \<Rightarrow> False | Some w \<Rightarrow> P w) \<Longrightarrow> \<exists>w. x = Some w \<and> P w"
  by (cases x) auto

theorem row_order_preserved_witness:
  "\<exists>w. cw_run (\<lambda>_. []) keep (NewConcurrentSinkWriter [] (Some (DefaultConcurrentSinkConfig\<lparr> csc_WorkerCount := 1 \<rparr>)))
      [(sink_event ''1'', TableInfo_zero), (sink_event ''2'', TableInfo_zero)] w
    \<and> list_all (\<lambda>r. \<not> r) (cw_running w) \<and> cw_sink w = [sink_event ''1'', sink_event ''2'']"
proof -
  let ?w0 = "NewConcurrentSinkWriter [] (Some (DefaultConcurrentSinkConfig\<lparr> csc_WorkerCount := 1 \<rparr>))"
  let ?ls = "[LWrite (sink_event ''1'') TableInfo_zero, LWork 0, LWrite (sink_event ''2'') TableInfo_zero, LTick 0, LClose,
              LWork 0, LWork 0]"
  have w0: "?w0 =
      \<lparr> cw_sink = ([] :: ChangeEvent list),
        cw_dispatcher = \<lparr> hd_config = \<lparr> dc_WorkerCount = 1, dc_BufferSize = 400, dc_NoPKTableStrategy = NoPKStrategyTable \<rparr>,
                          hd_workerChans = [[]], hd_tableWorkerMap = [], hd_closed = False \<rparr>,
        cw_workers = [\<lparr> sw_id = 0, sw_batchSize = 100, sw_maxRetry = 3, sw_buffer = [], sw_eventsWritten = 0,
                         sw_batchesFlushed = 0, sw_batchesFailed = 0 \<rparr>],
        cw_running = [True] \<rparr>"
    by (simp add: NewConcurrentSinkWriter_def NewHashDispatcher_def DefaultConcurrentSinkConfig_def NoPKStrategyTable_def Let_def)
  have id: "calculateWorkerID (\<lambda>_. []) d e TableInfo_zero =
      (d\<lparr> hd_tableWorkerMap := [(sink_tableKey TableInfo_zero, 0)] \<rparr>, 0)"
    if "dc_WorkerCount (hd_config d) = 1" "dc_NoPKTableStrategy (hd_config d) = NoPKStrategyTable"
      "hd_tableWorkerMap d \<in> {[], [(sink_tableKey TableInfo_zero, 0)]}" for d e
    using that by (auto simp: calculateWorkerID_def BuildRowIdentifier_def HasPrimaryKey_def HasUniqueKey_def TableInfo_zero_def
        hash_worker_def Let_def NoPKStrategyTable_def NoPKStrategySingle_def)
  have "case cw_execs (\<lambda>_. []) keep ?ls ?w0 of None \<Rightarrow> False | Some w \<Rightarrow> list_all (\<lambda>r. \<not> r) (cw_running w)"
    unfolding w0
    by (simp add: Dispatch_def id run_case_def flush_def keep_def hd_Close_def Let_def eval_nat_numeral)
  from case_option_ex [OF this] obtain w
    where "cw_execs (\<lambda>_. []) keep ?ls ?w0 = Some w \<and> list_all (\<lambda>r. \<not> r) (cw_running w)" ..
  note w = conjunct1 [OF this] conjunct2 [OF this]
  have run: "cw_run (\<lambda>_. []) keep ?w0 [(sink_event ''1'', TableInfo_zero), (sink_event ''2'', TableInfo_zero)] w"
    using cw_execs_run [OF w(1) cw_start] by simp
  have "lane (\<lambda>_. []) e TableInfo_zero = sink_tableKey TableInfo_zero" for e
    by (simp add: lane_def keyed_def HasPrimaryKey_def HasUniqueKey_def TableInfo_zero_def)
  with row_order_preserved [OF run, of "\<lambda>_. TableInfo_zero" "sink_tableKey TableInfo_zero"] w(2) run show ?thesis
    by (intro exI [of _ w]) (simp add: DefaultConcurrentSinkConfig_def)
qed

end
