(* ===== verification/Oracle_Dml.thy ===== *)
theory Oracle_Dml
  imports Go_Text
begin

unbundle bit_operations_syntax

section \<open>The DML parser of the Oracle source (internal/source/oracle/dml_parser.go)\<close>

text \<open>
  The parser of the SQL text that LogMiner reconstructs. Its state is the text, a position and the
  length; here it is the unread rest of the text, \<^verbatim>\<open>p.sql[p.pos:]\<close>, and the position that error texts
  mention is the length of the text less the length of the rest. A text_slice \<^verbatim>\<open>p.sql[start:p.pos]\<close> is what
  the rest at \<^verbatim>\<open>start\<close> has before the rest at \<^verbatim>\<open>p.pos\<close> (\<open>text_slice\<close>). An index beyond the end is a panic.
  The loop over the values of an INSERT may run forever, so its result is an option. The last sections
  show that the statements LogMiner prints are read back, and where the parser does not return.
\<close>

datatype DmlType = DmlInsert | DmlUpdate | DmlDelete

record DmlEntry =
  de_Type :: DmlType
  de_NewValues :: "(string, string) gomap"
  de_OldValues :: "(string, string) gomap"

definition out_of_range :: err where
  "out_of_range = Panic ''index out of range''"

definition text_slice :: "string \<Rightarrow> string \<Rightarrow> string" where
  "text_slice from_start from_pos = take (length from_start - length from_pos) from_start"

definition starts :: "char \<Rightarrow> string \<Rightarrow> bool" where
  "starts c s = (case s of [] \<Rightarrow> False | x # _ \<Rightarrow> x = c)"

subsection \<open>Scanning\<close>

fun skipSpaces :: "string \<Rightarrow> string" where
  "skipSpaces [] = []"
| "skipSpaces (c # s) = (if c = CHR '' '' then skipSpaces s else c # s)"

fun skipWhitespace :: "string \<Rightarrow> string" where
  "skipWhitespace [] = []"
| "skipWhitespace (c # s) =
     (if c = CHR '' '' \<or> c = CHR 0x09 \<or> c = CHR 0x0A \<or> c = CHR 0x0D then skipWhitespace s else c # s)"

text \<open>
  \<^verbatim>\<open>strings.EqualFold\<close> of a prefix of the text with an ASCII word of the same number of bytes: a rune of
  several bytes cannot fold to an ASCII letter without changing that number.
\<close>

definition hasPrefix :: "string \<Rightarrow> string \<Rightarrow> bool" where
  "hasPrefix s prefix = (length prefix \<le> length s \<and> ToLower (take (length prefix) s) = ToLower prefix)"

definition expect :: "nat \<Rightarrow> string \<Rightarrow> string \<Rightarrow> string res" where
  "expect n tok s =
     (if \<not> hasPrefix s tok
      then Inl (Errorf (''expected '' @ Quote_esc tok @ '' at pos '' @ nat_decimal (n - length s) @ '', got ''
             @ Quote_esc (take (length tok) s)))
      else Inr (drop (length tok) s))"

fun skip_name :: "bool \<Rightarrow> string \<Rightarrow> string" where
  "skip_name inQuote [] = []"
| "skip_name inQuote (c # s) =
     (if c = CHR 0x22 then skip_name (\<not> inQuote) s
      else if \<not> inQuote \<and> (c = CHR ''('' \<or> c = CHR '' '') then c # s
      else skip_name inQuote s)"

definition skipTableName :: "string \<Rightarrow> string" where
  "skipTableName s = skip_name False s"

definition readQuotedName :: "string \<Rightarrow> string \<times> string" where
  "readQuotedName s =
     (case skipSpaces s of
        [] \<Rightarrow> ([], [])
      | c # r \<Rightarrow>
          if c \<noteq> CHR 0x22 then ([], c # r)
          else (takeWhile (\<lambda>x. x \<noteq> CHR 0x22) r, drop 1 (dropWhile (\<lambda>x. x \<noteq> CHR 0x22) r)))"

lemma skipSpaces_length: "length (skipSpaces s) \<le> length s"
  by (induction s) auto

lemma skipSpaces_id [simp]: "\<not> starts (CHR '' '') s \<Longrightarrow> skipSpaces s = s"
  by (cases s) (auto simp: starts_def)

lemma skipSpaces_stop: "\<not> starts (CHR '' '') (skipSpaces s)"
  by (induction s) (auto simp: starts_def)

lemma skipSpaces_less: "length s < n \<Longrightarrow> length (skipSpaces s) < n" "length s \<le> n \<Longrightarrow> length (skipSpaces s) \<le> n"
  using skipSpaces_length [of s] by simp_all

lemma readQuotedName_length:
  "length (snd (readQuotedName s)) \<le> length s"
  "fst (readQuotedName s) \<noteq> [] \<Longrightarrow> length (snd (readQuotedName s)) < length s"
proof -
  have "length (snd (readQuotedName s)) \<le> length s \<and> (fst (readQuotedName s) \<noteq> [] \<longrightarrow> length (snd (readQuotedName s)) < length s)"
  proof (cases "skipSpaces s")
    case Nil
    then show ?thesis by (simp add: readQuotedName_def)
  next
    case (Cons c r)
    have "Suc (length r) \<le> length s" using skipSpaces_length [of s] Cons by simp
    moreover have "length (drop 1 (dropWhile (\<lambda>x. x \<noteq> CHR 0x22) r)) \<le> length r"
      using length_dropWhile_le [of "\<lambda>x. x \<noteq> CHR 0x22" r] unfolding length_drop by linarith
    ultimately show ?thesis unfolding readQuotedName_def Cons list.case by (cases "c = CHR 0x22") auto
  qed
  then show "length (snd (readQuotedName s)) \<le> length s"
    "fst (readQuotedName s) \<noteq> [] \<Longrightarrow> length (snd (readQuotedName s)) < length s" by blast+
qed

lemma readQuotedName_less:
  assumes "readQuotedName s = (name, s')" "name \<noteq> []" "s = skipSpaces s0"
  shows "length s' < length s0"
  using readQuotedName_length(2) [of s] skipSpaces_length [of s0] assms by simp

subsection \<open>Values\<close>

text \<open>What follows the closing quote of a literal, whose opening quote has been read; none without one.\<close>

fun quoted_end :: "string \<Rightarrow> string option" where
  "quoted_end [] = None"
| "quoted_end (c # s) =
     (if c = CHR 0x27 then
        (case s of
           [] \<Rightarrow> Some []
         | d # s' \<Rightarrow> if d = CHR 0x27 then quoted_end s' else Some s)
      else quoted_end s)"

lemma quoted_end_length: "quoted_end s = Some r \<Longrightarrow> length r < length s"
  by (induction s rule: quoted_end.induct) (auto split: if_splits list.splits)

text \<open>Where the scan of an unquoted value or a function call stops.\<close>

function value_rest :: "nat \<Rightarrow> bool \<Rightarrow> string \<Rightarrow> string" where
  "value_rest nested inQuote [] = []"
| "value_rest nested inQuote (c # s) =
     (if inQuote then
        (if c = CHR 0x27 then
           (if starts (CHR 0x27) s then value_rest nested True (tl s) else value_rest nested False s)
         else value_rest nested True s)
      else if c = CHR 0x27 then value_rest nested True s
      else if c = CHR ''('' then value_rest (nested + 1) False s
      else if c = CHR '')'' then (if nested > 0 then value_rest (nested - 1) False s else c # s)
      else if nested = 0 then
        (if c = CHR '' '' \<and> starts (CHR ''|'') s then value_rest nested False s
         else if c = CHR ''|'' \<and> starts (CHR ''|'') s then value_rest nested False (skipSpaces (tl s))
         else if c = CHR '','' \<or> c = CHR '';'' then c # s
         else if c = CHR '' '' \<and> (hasPrefix (c # s) '' and '' \<or> hasPrefix (c # s) '' where '' \<or> hasPrefix (c # s) '' set '')
         then c # s
         else value_rest nested False s)
      else value_rest nested False s)"
  by pat_completeness auto
termination
  by (relation "measure (\<lambda>(_, _, s). length s)") (auto intro!: skipSpaces_less)

declare value_rest.simps [simp del]

lemma if_length: "(b \<Longrightarrow> length x \<le> n) \<Longrightarrow> (\<not> b \<Longrightarrow> length y \<le> n) \<Longrightarrow> length (if b then x else y) \<le> n"
  by simp

lemma value_rest_bound: "length s \<le> n \<Longrightarrow> length (value_rest nested inQuote s) \<le> n"
proof (induction nested inQuote s rule: value_rest.induct)
  case (1 nested inQuote)
  then show ?case by (simp add: value_rest.simps)
next
  case (2 nested inQuote c s)
  from "2.prems" have "length s \<le> n" "length (tl s) \<le> n" "length (skipSpaces (tl s)) \<le> n"
    by (auto intro!: skipSpaces_less)
  note IH = "2.IH"(1) [OF _ _ _ this(2)] "2.IH"(2) [OF _ _ _ this(1)] "2.IH"(3) [OF _ _ this(1)] "2.IH"(4) [OF _ _ this(1)]
    "2.IH"(5) [OF _ _ _ this(1)] "2.IH"(6) [OF _ _ _ _ _ this(1)] "2.IH"(7) [OF _ _ _ _ _ _ this(1)]
    "2.IH"(8) [OF _ _ _ _ _ _ _ this(3)] "2.IH"(9) [OF _ _ _ _ _ _ _ _ _ this(1)] "2.IH"(10) [OF _ _ _ _ _ this(1)]
  show ?case unfolding value_rest.simps(2)
    by (intro if_length) (rule "2.prems" | rule IH, assumption+)+
qed

lemma value_rest_length: "length (value_rest nested inQuote s) \<le> length s"
  by (rule value_rest_bound) simp

fun unsupported_rest :: "string \<Rightarrow> string" where
  "unsupported_rest [] = []"
| "unsupported_rest (c # s) =
     (if c \<noteq> CHR '','' \<and> c \<noteq> CHR '';'' \<and> c \<noteq> CHR '')'' \<and> \<not> hasPrefix (c # s) '' and '' \<and> \<not> hasPrefix (c # s) '' where ''
      then unsupported_rest s else c # s)"

lemma unsupported_rest_length: "length (unsupported_rest s) \<le> length s"
  by (induction s) auto

text \<open>
  \<^verbatim>\<open>readValue\<close> and \<^verbatim>\<open>readQuotedString\<close> call each other along concatenated literals. The result is the value
  and the rest.
\<close>

function readValue :: "string \<Rightarrow> string \<times> string" and readQuotedString :: "string \<Rightarrow> string \<times> string" where
  "readValue s0 =
     (let s = skipSpaces s0 in
      if s = [] then ([], [])
      else if starts (CHR 0x27) s then readQuotedString s
      else if hasPrefix s ''NULL'' then (''NULL'', drop 4 s)
      else if hasPrefix s ''Unsupported Type'' then (''Unsupported Type'', drop 16 s)
      else if hasPrefix s ''Unsupported'' then (TrimSpace (text_slice s (unsupported_rest s)), unsupported_rest s)
      else (TrimSpace (text_slice s (value_rest 0 False s)), value_rest 0 False s))"
| "readQuotedString s =
     (if \<not> starts (CHR 0x27) s then ([], s)
      else case quoted_end (tl s) of
        None \<Rightarrow> (s, [])
      | Some saved \<Rightarrow>
          let t = skipSpaces saved in
          if starts (CHR ''|'') t \<and> starts (CHR ''|'') (tl t)
          then let (rest, u) = readValue (skipSpaces (drop 2 t)) in (text_slice s saved @ '' || '' @ rest, u)
          else (text_slice s saved, saved))"
  by pat_completeness auto
termination
proof (relation "measure (\<lambda>x. case x of Inl s \<Rightarrow> 2 * length s + 1 | Inr s \<Rightarrow> 2 * length s)", goal_cases)
  case (2 s0 s)
  then show ?case using skipSpaces_length [of s0] by simp
next
  case (3 s saved t)
  have "length (skipSpaces (drop 2 t)) \<le> length saved"
    using skipSpaces_length [of "drop 2 t"] skipSpaces_length [of saved] 3 by simp
  moreover have "length saved < length (tl s)" using 3 quoted_end_length by blast
  ultimately show ?case by simp
qed simp

declare readValue.simps [simp del] readQuotedString.simps [simp del]

lemma read_length:
  "length (snd (readValue s)) \<le> length s" "length (snd (readQuotedString s)) \<le> length s"
proof (induction s and s rule: readValue_readQuotedString.induct)
  case (1 s0)
  let ?s = "skipSpaces s0"
  have l: "length ?s \<le> length s0" by (rule skipSpaces_length)
  have q: "?s \<noteq> [] \<Longrightarrow> starts (CHR 0x27) ?s \<Longrightarrow> length (snd (readQuotedString ?s)) \<le> length s0"
    using 1 [OF refl] l by simp
  have "length (unsupported_rest ?s) \<le> length s0" "length (value_rest 0 False ?s) \<le> length s0"
    using unsupported_rest_length [of ?s] value_rest_length [of 0 False ?s] l by linarith+
  with q l show ?case unfolding readValue.simps [of s0] Let_def by (auto split: if_split)
next
  case (2 s)
  show ?case
  proof (cases "starts (CHR 0x27) s")
    case True
    show ?thesis
    proof (cases "quoted_end (tl s)")
      case None
      then show ?thesis using True by (simp add: readQuotedString.simps [of s])
    next
      case (Some saved)
      let ?t = "skipSpaces (drop 2 (skipSpaces saved))"
      have l: "length saved \<le> length s" using quoted_end_length [OF Some] by simp
      have "length ?t \<le> length saved"
        using skipSpaces_length [of "drop 2 (skipSpaces saved)"] skipSpaces_length [of saved] by simp
      then have "starts (CHR ''|'') (skipSpaces saved) \<and> starts (CHR ''|'') (tl (skipSpaces saved))
          \<Longrightarrow> length (snd (readValue ?t)) \<le> length s"
        using 2 [OF _ Some refl] True l by fastforce
      with True Some l show ?thesis by (simp add: readQuotedString.simps [of s] Let_def case_prod_unfold)
    qed
  qed (simp add: readQuotedString.simps [of s])
qed

subsection \<open>Lists of columns, values and assignments\<close>

definition expected_paren :: "nat \<Rightarrow> string \<Rightarrow> err" where
  "expected_paren n s = Errorf (''expected '' @ [CHR 0x27] @ ''('' @ [CHR 0x27] @ '' at pos '' @ nat_decimal (n - length s))"

function column_loop :: "nat \<Rightarrow> string \<Rightarrow> string list \<Rightarrow> (string list \<times> string) res" where
  "column_loop n s0 cols =
     (if s0 = [] then Inr (cols, [])
      else let s = skipSpaces s0 in
        if s = [] then Inl out_of_range
        else if starts (CHR '')'') s then Inr (cols, tl s)
        else if starts (CHR '','') s then column_loop n (tl s) cols
        else let (name, s') = readQuotedName s in
          if name = [] then Inl (Errorf (''expected column name at pos '' @ nat_decimal (n - length s')))
          else column_loop n s' (cols @ [name]))"
  by pat_completeness auto
termination
proof (relation "measure (\<lambda>(_, s, _). length s)", goal_cases)
  case (2 n s0 cols s)
  have "s \<noteq> []" "length s \<le> length s0" using 2 skipSpaces_length [of s0] by simp_all
  then have "length (tl s) < length s0" by (cases s) auto
  then show ?case by simp
next
  case (3 n s0 cols s x name s')
  then have "length s' < length s0" by (intro readQuotedName_less [of s name]) simp_all
  then show ?case by simp
qed simp

declare column_loop.simps [simp del]

definition parseColumnList :: "nat \<Rightarrow> string \<Rightarrow> (string list \<times> string) res" where
  "parseColumnList n s0 =
     (let s = skipSpaces s0 in
      if \<not> starts (CHR ''('') s then Inl (expected_paren n s) else column_loop n (tl s) [])"

partial_function (option) value_loop :: "string \<Rightarrow> string list \<Rightarrow> (string list \<times> string) res option" where
  "value_loop s0 vals =
     (if s0 = [] then Some (Inr (vals, []))
      else let s = skipSpaces s0 in
        if s = [] then Some (Inl out_of_range)
        else if starts (CHR '')'') s then Some (Inr (vals, tl s))
        else let r = readValue (if starts (CHR '','') s then skipSpaces (tl s) else s)
             in value_loop (snd r) (vals @ [fst r]))"

definition parseValueList :: "nat \<Rightarrow> nat \<Rightarrow> string \<Rightarrow> (string list \<times> string) res option" where
  "parseValueList n numCols s0 =
     (let s = skipSpaces s0 in
      if \<not> starts (CHR ''('') s then Some (Inl (expected_paren n s))
      else case value_loop (tl s) [] of
        None \<Rightarrow> None
      | Some (Inl e) \<Rightarrow> Some (Inl e)
      | Some (Inr (vals, r)) \<Rightarrow>
          if length vals \<noteq> numCols
          then Some (Inl (Errorf (''column/value count mismatch: '' @ nat_decimal numCols @ '' columns, ''
                 @ nat_decimal (length vals) @ '' values'')))
          else Some (Inr (vals, r)))"

text \<open>One assignment of the result map: values of an unsupported type are left out.\<close>

definition put_value :: "(string, string) gomap \<Rightarrow> string \<times> string \<Rightarrow> (string, string) gomap" where
  "put_value m cv = (if snd cv = ''Unsupported Type'' then m else AList.update (fst cv) (snd cv) m)"

text \<open>The right-hand side of \<^verbatim>\<open>=\<close>, the word that joins two conditions, and the comma between assignments.\<close>

definition read_assigned :: "string \<Rightarrow> string \<times> string" where
  "read_assigned s0 =
     (let s = skipSpaces s0; s = (if starts (CHR ''='') s then tl s else s) in readValue (skipSpaces s))"

definition skip_joiner :: "string \<Rightarrow> string" where
  "skip_joiner s0 =
     (let s = skipSpaces s0 in
      if hasPrefix s ''and '' then drop 4 s else if hasPrefix s ''or '' then drop 3 s else s)"

definition skip_comma :: "string \<Rightarrow> string" where
  "skip_comma s0 = (let s = skipSpaces s0 in if starts (CHR '','') s then tl s else s)"

lemma skip_comma_length: "length (skip_comma s) \<le> length s"
  using skipSpaces_length [of s] by (auto simp: skip_comma_def Let_def)

lemma read_assigned_length: "length (snd (read_assigned s)) \<le> length s"
proof -
  let ?t = "if starts (CHR ''='') (skipSpaces s) then tl (skipSpaces s) else skipSpaces s"
  have "length ?t \<le> length s" using skipSpaces_length [of s] by auto
  then show ?thesis
    using read_length(1) [of "skipSpaces ?t"] skipSpaces_length [of ?t]
    unfolding read_assigned_def Let_def by linarith
qed

lemma skip_joiner_length: "length (skip_joiner s) \<le> length s"
  using skipSpaces_length [of s] by (auto simp: skip_joiner_def Let_def)

function set_loop :: "string \<Rightarrow> (string, string) gomap \<Rightarrow> ((string, string) gomap \<times> string) res" where
  "set_loop s0 result =
     (if s0 = [] then Inr (result, [])
      else let s = skipSpaces s0 in
        if hasPrefix s ''where '' then Inr (result, s)
        else if s = [] then Inl out_of_range
        else if starts (CHR '';'') s then Inr (result, s)
        else let (col, s1) = readQuotedName s in
          if col = [] then Inr (result, s1)
          else let (val, s2) = read_assigned s1
               in set_loop (skip_comma s2) (put_value result (col, val)))"
  by pat_completeness auto
termination
proof (relation "measure (\<lambda>(s, _). length s)", goal_cases)
  case (2 s0 result s x col s1 xa val s2)
  then have "length s1 < length s0" by (intro readQuotedName_less [of s col]) simp_all
  moreover have "read_assigned s1 = (val, s2)" using 2 by simp
  then have "length s2 \<le> length s1" using read_assigned_length [of s1] by simp
  ultimately show ?case using skip_comma_length [of s2] by simp
qed simp

declare set_loop.simps [simp del]

definition parseSetClause :: "nat \<Rightarrow> string \<Rightarrow> ((string, string) gomap \<times> string) res" where
  "parseSetClause n s =
     (case expect n ''set '' (skipSpaces s) of Inl e \<Rightarrow> Inl e | Inr s \<Rightarrow> set_loop s [])"

function where_loop :: "string \<Rightarrow> (string, string) gomap \<Rightarrow> ((string, string) gomap \<times> string) res" where
  "where_loop s0 result =
     (if s0 = [] then Inr (result, [])
      else let s = skipSpaces s0 in
        if s = [] then Inl out_of_range
        else if starts (CHR '';'') s then Inr (result, s)
        else let (col, s1) = readQuotedName s in
          if col = [] then Inr (result, s1)
          else if hasPrefix (skipSpaces s1) ''IS NULL''
          then where_loop (skip_joiner (drop 7 (skipSpaces s1))) (AList.update col ''NULL'' result)
          else let (val, s2) = read_assigned s1
               in where_loop (skip_joiner s2) (put_value result (col, val)))"
  by pat_completeness auto
termination
proof (relation "measure (\<lambda>(s, _). length s)", goal_cases)
  case (2 s0 result s x col s1)
  then have "length s1 < length s0" by (intro readQuotedName_less [of s col]) simp_all
  then show ?case using skip_joiner_length [of "drop 7 (skipSpaces s1)"] skipSpaces_length [of s1] by simp
next
  case (3 s0 result s x col s1 xa val s2)
  then have "length s1 < length s0" by (intro readQuotedName_less [of s col]) simp_all
  moreover have "read_assigned s1 = (val, s2)" using 3 by simp
  then have "length s2 \<le> length s1" using read_assigned_length [of s1] by simp
  ultimately show ?case using skip_joiner_length [of s2] by simp
qed simp

declare where_loop.simps [simp del]

definition parseWhereClause :: "nat \<Rightarrow> string \<Rightarrow> ((string, string) gomap \<times> string) res" where
  "parseWhereClause n s = (case expect n ''where '' s of Inl e \<Rightarrow> Inl e | Inr s \<Rightarrow> where_loop s [])"

subsection \<open>Statements\<close>

definition parseInsert :: "nat \<Rightarrow> string \<Rightarrow> DmlEntry res option" where
  "parseInsert n s =
     (case expect n ''insert into '' s of
        Inl e \<Rightarrow> Some (Inl e)
      | Inr s \<Rightarrow>
          (case parseColumnList n (skipTableName s) of
             Inl e \<Rightarrow> Some (Inl e)
           | Inr (cols, s) \<Rightarrow>
               (case expect n ''values '' (skipSpaces s) of
                  Inl e \<Rightarrow> Some (Inl e)
                | Inr s \<Rightarrow>
                    (case parseValueList n (length cols) s of
                       None \<Rightarrow> None
                     | Some (Inl e) \<Rightarrow> Some (Inl e)
                     | Some (Inr (vals, _)) \<Rightarrow>
                         Some (Inr \<lparr> de_Type = DmlInsert, de_NewValues = foldl put_value [] (zip cols vals),
                                     de_OldValues = [] \<rparr>)))))"

definition parseUpdate :: "nat \<Rightarrow> string \<Rightarrow> DmlEntry res" where
  "parseUpdate n s =
     (case expect n ''update '' s of
        Inl e \<Rightarrow> Inl e
      | Inr s \<Rightarrow>
          (case parseSetClause n (skipTableName s) of
             Inl e \<Rightarrow> Inl e
           | Inr (newValues, s) \<Rightarrow>
               if hasPrefix (skipSpaces s) ''where '' then
                 (case parseWhereClause n (skipSpaces s) of
                    Inl e \<Rightarrow> Inl e
                  | Inr (oldValues, _) \<Rightarrow>
                      Inr \<lparr> de_Type = DmlUpdate, de_NewValues = newValues, de_OldValues = oldValues \<rparr>)
               else Inr \<lparr> de_Type = DmlUpdate, de_NewValues = newValues, de_OldValues = [] \<rparr>))"

definition parseDelete :: "nat \<Rightarrow> string \<Rightarrow> DmlEntry res" where
  "parseDelete n s =
     (case expect n ''delete from '' s of
        Inl e \<Rightarrow> Inl e
      | Inr s \<Rightarrow>
          (case parseWhereClause n (skipSpaces (skipTableName s)) of
             Inl e \<Rightarrow> Inl e
           | Inr (oldValues, _) \<Rightarrow> Inr \<lparr> de_Type = DmlDelete, de_NewValues = [], de_OldValues = oldValues \<rparr>))"

text \<open>The bit mask \<^verbatim>\<open>| 0x20\<close> that makes a letter lower case.\<close>

definition lower_bit :: "char \<Rightarrow> char" where
  "lower_bit c = char_of (of_char c OR 0x20 :: nat)"

definition Dml_Parse :: "string \<Rightarrow> DmlEntry res option" where
  "Dml_Parse sql =
     (let n = length sql; s = skipWhitespace sql in
      if n = 0 then Some (Inl (Errorf ''empty SQL''))
      else if s = [] then Some (Inl (Errorf ''empty SQL after trimming whitespace''))
      else let c = lower_bit (hd s) in
        if c = CHR ''i'' then parseInsert n s
        else if c = CHR ''u'' then Some (parseUpdate n s)
        else if c = CHR ''d'' then Some (parseDelete n s)
        else Some (Inl (Errorf (''unsupported DML: '' @ Quote_esc sql))))"

section \<open>The statements that LogMiner prints\<close>

text \<open>
  The values of LogMiner's SQL text: \<^verbatim>\<open>NULL\<close>, a literal in which quotes are doubled, and a call such as
  \<^verbatim>\<open>TO_DATE('...')\<close>. A call's name is a word that the parser does not take for \<^verbatim>\<open>NULL\<close> or \<^verbatim>\<open>Unsupported\<close>.
\<close>

datatype sql_value = SqlNull | SqlText string | SqlCall string string

definition escape :: "string \<Rightarrow> string" where
  "escape t = concat (map (\<lambda>c. if c = CHR 0x27 then [c, c] else [c]) t)"

fun print_value :: "sql_value \<Rightarrow> string" where
  "print_value SqlNull = ''NULL''"
| "print_value (SqlText t) = CHR 0x27 # escape t @ [CHR 0x27]"
| "print_value (SqlCall f t) = f @ CHR ''('' # CHR 0x27 # escape t @ [CHR 0x27, CHR '')'']"

fun value_ok :: "sql_value \<Rightarrow> bool" where
  "value_ok (SqlCall f t) = (f \<noteq> [] \<and> list_all word_char f \<and> \<not> hasPrefix f ''NULL'' \<and> \<not> hasPrefix f ''Unsupported'')"
| "value_ok _ = True"

definition quoted_name :: "string \<Rightarrow> string" where
  "quoted_name c = CHR 0x22 # c @ [CHR 0x22]"

definition name_ok :: "string \<Rightarrow> bool" where
  "name_ok c = (c \<noteq> [] \<and> CHR 0x22 \<notin> set c)"

text \<open>What may follow a value.\<close>

definition ends_value :: "string \<Rightarrow> bool" where
  "ends_value r = (starts (CHR '','') r \<or> starts (CHR '')'') r \<or> starts (CHR '';'') r
     \<or> (\<exists>u. r = '' and '' @ u) \<or> (\<exists>u. r = '' where '' @ u))"

lemma starts_simps [simp]: "\<not> starts c []" "starts c (x # s) = (x = c)"
  by (simp_all add: starts_def)

lemma starts_append: "a \<noteq> [] \<Longrightarrow> starts c (a @ b) = starts c a"
  by (cases a) simp_all

lemma hasPrefix_append: "length p \<le> length a \<Longrightarrow> hasPrefix (a @ b) p = hasPrefix a p"
  by (simp add: hasPrefix_def)

lemma hasPrefix_self: "hasPrefix (p @ s) p"
  by (simp add: hasPrefix_def)

lemma hasPrefix_Cons: "hasPrefix (x # s) (c # p) = (char_lower x = char_lower c \<and> hasPrefix s p)"
  "hasPrefix s []" "\<not> hasPrefix [] (c # p)"
  by (auto simp: hasPrefix_def ToLower_def)

lemma text_slice_append [simp]: "text_slice (a @ b) b = a"
  by (simp add: text_slice_def)

lemma escape_Cons [simp]:
  "escape [] = []" "escape (c # t) = (if c = CHR 0x27 then CHR 0x27 # CHR 0x27 # escape t else c # escape t)"
  by (simp_all add: escape_def)

lemma quoted_end_escape: "\<not> starts (CHR 0x27) r \<Longrightarrow> quoted_end (escape t @ CHR 0x27 # r) = Some r"
proof (induction t)
  case Nil
  then show ?case by (cases r) auto
qed simp

lemma value_rest_escape:
  "\<not> starts (CHR 0x27) r \<Longrightarrow> value_rest nested True (escape t @ CHR 0x27 # r) = value_rest nested False r"
  by (induction t) (simp_all add: value_rest.simps)

lemma word_char_not [simp]: "word_char c \<Longrightarrow> c \<noteq> CHR 0x27 \<and> c \<noteq> CHR ''('' \<and> c \<noteq> CHR '')'' \<and> c \<noteq> CHR '' '' \<and> c \<noteq> CHR ''|''
   \<and> c \<noteq> CHR '','' \<and> c \<noteq> CHR '';'' \<and> \<not> is_space c"
  by (auto simp: word_char_def is_space_def byte_in_def)

lemma value_rest_word: "list_all word_char f \<Longrightarrow> value_rest 0 False (f @ r) = value_rest 0 False r"
  by (induction f) (auto simp: value_rest.simps)

lemma value_rest_ends:
  assumes "ends_value r"
  shows "value_rest 0 False r = r"
proof -
  obtain c s where r: "r = c # s" using assms by (cases r) (auto simp: ends_value_def)
  from assms consider "c \<in> {CHR '','', CHR '')'', CHR '';''}" | u where "s = ''and '' @ u" "c = CHR '' ''"
    | u where "s = ''where '' @ u" "c = CHR '' ''"
    by (auto simp: ends_value_def r)
  then show ?thesis
    unfolding r by cases (subst value_rest.simps(2), auto simp: hasPrefix_Cons)+
qed

lemma ends_value_not: "ends_value r \<Longrightarrow> \<not> starts (CHR 0x27) r \<and> \<not> starts (CHR ''|'') (skipSpaces r)"
  by (cases r) (auto simp: ends_value_def)

lemma TrimSpace_call: "f \<noteq> [] \<Longrightarrow> list_all word_char f \<Longrightarrow> TrimSpace (f @ m @ [CHR '')'']) = f @ m @ [CHR '')'']"
proof (cases f)
  case (Cons c f')
  assume "list_all word_char f"
  then have "\<not> is_space c" "\<not> is_space (CHR '')'')" using word_char_not [of c] by (simp_all add: Cons is_space_def)
  then show ?thesis by (simp add: TrimSpace_def Cons)
qed simp

lemma char_lower_word: "word_char c \<Longrightarrow> char_lower c \<noteq> char_lower (CHR ''('')"
proof
  assume "word_char c" "char_lower c = char_lower (CHR ''('')"
  then have "(of_char (char_lower c) :: nat) = 40" by (simp add: char_lower_def)
  then show False using \<open>word_char c\<close>
    by (auto simp: char_lower_def word_char_def byte_in_def less_eq_char_def split: if_splits)
qed

lemma hasPrefix_prefix: "hasPrefix s (p @ q) \<Longrightarrow> hasPrefix s p"
proof -
  assume h: "hasPrefix s (p @ q)"
  then have "take (length p) (ToLower (take (length (p @ q)) s)) = take (length p) (ToLower (p @ q))"
    by (simp only: hasPrefix_def)
  then show ?thesis using h by (simp add: hasPrefix_def ToLower_def take_map min_def)
qed

lemma hasPrefix_word:
  "list_all word_char f \<Longrightarrow> list_all word_char p \<Longrightarrow> hasPrefix (f @ CHR ''('' # r) p = hasPrefix f p"
proof (induction f arbitrary: p)
  case Nil
  then show ?case by (cases p) (auto simp: hasPrefix_Cons dest: char_lower_word)
next
  case (Cons c f)
  then show ?case by (cases p) (auto simp: hasPrefix_Cons)
qed

lemma readValue_print:
  assumes "value_ok v" "ends_value r"
  shows "readValue (print_value v @ r) = (print_value v, r)"
proof (cases v)
  case SqlNull
  then show ?thesis by (subst readValue.simps) (simp add: hasPrefix_Cons)
next
  case (SqlText t)
  then show ?thesis
    using ends_value_not [OF assms(2)] text_slice_append [of "CHR 0x27 # escape t @ [CHR 0x27]" r]
    by (subst readValue.simps, simp, subst readQuotedString.simps) (simp add: quoted_end_escape)
next
  case (SqlCall f t)
  let ?m = "CHR ''('' # CHR 0x27 # escape t @ [CHR 0x27]"
  have p: "print_value v = f @ ?m @ [CHR '')'']" by (simp add: SqlCall)
  have f: "f \<noteq> []" "list_all word_char f" "\<not> hasPrefix f ''NULL''" "\<not> hasPrefix f ''Unsupported''"
    using assms(1) by (simp_all add: SqlCall)
  then obtain c f' where c: "f = c # f'" "word_char c" by (cases f) auto
  have rest: "value_rest 0 False (print_value v @ r) = r"
    using f(2) by (simp add: p value_rest_word value_rest.simps value_rest_escape value_rest_ends [OF assms(2)])
  have w: "list_all word_char ''NULL''" "list_all word_char ''Unsupported''" by (simp_all add: word_char_def byte_in_def)
  have "\<not> hasPrefix (print_value v @ r) ''NULL''" "\<not> hasPrefix (print_value v @ r) ''Unsupported''"
    using hasPrefix_word [OF f(2) w(1)] hasPrefix_word [OF f(2) w(2)] f by (simp_all add: p)
  moreover from this have "\<not> hasPrefix (print_value v @ r) ''Unsupported Type''"
    using hasPrefix_prefix [of _ "''Unsupported''" "'' Type''"] by auto
  moreover have "\<not> starts (CHR 0x27) (print_value v @ r)" "\<not> starts (CHR '' '') (print_value v @ r)" "print_value v @ r \<noteq> []"
    using c by (auto simp: p)
  ultimately show ?thesis
    using TrimSpace_call [OF f(1,2), of ?m, folded p] by (subst readValue.simps) (simp add: rest Let_def)
qed

lemma print_value_first:
  assumes "value_ok v"
  obtains c s where "print_value v = c # s" "c \<notin> {CHR '' '', CHR '','', CHR '')'', CHR '';'', CHR ''=''}"
proof (cases v)
  case (SqlCall f t)
  then obtain c f' where "f = c # f'" "word_char c" using assms by (cases f) auto
  moreover from this have "c \<noteq> CHR ''=''" by (auto simp: word_char_def byte_in_def)
  ultimately show ?thesis using that SqlCall word_char_not [of c] by auto
qed (use that in auto)

lemma print_value_supported: "value_ok v \<Longrightarrow> print_value v \<noteq> ''Unsupported Type''"
proof (cases v)
  case (SqlCall f t)
  have "last (print_value v) = CHR '')''" by (simp add: SqlCall)
  then show ?thesis by auto
qed simp_all

lemma quoted_name_nonempty [simp]: "quoted_name c \<noteq> []"
  by (simp add: quoted_name_def)

lemma readQuotedName_print: "name_ok c \<Longrightarrow> readQuotedName (quoted_name c @ r) = (c, r)"
proof -
  assume "name_ok c"
  then have c: "x \<noteq> CHR 0x22" if "x \<in> set c" for x using that by (auto simp: name_ok_def)
  have "takeWhile (\<lambda>x. x \<noteq> CHR 0x22) (c @ CHR 0x22 # r) = c" using c by (subst takeWhile_append2) auto
  moreover have "dropWhile (\<lambda>x. x \<noteq> CHR 0x22) (c @ CHR 0x22 # r) = CHR 0x22 # r"
    using c by (subst dropWhile_append2) auto
  ultimately show ?thesis by (simp add: readQuotedName_def quoted_name_def)
qed

text \<open>A joined list is a first element and further ones, each after a separator.\<close>

fun after :: "string \<Rightarrow> string list \<Rightarrow> string" where
  "after sep [] = []"
| "after sep (x # xs) = sep @ x @ after sep xs"

lemma Join_Cons: "strings_Join (x # xs) sep = x @ after sep xs"
  by (induction xs arbitrary: x) simp_all

lemma column_step:
  assumes "name_ok c" "skipSpaces s = quoted_name c @ r"
  shows "column_loop n s cols = column_loop n r (cols @ [c])"
proof -
  have "s \<noteq> []" using assms(2) by (auto simp: quoted_name_def)
  then show ?thesis
    using assms readQuotedName_print [OF assms(1), of r]
    by (subst column_loop.simps) (simp add: Let_def quoted_name_def name_ok_def)
qed

lemma columns_after:
  "list_all name_ok cs \<Longrightarrow> column_loop n (after '','' (map quoted_name cs) @ CHR '')'' # r) cols = Inr (cols @ cs, r)"
proof (induction cs arbitrary: cols)
  case Nil
  then show ?case by (subst column_loop.simps) (simp add: Let_def)
next
  case (Cons c cs)
  let ?t = "after '','' (map quoted_name cs) @ CHR '')'' # r"
  have "column_loop n (CHR '','' # quoted_name c @ ?t) cols = column_loop n (quoted_name c @ ?t) cols"
    by (subst column_loop.simps) (simp add: Let_def)
  also have "\<dots> = column_loop n ?t (cols @ [c])"
    using Cons.prems by (intro column_step) (simp_all add: quoted_name_def)
  finally show ?case using Cons by simp
qed

lemma columns_print:
  assumes "list_all name_ok cs"
  shows "parseColumnList n (CHR ''('' # strings_Join (map quoted_name cs) '','' @ CHR '')'' # r) = Inr (cs, r)"
proof (cases cs)
  case Nil
  then show ?thesis by (simp add: parseColumnList_def) (subst column_loop.simps, simp add: Let_def)
next
  case (Cons c cs')
  have "column_loop n (quoted_name c @ after '','' (map quoted_name cs') @ CHR '')'' # r) []
      = column_loop n (after '','' (map quoted_name cs') @ CHR '')'' # r) ([] @ [c])"
    using assms Cons by (intro column_step) (simp_all add: quoted_name_def)
  then show ?thesis
    using columns_after [of cs' n r "[c]"] assms
    by (simp add: Cons parseColumnList_def Join_Cons)
qed

lemma value_step:
  assumes "value_ok v" "ends_value r"
  shows "value_loop (print_value v @ r) vals = value_loop r (vals @ [print_value v])"
proof -
  obtain c s where c: "print_value v = c # s" "c \<notin> {CHR '' '', CHR '','', CHR '')'', CHR '';'', CHR ''=''}"
    using print_value_first [OF assms(1)] .
  then show ?thesis
    using readValue_print [OF assms] by (subst value_loop.simps) (simp add: Let_def)
qed

lemma value_step_comma:
  assumes "value_ok v" "ends_value r"
  shows "value_loop (CHR '','' # print_value v @ r) vals = value_loop r (vals @ [print_value v])"
proof -
  obtain c s where "print_value v = c # s" "c \<notin> {CHR '' '', CHR '','', CHR '')'', CHR '';'', CHR ''=''}"
    using print_value_first [OF assms(1)] .
  then have "skipSpaces (print_value v @ r) = print_value v @ r" by simp
  then show ?thesis using readValue_print [OF assms] by (subst value_loop.simps) (simp add: Let_def)
qed

lemma values_after:
  "list_all value_ok vs \<Longrightarrow> ends_value r
     \<Longrightarrow> value_loop (after '','' (map print_value vs) @ r) vals = value_loop r (vals @ map print_value vs)"
proof (induction vs arbitrary: vals)
  case (Cons v vs)
  have "ends_value (after '','' (map print_value vs) @ r)" using Cons.prems by (cases vs) (simp_all add: ends_value_def)
  then show ?case using Cons value_step_comma [of v "after '','' (map print_value vs) @ r" vals] by simp
qed simp

lemma values_print:
  assumes "list_all value_ok vs" "ends_value r"
  shows "value_loop (strings_Join (map print_value vs) '','' @ r) [] = value_loop r (map print_value vs)"
proof (cases vs)
  case (Cons v vs')
  have "ends_value (after '','' (map print_value vs') @ r)" using assms by (cases vs') (simp_all add: ends_value_def)
  then show ?thesis
    using assms value_step [of v "after '','' (map print_value vs') @ r" "[]"] values_after [of vs' r "[print_value v]"]
    by (simp add: Cons Join_Cons)
qed simp

lemma value_loop_close: "value_loop (CHR '')'' # r) vals = Some (Inr (vals, r))"
  by (subst value_loop.simps) (simp add: Let_def)

lemma read_assigned_print:
  assumes "value_ok v" "ends_value r"
  shows "read_assigned ('' = '' @ print_value v @ r) = (print_value v, r)"
proof -
  obtain c s where "print_value v = c # s" "c \<notin> {CHR '' '', CHR '','', CHR '')'', CHR '';'', CHR ''=''}"
    using print_value_first [OF assms(1)] .
  then have "skipSpaces (print_value v @ r) = print_value v @ r" by simp
  then show ?thesis using readValue_print [OF assms] by (simp add: read_assigned_def Let_def)
qed

definition print_set :: "string \<times> sql_value \<Rightarrow> string" where
  "print_set a = quoted_name (fst a) @ '' = '' @ print_value (snd a)"

definition set_ok :: "string \<times> sql_value \<Rightarrow> bool" where
  "set_ok a = (name_ok (fst a) \<and> value_ok (snd a))"

definition put_set :: "(string, string) gomap \<Rightarrow> string \<times> sql_value \<Rightarrow> (string, string) gomap" where
  "put_set m a = AList.update (fst a) (print_value (snd a)) m"

lemma put_value_print: "value_ok v \<Longrightarrow> put_value m (c, print_value v) = put_set m (c, v)"
  using print_value_supported [of v] by (simp add: put_value_def put_set_def)

lemma set_step:
  assumes "set_ok a" "ends_value r" "skipSpaces s = print_set a @ r"
  shows "set_loop s m = set_loop (skip_comma r) (put_set m a)"
proof -
  obtain c v where a: "a = (c, v)" by (cases a)
  have ok: "name_ok c" "value_ok v" using assms(1) by (simp_all add: set_ok_def a)
  have sp: "skipSpaces s = quoted_name c @ '' = '' @ print_value v @ r" using assms(3) by (simp add: print_set_def a)
  then have "s \<noteq> []" "\<not> hasPrefix (skipSpaces s) ''where ''" "\<not> starts (CHR '';'') (skipSpaces s)" "skipSpaces s \<noteq> []"
    by (auto simp: quoted_name_def hasPrefix_Cons char_lower_def)
  moreover have "c \<noteq> []" using ok(1) by (simp add: name_ok_def)
  ultimately show ?thesis
    using readQuotedName_print [OF ok(1)] read_assigned_print [OF ok(2) assms(2)] put_value_print [OF ok(2)]
    by (subst set_loop.simps) (simp add: Let_def sp a)
qed

lemma ends_value_after_set: "ends_value (after '', '' xs @ '' where '' @ r)"
  by (cases xs) (simp_all add: ends_value_def)

lemma sets_after:
  "list_all set_ok as \<Longrightarrow>
     set_loop (skip_comma (after '', '' (map print_set as) @ '' where '' @ r)) m = Inr (foldl put_set m as, ''where '' @ r)"
proof (induction as arbitrary: m)
  case Nil
  then show ?case
    by (simp add: skip_comma_def Let_def) (subst set_loop.simps, simp add: Let_def hasPrefix_Cons)
next
  case (Cons a as)
  let ?e = "after '', '' (map print_set as) @ '' where '' @ r"
  have sp: "skipSpaces (CHR '' '' # print_set a @ ?e) = print_set a @ ?e" by (simp add: print_set_def quoted_name_def)
  have "set_loop (CHR '' '' # print_set a @ ?e) m = set_loop (skip_comma ?e) (put_set m a)"
    using Cons.prems by (intro set_step [OF _ ends_value_after_set sp]) simp
  moreover have "skip_comma (after '', '' (map print_set (a # as)) @ '' where '' @ r) = CHR '' '' # print_set a @ ?e"
    by (simp add: skip_comma_def Let_def)
  moreover have "list_all set_ok as" using Cons.prems by simp
  note Cons.IH [OF this, of "put_set m a"]
  ultimately show ?case by (simp only: foldl.simps)
qed

lemma sets_print:
  assumes "list_all set_ok as"
  shows "set_loop (strings_Join (map print_set as) '', '' @ '' where '' @ r) [] = Inr (foldl put_set [] as, ''where '' @ r)"
proof (cases as)
  case Nil
  then show ?thesis by simp (subst set_loop.simps, simp add: Let_def hasPrefix_Cons)
next
  case (Cons a as')
  let ?e = "after '', '' (map print_set as') @ '' where '' @ r"
  have sp: "skipSpaces (print_set a @ ?e) = print_set a @ ?e" by (simp add: print_set_def quoted_name_def)
  have "set_loop (print_set a @ ?e) [] = set_loop (skip_comma ?e) (put_set [] a)"
    using assms Cons by (intro set_step [OF _ ends_value_after_set sp]) simp
  then show ?thesis using sets_after [of as' r "put_set [] a"] assms by (simp add: Cons Join_Cons)
qed

text \<open>Conditions: a column equals a value, or is null.\<close>

fun print_cond :: "string \<times> sql_value option \<Rightarrow> string" where
  "print_cond (c, Some v) = quoted_name c @ '' = '' @ print_value v"
| "print_cond (c, None) = quoted_name c @ '' IS NULL''"

definition cond_ok :: "string \<times> sql_value option \<Rightarrow> bool" where
  "cond_ok a = (name_ok (fst a) \<and> (case snd a of None \<Rightarrow> True | Some v \<Rightarrow> value_ok v))"

definition put_cond :: "(string, string) gomap \<Rightarrow> string \<times> sql_value option \<Rightarrow> (string, string) gomap" where
  "put_cond m a = AList.update (fst a) (case snd a of None \<Rightarrow> ''NULL'' | Some v \<Rightarrow> print_value v) m"

lemma eq_lower: "char_lower (CHR ''='') \<noteq> char_lower (CHR ''I'')" "char_lower (CHR '';'') \<noteq> char_lower (CHR ''a'')"
  "char_lower (CHR '';'') \<noteq> char_lower (CHR ''o'')"
  by code_simp+

lemma cond_step:
  assumes "cond_ok a" "ends_value r"
  shows "where_loop (print_cond a @ r) m = where_loop (skip_joiner r) (put_cond m a)"
proof -
  obtain c w where a: "a = (c, w)" by (cases a)
  have c: "name_ok c" "c \<noteq> []" using assms(1) by (simp_all add: cond_ok_def a name_ok_def)
  obtain x where x: "print_cond a @ r = quoted_name c @ x" "x = (case w of None \<Rightarrow> '' IS NULL'' @ r | Some v \<Rightarrow> '' = '' @ print_value v @ r)"
    by (cases w) (simp_all add: a)
  have q: "quoted_name c @ x \<noteq> []" "skipSpaces (quoted_name c @ x) = quoted_name c @ x" "\<not> starts (CHR '';'') (quoted_name c @ x)"
    by (simp_all add: quoted_name_def)
  show ?thesis
  proof (cases w)
    case None
    then show ?thesis
      using c q readQuotedName_print [OF c(1), of x] unfolding x(1)
      by (subst where_loop.simps) (simp add: Let_def x(2) hasPrefix_Cons put_cond_def a)
  next
    case (Some v)
    then have v: "value_ok v" using assms(1) by (simp add: cond_ok_def a)
    have "read_assigned x = (print_value v, r)" "\<not> hasPrefix (skipSpaces x) ''IS NULL''"
      using read_assigned_print [OF v assms(2)] by (simp_all add: x(2) Some hasPrefix_Cons eq_lower)
    then show ?thesis
      using c q readQuotedName_print [OF c(1), of x] put_value_print [OF v] unfolding x(1)
      by (subst where_loop.simps) (simp add: Let_def put_cond_def put_set_def a Some)
  qed
qed

lemma ends_value_after_cond: "ends_value (after '' and '' xs @ '';'')"
  by (cases xs) (simp_all add: ends_value_def)

lemma where_end: "where_loop '';'' m = Inr (m, '';'')"
  by (subst where_loop.simps) (simp add: Let_def)

lemma conds_after:
  "list_all cond_ok as \<Longrightarrow>
     where_loop (skip_joiner (after '' and '' (map print_cond as) @ '';'')) m = Inr (foldl put_cond m as, '';'')"
proof (induction as arbitrary: m)
  case Nil
  then show ?case by (simp add: skip_joiner_def Let_def hasPrefix_Cons eq_lower where_end)
next
  case (Cons a as)
  let ?e = "after '' and '' (map print_cond as) @ '';''"
  have "skip_joiner ('' and '' @ print_cond a @ ?e) = print_cond a @ ?e"
    by (simp add: skip_joiner_def Let_def hasPrefix_Cons)
  then show ?case using Cons cond_step [OF _ ends_value_after_cond, of a "map print_cond as" m] by simp
qed

lemma conds_print:
  assumes "list_all cond_ok as"
  shows "where_loop (strings_Join (map print_cond as) '' and '' @ '';'') [] = Inr (foldl put_cond [] as, '';'')"
proof (cases as)
  case Nil
  then show ?thesis by (simp add: where_end)
next
  case (Cons a as')
  then show ?thesis
    using assms cond_step [OF _ ends_value_after_cond, of a "map print_cond as'" "[]"] conds_after [of as' "put_cond [] a"]
    by (simp add: Join_Cons)
qed

subsection \<open>Statements\<close>

definition table_name :: "string \<Rightarrow> string \<Rightarrow> string" where
  "table_name owner table = quoted_name owner @ ''.'' @ quoted_name table"

lemma skip_name_quoted: "CHR 0x22 \<notin> set c \<Longrightarrow> skip_name False (quoted_name c @ r) = skip_name False r"
proof -
  have "CHR 0x22 \<notin> set c \<Longrightarrow> skip_name True (c @ CHR 0x22 # r) = skip_name False r" by (induction c) auto
  then show "CHR 0x22 \<notin> set c \<Longrightarrow> ?thesis" by (simp add: quoted_name_def)
qed

lemma skipTableName_print:
  assumes "name_ok owner" "name_ok table" "starts (CHR ''('') r \<or> starts (CHR '' '') r"
  shows "skipTableName (table_name owner table @ r) = r"
  using assms by (cases r) (auto simp: skipTableName_def table_name_def skip_name_quoted name_ok_def)

datatype dml_stmt =
    InsertStmt string string "(string \<times> sql_value) list"
  | UpdateStmt string string "(string \<times> sql_value) list" "(string \<times> sql_value option) list"
  | DeleteStmt string string "(string \<times> sql_value option) list"

fun print_stmt :: "dml_stmt \<Rightarrow> string" where
  "print_stmt (InsertStmt owner table as) =
     ''insert into '' @ table_name owner table @ ''('' @ strings_Join (map (quoted_name \<circ> fst) as) '','' @ '') values (''
       @ strings_Join (map (print_value \<circ> snd) as) '','' @ '');''"
| "print_stmt (UpdateStmt owner table as cs) =
     ''update '' @ table_name owner table @ '' set '' @ strings_Join (map print_set as) '', '' @ '' where ''
       @ strings_Join (map print_cond cs) '' and '' @ '';''"
| "print_stmt (DeleteStmt owner table cs) =
     ''delete from '' @ table_name owner table @ '' where '' @ strings_Join (map print_cond cs) '' and '' @ '';''"

fun stmt_ok :: "dml_stmt \<Rightarrow> bool" where
  "stmt_ok (InsertStmt owner table as) = (name_ok owner \<and> name_ok table \<and> list_all set_ok as)"
| "stmt_ok (UpdateStmt owner table as cs) = (name_ok owner \<and> name_ok table \<and> list_all set_ok as \<and> list_all cond_ok cs)"
| "stmt_ok (DeleteStmt owner table cs) = (name_ok owner \<and> name_ok table \<and> list_all cond_ok cs)"

fun stmt_entry :: "dml_stmt \<Rightarrow> DmlEntry" where
  "stmt_entry (InsertStmt _ _ as) = \<lparr> de_Type = DmlInsert, de_NewValues = foldl put_set [] as, de_OldValues = [] \<rparr>"
| "stmt_entry (UpdateStmt _ _ as cs) =
     \<lparr> de_Type = DmlUpdate, de_NewValues = foldl put_set [] as, de_OldValues = foldl put_cond [] cs \<rparr>"
| "stmt_entry (DeleteStmt _ _ cs) = \<lparr> de_Type = DmlDelete, de_NewValues = [], de_OldValues = foldl put_cond [] cs \<rparr>"

lemma lower_bit_eval: "lower_bit (CHR ''i'') = CHR ''i''" "lower_bit (CHR ''u'') = CHR ''u''" "lower_bit (CHR ''d'') = CHR ''d''"
  by code_simp+

lemma expect_self: "expect n tok (tok @ s) = Inr s"
  by (simp add: expect_def hasPrefix_self)

lemma put_values_print:
  "list_all set_ok as \<Longrightarrow> foldl put_value m (zip (map fst as) (map (print_value \<circ> snd) as)) = foldl put_set m as"
  by (induction as arbitrary: m) (auto simp: set_ok_def put_value_print)

lemma parseWhere_print:
  "list_all cond_ok cs \<Longrightarrow> parseWhereClause n (''where '' @ strings_Join (map print_cond cs) '' and '' @ '';'')
     = Inr (foldl put_cond [] cs, '';'')"
  using conds_print [of cs] expect_self [of n "''where ''"] by (simp add: parseWhereClause_def)

text \<open>What \<^verbatim>\<open>parseInsert\<close> does on a statement up to its values.\<close>

lemma parseInsert_values:
  assumes "name_ok owner" "name_ok table" "list_all name_ok cols"
  shows "parseInsert n (''insert into '' @ table_name owner table @ ''('' @ strings_Join (map quoted_name cols) '','' @ '') values ('' @ r)
    = (case parseValueList n (length cols) (CHR ''('' # r) of
         None \<Rightarrow> None
       | Some (Inl e) \<Rightarrow> Some (Inl e)
       | Some (Inr (vals, _)) \<Rightarrow>
           Some (Inr \<lparr> de_Type = DmlInsert, de_NewValues = foldl put_value [] (zip cols vals), de_OldValues = [] \<rparr>))"
proof -
  let ?r = "CHR ''('' # strings_Join (map quoted_name cols) '','' @ CHR '')'' # '' values ('' @ r"
  have "skipTableName (table_name owner table @ ?r) = ?r" by (rule skipTableName_print [OF assms(1,2)]) simp
  then show ?thesis
    using columns_print [OF assms(3), of n "'' values ('' @ r"] expect_self [of n "''insert into ''"]
      expect_self [of n "''values ''" "CHR ''('' # r"]
    by (simp add: parseInsert_def)
qed



section \<open>Where the parser does not return\<close>

lemma semicolon_lower: "char_lower (CHR '';'') \<noteq> char_lower (CHR ''N'')" "char_lower (CHR '';'') \<noteq> char_lower (CHR ''U'')"
  by code_simp+

lemma readValue_semicolon: "readValue (CHR '';'' # r) = ([], CHR '';'' # r)"
proof -
  have "value_rest 0 False (CHR '';'' # r) = CHR '';'' # r" by (subst value_rest.simps) simp
  then show ?thesis
    by (subst readValue.simps) (simp add: Let_def hasPrefix_Cons semicolon_lower text_slice_def TrimSpace_def)
qed

lemma value_loop_semicolon: "value_loop (CHR '';'' # r) vals = None"
proof (rule ccontr)
  assume "value_loop (CHR '';'' # r) vals \<noteq> None"
  then obtain y where ret: "value_loop (CHR '';'' # r) vals = Some y" by blast
  have "\<not> starts (CHR '';'') (CHR '';'' # r)"
  proof (rule value_loop.raw_induct [where P = "\<lambda>s vals y. \<not> starts (CHR '';'') s", OF _ ret])
    fix f s vals y
    assume IH: "\<And>s vals y. f s vals = Some y \<Longrightarrow> \<not> starts (CHR '';'') s"
      and eq: "(if s = [] then Some (Inr (vals, []))
          else let s = skipSpaces s in
            if s = [] then Some (Inl out_of_range)
            else if starts (CHR '')'') s then Some (Inr (vals, tl s))
            else let r = readValue (if starts (CHR '','') s then skipSpaces (tl s) else s)
                 in f (snd r) (vals @ [fst r])) = Some y"
    show "\<not> starts (CHR '';'') s"
    proof
      assume "starts (CHR '';'') s"
      then obtain u where s: "s = CHR '';'' # u" by (cases s) auto
      have "f (CHR '';'' # u) (vals @ [[]]) = Some y" using eq by (simp add: s Let_def readValue_semicolon)
      from IH [OF this] show False by simp
    qed
  qed
  then show False by simp
qed

text \<open>
  C37. An INSERT statement whose list of values is not closed before the semicolon is never answered:
  whatever values precede the semicolon, the loop over the values reads an empty value there again and
  again, and the parser does not return.
\<close>

theorem insert_unclosed_diverges:
  assumes "name_ok owner" "name_ok table" "list_all name_ok cols" "list_all value_ok vals"
  shows "Dml_Parse (''insert into '' @ table_name owner table @ ''('' @ strings_Join (map quoted_name cols) '','' @ '') values (''
    @ strings_Join (map print_value vals) '','' @ '';'' @ rest) = None"
proof -
  let ?r = "strings_Join (map print_value vals) '','' @ '';'' @ rest"
  have "value_loop ?r [] = None"
    using values_print [OF assms(4), of "'';'' @ rest"] by (simp add: value_loop_semicolon ends_value_def)
  then have "parseValueList n k (CHR ''('' # ?r) = None" for n k by (simp add: parseValueList_def Let_def)
  then show ?thesis
    using parseInsert_values [OF assms(1-3), where r = ?r] by (simp add: Dml_Parse_def Let_def lower_bit_eval)
qed

theorem insert_unclosed_diverges_witness:
  "Dml_Parse (''insert into '' @ table_name ''HR'' ''EMP'' @ ''('' @ strings_Join (map quoted_name [''ID'']) '','' @ '') values (''
    @ strings_Join (map print_value [SqlText ''1'']) '','' @ '';'' @ []) = None"
  by (rule insert_unclosed_diverges) code_simp+

text \<open>Other statements are always answered.\<close>

lemma Dml_Parse_returns: "lower_bit (hd (skipWhitespace sql)) \<noteq> CHR ''i'' \<Longrightarrow> Dml_Parse sql \<noteq> None"
  by (simp add: Dml_Parse_def Let_def)

text \<open>A statement that ends in a blank inside a list of columns makes the parser panic.\<close>

lemma truncated_columns_panic:
  assumes "name_ok owner" "name_ok table" "name_ok c"
  shows "Dml_Parse (''insert into '' @ table_name owner table @ ''('' @ quoted_name c @ '' '') = Some (Inl out_of_range)"
proof -
  let ?r = "CHR ''('' # quoted_name c @ '' ''"
  have t: "skipTableName (table_name owner table @ ?r) = ?r" by (rule skipTableName_print [OF assms(1,2)]) simp
  have "column_loop n (quoted_name c @ '' '') [] = column_loop n '' '' ([] @ [c])" for n
    by (rule column_step [OF assms(3)]) (simp add: quoted_name_def)
  moreover have "column_loop n '' '' cs = Inl out_of_range" for n cs by (subst column_loop.simps) (simp add: Let_def)
  ultimately have "parseColumnList n ?r = Inl out_of_range" for n by (simp add: parseColumnList_def)
  then show ?thesis
    using t expect_self [where tok = "''insert into ''"] by (simp add: Dml_Parse_def Let_def lower_bit_eval parseInsert_def)
qed

end
