(* ===== verification/Resilience.thy ===== *)
theory Resilience
  imports Go_Text
begin

section \<open>Errors, circuit breaker and retries (pkg/errors, pkg/utils)\<close>

text \<open>
  The classification of errors (classification.go, helper.go), the circuit breaker (circuit_breaker.go)
  and the retry helper (utils/retry.go). What the error library answers about an error value, its
  cause, its RFC code and whether two errors are equal, are arguments; so are the outcomes of the
  function that is retried. Times are nanoseconds; \<^verbatim>\<open>time.Since\<close> saturates at the ends of \<^verbatim>\<open>Duration\<close>.
\<close>

definition since :: "gotime \<Rightarrow> gotime \<Rightarrow> int" where
  "since now t = (if now - t > max_int64 then max_int64 else if now - t < min_int64 then min_int64 else now - t)"

subsection \<open>Classification (classification.go)\<close>

datatype ErrorSeverity = SeverityWarning | SeverityRecoverable | SeverityIntervention | SeverityFatal

datatype ErrorCategory =
    CategoryConnection | CategoryNetwork | CategoryPermission | CategorySchema
  | CategoryData | CategoryConfig | CategoryInternal | CategoryResource

record DataStreamError =
  dse_Code :: string
  dse_Severity :: ErrorSeverity
  dse_Category :: ErrorCategory
  dse_Message :: string
  dse_Cause :: "err option"

definition dse_Error :: "DataStreamError \<Rightarrow> string" where
  "dse_Error e = (case dse_Cause e of Some c \<Rightarrow> dse_Message e @ '': '' @ Error c | None \<Rightarrow> dse_Message e)"

definition IsRecoverable :: "DataStreamError \<Rightarrow> bool" where
  "IsRecoverable e = (dse_Severity e = SeverityRecoverable)"

definition IsFatal :: "DataStreamError \<Rightarrow> bool" where
  "IsFatal e = (dse_Severity e = SeverityFatal)"

definition NeedsIntervention :: "DataStreamError \<Rightarrow> bool" where
  "NeedsIntervention e = (dse_Severity e = SeverityIntervention)"

definition NewDataStreamError :: "string \<Rightarrow> ErrorSeverity \<Rightarrow> ErrorCategory \<Rightarrow> string \<Rightarrow> DataStreamError" where
  "NewDataStreamError code severity category message =
     \<lparr> dse_Code = code, dse_Severity = severity, dse_Category = category, dse_Message = message, dse_Cause = None \<rparr>"

definition ErrConnectionFailed :: string where "ErrConnectionFailed = ''DS:ErrConnectionFailed''"
definition ErrUnknown :: string where "ErrUnknown = ''DS:ErrUnknown''"

definition ClassifyError :: "err option \<Rightarrow> DataStreamError option" where
  "ClassifyError er =
     (case er of
        None \<Rightarrow> None
      | Some e \<Rightarrow>
          if e = DeadlineExceeded \<or> e = Canceled then
            Some \<lparr> dse_Code = ErrConnectionFailed, dse_Severity = SeverityRecoverable, dse_Category = CategoryNetwork,
                   dse_Message = Error e, dse_Cause = Some e \<rparr>
          else if e = EOF \<or> e = UnexpectedEOF then
            Some \<lparr> dse_Code = ErrConnectionFailed, dse_Severity = SeverityRecoverable, dse_Category = CategoryConnection,
                   dse_Message = Error e, dse_Cause = Some e \<rparr>
          else if errors_As_OpError e then
            Some \<lparr> dse_Code = ErrConnectionFailed, dse_Severity = SeverityRecoverable, dse_Category = CategoryNetwork,
                   dse_Message = Error e, dse_Cause = Some e \<rparr>
          else if Contains (Error e) ''connection refused'' \<or> Contains (Error e) ''timeout'' then
            Some \<lparr> dse_Code = ErrConnectionFailed, dse_Severity = SeverityRecoverable, dse_Category = CategoryNetwork,
                   dse_Message = Error e, dse_Cause = Some e \<rparr>
          else
            Some \<lparr> dse_Code = ErrUnknown, dse_Severity = SeverityIntervention, dse_Category = CategoryInternal,
                   dse_Message = Error e, dse_Cause = Some e \<rparr>)"

subsection \<open>Codes (helper.go)\<close>

definition unretryableErrors :: "string list" where
  "unretryableErrors =
     [''DS:ErrInvalidArgument'', ''DS:ErrNotImplemented'', ''DS:ErrInvalidConfig'', ''DS:ErrConfigNotFound'',
      ''DS:ErrTaskNotExists'', ''DS:ErrTaskAlreadyExists'', ''DS:ErrSourceNotExists'', ''DS:ErrSinkNotExists'',
      ''DS:ErrSchemaNotExists'', ''DS:ErrSchemaIncompatible'', ''DS:ErrSourcePositionLost'',
      ''DS:ErrSourceGCTTLExceeded'', ''DS:ErrTableNotExists'', ''DS:ErrTableAlreadyExists'']"

text \<open>\<open>cause\<close> and \<open>equal\<close> stand for \<^verbatim>\<open>errors.Cause\<close> and the method \<^verbatim>\<open>Equal\<close> of the error library.\<close>

definition IsRetryableError :: "(err \<Rightarrow> err) \<Rightarrow> (string \<Rightarrow> err \<Rightarrow> bool) \<Rightarrow> err option \<Rightarrow> bool" where
  "IsRetryableError cause equal er =
     (case er of
        None \<Rightarrow> False
      | Some e \<Rightarrow>
          if cause e = Canceled \<or> cause e = DeadlineExceeded then False
          else \<not> list_ex (\<lambda>code. equal code e) unretryableErrors)"

definition httpStatusCodeMapping :: "(string, int) gomap" where
  "httpStatusCodeMapping =
     [(''DS:ErrUnknown'', 500), (''DS:ErrInvalidArgument'', 400), (''DS:ErrInternal'', 500), (''DS:ErrNotImplemented'', 501),
      (''DS:ErrInvalidConfig'', 400), (''DS:ErrConfigNotFound'', 404), (''DS:ErrTaskNotExists'', 404),
      (''DS:ErrTaskAlreadyExists'', 409), (''DS:ErrTaskRunning'', 409), (''DS:ErrTaskNotRunning'', 409),
      (''DS:ErrTaskPaused'', 409), (''DS:ErrTaskFailed'', 500), (''DS:ErrSourceNotExists'', 404), (''DS:ErrSinkNotExists'', 404),
      (''DS:ErrSchemaNotExists'', 404), (''DS:ErrSchemaIncompatible'', 422), (''DS:ErrTableNotExists'', 404),
      (''DS:ErrTableAlreadyExists'', 409), (''DS:ErrNotLeader'', 503), (''DS:ErrCoordinatorTimeout'', 503),
      (''DS:ErrCoordinatorUnreachable'', 503), (''DS:ErrPipelineStopped'', 503), (''DS:ErrPipelineTimeout'', 504)]"

text \<open>
  \<^verbatim>\<open>RFCCode\<close> walks the chain of wrapped errors to the first that carries a code; \<open>code\<close> is the code of an
  error value that has one.
\<close>

fun RFCCode :: "(err \<Rightarrow> string option) \<Rightarrow> err \<Rightarrow> string option" where
  "RFCCode code (Wrapf m e) = (case code (Wrapf m e) of Some c \<Rightarrow> Some c | None \<Rightarrow> RFCCode code e)"
| "RFCCode code (WrapText m e) = (case code (WrapText m e) of Some c \<Rightarrow> Some c | None \<Rightarrow> RFCCode code e)"
| "RFCCode code e = code e"

definition HTTPStatusCode :: "(err \<Rightarrow> string option) \<Rightarrow> err option \<Rightarrow> int" where
  "HTTPStatusCode code er =
     (case er of
        None \<Rightarrow> 200
      | Some e \<Rightarrow>
          (case RFCCode code e of
             None \<Rightarrow> 500
           | Some c \<Rightarrow> (case map_of httpStatusCodeMapping c of Some st \<Rightarrow> st | None \<Rightarrow> 500)))"

subsection \<open>The circuit breaker (circuit_breaker.go)\<close>

datatype CircuitState = CircuitClosed | CircuitOpen | CircuitHalfOpen

record CircuitBreakerConfig =
  cbc_FailureThreshold :: int
  cbc_SuccessThreshold :: int
  cbc_ResetTimeout :: int

record CircuitBreaker =
  cb_config :: CircuitBreakerConfig
  cb_state :: CircuitState
  cb_failures :: int
  cb_successes :: int
  cb_lastFailure :: gotime
  cb_probeInFlight :: bool

definition NewCircuitBreaker :: "CircuitBreakerConfig \<Rightarrow> CircuitBreaker" where
  "NewCircuitBreaker config =
     (let config = (if cbc_SuccessThreshold config \<le> 0 then config\<lparr> cbc_SuccessThreshold := 1 \<rparr> else config)
      in \<lparr> cb_config = config, cb_state = CircuitClosed, cb_failures = 0, cb_successes = 0, cb_lastFailure = 0,
           cb_probeInFlight = False \<rparr>)"

definition cb_Allow :: "CircuitBreaker \<Rightarrow> gotime \<Rightarrow> CircuitBreaker \<times> bool" where
  "cb_Allow cb now =
     (case cb_state cb of
        CircuitClosed \<Rightarrow> (cb, True)
      | CircuitOpen \<Rightarrow>
          if since now (cb_lastFailure cb) > cbc_ResetTimeout (cb_config cb)
          then (cb\<lparr> cb_state := CircuitHalfOpen, cb_probeInFlight := True, cb_successes := 0 \<rparr>, True)
          else (cb, False)
      | CircuitHalfOpen \<Rightarrow>
          if cb_probeInFlight cb then (cb, False) else (cb\<lparr> cb_probeInFlight := True \<rparr>, True))"

definition RecordSuccess :: "CircuitBreaker \<Rightarrow> CircuitBreaker" where
  "RecordSuccess cb =
     (let cb = cb\<lparr> cb_failures := 0, cb_probeInFlight := False \<rparr> in
      if cb_state cb = CircuitHalfOpen then
        let cb = cb\<lparr> cb_successes := cb_successes cb + 1 \<rparr> in
        if cb_successes cb \<ge> cbc_SuccessThreshold (cb_config cb)
        then cb\<lparr> cb_state := CircuitClosed, cb_successes := 0 \<rparr> else cb
      else cb)"

definition RecordFailure :: "CircuitBreaker \<Rightarrow> gotime \<Rightarrow> CircuitBreaker" where
  "RecordFailure cb now =
     (let cb = cb\<lparr> cb_failures := cb_failures cb + 1, cb_lastFailure := now, cb_probeInFlight := False \<rparr> in
      case cb_state cb of
        CircuitHalfOpen \<Rightarrow> cb\<lparr> cb_state := CircuitOpen, cb_failures := 0, cb_successes := 0 \<rparr>
      | CircuitClosed \<Rightarrow>
          if cb_failures cb \<ge> cbc_FailureThreshold (cb_config cb) then cb\<lparr> cb_state := CircuitOpen \<rparr> else cb
      | CircuitOpen \<Rightarrow> cb)"

definition cb_State :: "CircuitBreaker \<Rightarrow> gotime \<Rightarrow> CircuitState" where
  "cb_State cb now =
     (if cb_state cb = CircuitOpen \<and> since now (cb_lastFailure cb) > cbc_ResetTimeout (cb_config cb)
      then CircuitHalfOpen else cb_state cb)"

subsection \<open>Retries (utils/retry.go)\<close>

record RetryConfig =
  rtc_MaxRetries :: int
  rtc_InitialDelay :: int
  rtc_MaxDelay :: int

definition DefaultRetryConfig :: RetryConfig where
  "DefaultRetryConfig = \<lparr> rtc_MaxRetries = 3, rtc_InitialDelay = 100000000, rtc_MaxDelay = 10000000000 \<rparr>"

text \<open>\<open>as_retryable\<close> is the answer of the method \<^verbatim>\<open>Retryable\<close> of the first error of the chain that has one.\<close>

definition utils_IsRetryableError :: "(err \<Rightarrow> bool option) \<Rightarrow> err option \<Rightarrow> bool" where
  "utils_IsRetryableError as_retryable er =
     (case er of
        None \<Rightarrow> False
      | Some e \<Rightarrow>
          if errors_Is e Canceled \<or> errors_Is e DeadlineExceeded then False
          else case as_retryable e of Some b \<Rightarrow> b | None \<Rightarrow> True)"

text \<open>
  The loop of \<^verbatim>\<open>Retry\<close>. \<open>ctx i\<close> is the error of the context before call \<open>i\<close>, \<open>fn i\<close> the outcome of call
  \<open>i\<close>, and \<open>waiting i\<close> the error of the context if it ends during the wait after call \<open>i\<close>. \<open>scale\<close> multiplies a delay
  by the configured factor. The result is the error, the number of calls and the waits.
\<close>

fun retry_loop ::
  "(err \<Rightarrow> bool option) \<Rightarrow> (int \<Rightarrow> int) \<Rightarrow> int \<Rightarrow> (nat \<Rightarrow> err option) \<Rightarrow> (nat \<Rightarrow> err option) \<Rightarrow> (nat \<Rightarrow> err option)
     \<Rightarrow> nat \<Rightarrow> nat \<Rightarrow> int \<Rightarrow> err option \<Rightarrow> err option \<times> nat \<times> int list" where
  "retry_loop as_retryable scale maxDelay ctx fn waiting 0 i delay er = (er, i, [])"
| "retry_loop as_retryable scale maxDelay ctx fn waiting (Suc k) i delay er =
     (case ctx i of
        Some e \<Rightarrow> (Some e, i, [])
      | None \<Rightarrow>
          (case fn i of
             None \<Rightarrow> (None, i + 1, [])
           | Some e \<Rightarrow>
               if \<not> utils_IsRetryableError as_retryable (Some e) then (Some e, i + 1, [])
               else if k = 0 then (Some e, i + 1, [])
               else case waiting i of
                 Some c \<Rightarrow> (Some c, i + 1, [delay])
               | None \<Rightarrow>
                   let d = scale delay; d = (if maxDelay > 0 \<and> d > maxDelay then maxDelay else d);
                       (r, n, ws) = retry_loop as_retryable scale maxDelay ctx fn waiting k (i + 1) d (Some e)
                   in (r, n, delay # ws)))"

definition Retry ::
  "(err \<Rightarrow> bool option) \<Rightarrow> (int \<Rightarrow> int) \<Rightarrow> RetryConfig \<Rightarrow> (nat \<Rightarrow> err option) \<Rightarrow> (nat \<Rightarrow> err option) \<Rightarrow> (nat \<Rightarrow> err option)
     \<Rightarrow> err option \<times> nat \<times> int list" where
  "Retry as_retryable scale cfg ctx fn waiting =
     retry_loop as_retryable scale (rtc_MaxDelay cfg) ctx fn waiting (nat (rtc_MaxRetries cfg + 1)) 0 (rtc_InitialDelay cfg) None"

section \<open>Classification and codes agree and disagree\<close>

lemma ClassifyError_recoverable_iff:
  "IsRecoverable (the (ClassifyError (Some e))) \<longleftrightarrow>
     e \<in> {Canceled, DeadlineExceeded, EOF, UnexpectedEOF} \<or> errors_As_OpError e
     \<or> Contains (Error e) ''connection refused'' \<or> Contains (Error e) ''timeout''"
  by (auto simp: ClassifyError_def IsRecoverable_def)

text \<open>An ended context is classified as recoverable, yet it is never retried.\<close>

lemma context_error_contradiction:
  assumes "e = Canceled \<or> e = DeadlineExceeded" "cause e = e"
  shows "IsRecoverable (the (ClassifyError (Some e))) \<and> \<not> IsRetryableError cause equal (Some e)"
  using assms by (auto simp: ClassifyError_recoverable_iff IsRetryableError_def)

lemma HTTPStatusCode_range: "HTTPStatusCode code er \<in> {200, 400, 404, 409, 422, 500, 501, 503, 504}"
proof -
  have "snd ` set httpStatusCodeMapping \<subseteq> {400, 404, 409, 422, 500, 501, 503, 504}"
    by (simp add: httpStatusCodeMapping_def)
  then have "map_of httpStatusCodeMapping c = Some st \<Longrightarrow> st \<in> {400, 404, 409, 422, 500, 501, 503, 504}" for c st
    using map_of_SomeD [of httpStatusCodeMapping c st] by (force simp del: insert_iff)
  then show ?thesis by (auto simp: HTTPStatusCode_def split: option.split)
qed

section \<open>What a breaker admits\<close>

text \<open>A run of a breaker: the answers of \<^verbatim>\<open>Allow\<close> and the recorded outcomes, with their times.\<close>

datatype cb_event = Granted gotime | Denied gotime | Succeeded | Failed gotime

inductive cb_run :: "CircuitBreakerConfig \<Rightarrow> cb_event list \<Rightarrow> CircuitBreaker \<Rightarrow> bool" for config :: CircuitBreakerConfig where
  cb_new: "cb_run config [] (NewCircuitBreaker config)"
| cb_allow: "cb_run config tr cb \<Longrightarrow> cb_Allow cb now = (cb', b)
     \<Longrightarrow> cb_run config (tr @ [if b then Granted now else Denied now]) cb'"
| cb_success: "cb_run config tr cb \<Longrightarrow> cb_run config (tr @ [Succeeded]) (RecordSuccess cb)"
| cb_failure: "cb_run config tr cb \<Longrightarrow> cb_run config (tr @ [Failed now]) (RecordFailure cb now)"

definition step_failures :: "int \<Rightarrow> cb_event \<Rightarrow> int" where
  "step_failures n ev = (case ev of Succeeded \<Rightarrow> 0 | Failed _ \<Rightarrow> n + 1 | _ \<Rightarrow> n)"

definition failures_since :: "cb_event list \<Rightarrow> int" where
  "failures_since tr = foldl step_failures 0 tr"

definition last_failure :: "cb_event list \<Rightarrow> gotime" where
  "last_failure tr = foldl (\<lambda>t ev. case ev of Failed now \<Rightarrow> now | _ \<Rightarrow> t) 0 tr"

definition outstanding :: "cb_event list \<Rightarrow> bool" where
  "outstanding tr = foldl (\<lambda>b ev. case ev of Granted _ \<Rightarrow> True | Denied _ \<Rightarrow> b | _ \<Rightarrow> False) False tr"

lemma history_snoc [simp]:
  "failures_since (tr @ [ev]) = step_failures (failures_since tr) ev"
  "last_failure (tr @ [ev]) = (case ev of Failed now \<Rightarrow> now | _ \<Rightarrow> last_failure tr)"
  "outstanding (tr @ [ev]) = (case ev of Granted _ \<Rightarrow> True | Denied _ \<Rightarrow> outstanding tr | _ \<Rightarrow> False)"
  by (simp_all add: failures_since_def last_failure_def outstanding_def split: cb_event.split)

definition cb_inv :: "CircuitBreakerConfig \<Rightarrow> cb_event list \<Rightarrow> CircuitBreaker \<Rightarrow> bool" where
  "cb_inv config tr cb =
     (cb_config cb = cb_config (NewCircuitBreaker config) \<and> cb_lastFailure cb = last_failure tr
      \<and> (cb_state cb = CircuitHalfOpen \<longrightarrow> cb_probeInFlight cb = outstanding tr)
      \<and> (cb_state cb \<noteq> CircuitHalfOpen \<longrightarrow> \<not> cb_probeInFlight cb)
      \<and> 0 \<le> failures_since tr
      \<and> (cb_state cb = CircuitClosed \<longrightarrow> cb_failures cb = failures_since tr
           \<and> (failures_since tr = 0 \<or> failures_since tr < cbc_FailureThreshold config)))"

lemma cb_config_keep:
  "cb_Allow cb now = (cb', b) \<Longrightarrow> cb_config cb' = cb_config cb" "cb_config (RecordSuccess cb) = cb_config cb"
  "cb_config (RecordFailure cb now) = cb_config cb"
  by (auto simp: cb_Allow_def RecordSuccess_def RecordFailure_def Let_def split: CircuitState.splits if_splits)

lemma cbc_FailureThreshold_New [simp]: "cbc_FailureThreshold (cb_config (NewCircuitBreaker config)) = cbc_FailureThreshold config"
  "cbc_ResetTimeout (cb_config (NewCircuitBreaker config)) = cbc_ResetTimeout config"
  by (simp_all add: NewCircuitBreaker_def Let_def)

lemma cb_run_inv: "cb_run config tr cb \<Longrightarrow> cb_inv config tr cb"
proof (induction rule: cb_run.induct)
  case cb_new
  show ?case by (simp add: cb_inv_def NewCircuitBreaker_def Let_def failures_since_def last_failure_def outstanding_def)
next
  case (cb_allow tr cb now cb' b)
  from cb_allow(2) cb_allow.IH show ?case
    by (cases "cb_state cb") (auto simp: cb_inv_def cb_Allow_def step_failures_def split: if_splits)
next
  case (cb_success tr cb)
  from cb_success.IH show ?case
    by (cases "cb_state cb") (auto simp: cb_inv_def RecordSuccess_def Let_def step_failures_def)
next
  case (cb_failure tr cb now)
  from cb_failure.IH show ?case
    by (cases "cb_state cb") (auto simp: cb_inv_def RecordFailure_def Let_def step_failures_def)
qed

text \<open>
  C22. What a circuit breaker admits is decided by its history. In every state that calls in any order
  and at any times lead to: a closed breaker admits every request, and fewer than \<^verbatim>\<open>FailureThreshold\<close>
  failures have been recorded since the last success (or none); an open one admits a request exactly
  when more than \<^verbatim>\<open>ResetTimeout\<close> has passed since the last recorded failure; a half-open one admits a
  request exactly when an outcome has been recorded since the last admitted request, so that at most
  one probe is in flight, and a probe whose outcome is never recorded blocks every later request.
\<close>

theorem breaker_admission:
  assumes "cb_run config tr cb"
  shows "case cb_state cb of
      CircuitClosed \<Rightarrow> snd (cb_Allow cb now) \<and> (failures_since tr = 0 \<or> failures_since tr < cbc_FailureThreshold config)
    | CircuitOpen \<Rightarrow> snd (cb_Allow cb now) = (since now (last_failure tr) > cbc_ResetTimeout config)
    | CircuitHalfOpen \<Rightarrow> snd (cb_Allow cb now) = (\<not> outstanding tr)"
  using cb_run_inv [OF assms] by (cases "cb_state cb") (auto simp: cb_inv_def cb_Allow_def)

theorem breaker_admission_witness:
  "\<not> snd (cb_Allow (RecordFailure (NewCircuitBreaker \<lparr> cbc_FailureThreshold = 1, cbc_SuccessThreshold = 1, cbc_ResetTimeout = 10 \<rparr>) 5) 15)"
proof -
  let ?c = "\<lparr> cbc_FailureThreshold = 1, cbc_SuccessThreshold = 1, cbc_ResetTimeout = 10 \<rparr>"
  have "cb_run ?c ([] @ [Failed 5]) (RecordFailure (NewCircuitBreaker ?c) 5)" by (rule cb_failure [OF cb_new])
  from breaker_admission [OF this, of 15] show ?thesis
    by (simp add: RecordFailure_def NewCircuitBreaker_def Let_def last_failure_def since_def max_int64_def min_int64_def)
qed

section \<open>What a retry returns\<close>

text \<open>
  The reference: the first call that succeeds or fails for good decides, otherwise the last call. The
  second component is the number of calls.
\<close>

definition retry_spec :: "(err \<Rightarrow> bool) \<Rightarrow> (nat \<Rightarrow> err option) \<Rightarrow> nat \<Rightarrow> err option \<times> nat" where
  "retry_spec retryable fn m =
     (case find (\<lambda>i. case fn i of None \<Rightarrow> True | Some e \<Rightarrow> \<not> retryable e) [0..<m] of
        Some i \<Rightarrow> (fn i, i + 1)
      | None \<Rightarrow> (if m = 0 then None else fn (m - 1), m))"

definition retry_from :: "(err \<Rightarrow> bool) \<Rightarrow> (nat \<Rightarrow> err option) \<Rightarrow> nat \<Rightarrow> nat \<Rightarrow> err option \<Rightarrow> err option \<times> nat" where
  "retry_from retryable fn i m er =
     (case find (\<lambda>i. case fn i of None \<Rightarrow> True | Some e \<Rightarrow> \<not> retryable e) [i..<m] of
        Some j \<Rightarrow> (fn j, j + 1)
      | None \<Rightarrow> (if i < m then fn (m - 1) else er, m))"

lemma retry_from_step:
  "i < m \<Longrightarrow> retry_from retryable fn i m er =
     (case fn i of
        None \<Rightarrow> (None, i + 1)
      | Some e \<Rightarrow> if \<not> retryable e then (Some e, i + 1) else retry_from retryable fn (i + 1) m (Some e))"
proof -
  assume "i < m"
  moreover have "m - 1 = i" if "\<not> Suc i < m" using that \<open>i < m\<close> by simp
  ultimately show ?thesis by (auto simp: retry_from_def upt_conv_Cons split: option.splits)
qed

lemma retry_loop_from:
  "i + k = m \<Longrightarrow> (let (r, n, ws) = retry_loop as_retryable scale maxDelay (\<lambda>_. None) fn (\<lambda>_. None) k i delay er in (r, n))
     = retry_from (\<lambda>e. utils_IsRetryableError as_retryable (Some e)) fn i m er"
proof (induction k arbitrary: i delay er)
  case 0
  then show ?case by (simp add: retry_from_def)
next
  case (Suc k)
  let ?R = "\<lambda>e. utils_IsRetryableError as_retryable (Some e)"
  have im: "i < m" "Suc i + k = m" using Suc.prems by simp_all
  have last: "retry_from ?R fn (Suc i) m (Some e) = (Some e, Suc i)" if "k = 0" for e
    using that im by (simp add: retry_from_def)
  show ?case
    using Suc.IH [OF im(2)] im(1) last by (auto simp: retry_from_step Let_def case_prod_unfold split: option.split)
qed

text \<open>
  C38. With a context that stays alive, \<^verbatim>\<open>Retry\<close> is equivalent to its reference: for every sequence of
  outcomes of the function and every configuration it returns the outcome of the first call that
  succeeds or fails with an error that must not be retried, and otherwise that of the last of
  \<^verbatim>\<open>MaxRetries + 1\<close> calls, and it makes no call after the deciding one. With a negative \<^verbatim>\<open>MaxRetries\<close> the
  function is never called and the result is success.
\<close>

theorem retry_equivalent:
  "(let (r, n, ws) = Retry as_retryable scale cfg (\<lambda>_. None) fn (\<lambda>_. None) in (r, n))
    = retry_spec (\<lambda>e. utils_IsRetryableError as_retryable (Some e)) fn (nat (rtc_MaxRetries cfg + 1))"
  unfolding Retry_def
  by (subst retry_loop_from [where m = "nat (rtc_MaxRetries cfg + 1)"]) (simp_all add: retry_from_def retry_spec_def split: option.split)

text \<open>No wait is longer than \<^verbatim>\<open>MaxDelay\<close> when the first one is not.\<close>

lemma retry_waits:
  "0 < maxDelay \<Longrightarrow> delay \<le> maxDelay
     \<Longrightarrow> list_all (\<lambda>w. w \<le> maxDelay) (snd (snd (retry_loop as_retryable scale maxDelay ctx fn waiting k i delay er)))"
  by (induction k arbitrary: i delay er) (auto simp: Let_def case_prod_unfold split: option.split)

end
