(* ===== verification/Buffers.thy ===== *)
theory Buffers
  imports Events Go_Text "HOL-Library.Multiset" "HOL-Library.Sublist"
begin

section \<open>Buffers and backpressure (internal/pipeline)\<close>

text \<open>
  The event buffers (buffer.go, persistent_buffer.go) and the backpressure controller (backpressure.go).
  A channel is the list of its elements. Where \<^verbatim>\<open>select\<close> finds several cases ready, an argument says which
  one it takes; the error of a context that has ended is an argument as well. The key-value store under
  the persistent buffer is given by two functions: what a write does, and the items in the order of an
  iteration.
\<close>

definition ErrBufferFull :: err where "ErrBufferFull = ErrCode ''DS:Pipeline:BufferFull''"
definition ErrBufferClosed :: err where "ErrBufferClosed = Errorf ''buffer is closed''"

subsection \<open>The memory buffer (buffer.go)\<close>

record MemoryBuffer =
  mb_events :: "ChangeEvent list"
  mb_capacity :: int
  mb_closed :: bool

definition NewMemoryBuffer :: "int \<Rightarrow> MemoryBuffer res" where
  "NewMemoryBuffer capacity =
     (if capacity < 0 then Inl (Panic ''makechan: size out of range'')
      else Inr \<lparr> mb_events = [], mb_capacity = capacity, mb_closed = False \<rparr>)"

definition mb_Put :: "bool \<Rightarrow> err option \<Rightarrow> MemoryBuffer \<Rightarrow> ChangeEvent \<Rightarrow> MemoryBuffer \<times> err option" where
  "mb_Put pick ctx b e =
     (if mb_closed b then (b, Some ErrBufferFull)
      else
        let room = (int (length (mb_events b)) < mb_capacity b) in
        if room \<and> (ctx = None \<or> pick) then (b\<lparr> mb_events := mb_events b @ [e] \<rparr>, None)
        else if ctx \<noteq> None then (b, ctx)
        else (b, Some ErrBufferFull))"

text \<open>The loop of \<^verbatim>\<open>Get\<close>: the events, the error and what stays in the channel.\<close>

fun get_loop ::
  "(nat \<Rightarrow> bool) \<Rightarrow> (nat \<Rightarrow> err option) \<Rightarrow> bool \<Rightarrow> nat \<Rightarrow> nat \<Rightarrow> ChangeEvent list
     \<Rightarrow> ChangeEvent list \<times> err option \<times> ChangeEvent list" where
  "get_loop pick ctx closed 0 i q = ([], None, q)"
| "get_loop pick ctx closed (Suc k) i q =
     (if (q \<noteq> [] \<or> closed) \<and> (ctx i = None \<or> pick i) then
        (case q of
           [] \<Rightarrow> ([], None, [])
         | e # q \<Rightarrow> let (es, er, r) = get_loop pick ctx closed k (i + 1) q in (e # es, er, r))
      else if ctx i \<noteq> None then ([], ctx i, q)
      else ([], None, q))"

definition mb_Get ::
  "(nat \<Rightarrow> bool) \<Rightarrow> (nat \<Rightarrow> err option) \<Rightarrow> MemoryBuffer \<Rightarrow> int \<Rightarrow> (MemoryBuffer \<times> ChangeEvent list \<times> err option) res" where
  "mb_Get pick ctx b batchSize =
     (if batchSize < 0 then Inl (Panic ''makeslice: cap out of range'')
      else let (es, er, q) = get_loop pick ctx (mb_closed b) (nat batchSize) 0 (mb_events b)
           in Inr (b\<lparr> mb_events := q \<rparr>, es, er))"

definition mb_Flush :: "MemoryBuffer \<Rightarrow> err option" where
  "mb_Flush b = None"

definition mb_Close :: "MemoryBuffer \<Rightarrow> MemoryBuffer" where
  "mb_Close b = (if mb_closed b then b else b\<lparr> mb_closed := True \<rparr>)"

definition mb_Len :: "MemoryBuffer \<Rightarrow> int" where "mb_Len b = int (length (mb_events b))"
definition mb_Cap :: "MemoryBuffer \<Rightarrow> int" where "mb_Cap b = mb_capacity b"

subsection \<open>The batch buffer (buffer.go)\<close>

record BatchBuffer =
  bb_buffer :: MemoryBuffer
  bb_batchSize :: int
  bb_timeout :: int
  bb_pending :: "ChangeEvent list"

definition NewBatchBuffer :: "int \<Rightarrow> int \<Rightarrow> int \<Rightarrow> BatchBuffer res" where
  "NewBatchBuffer capacity batchSize timeoutMs =
     (case NewMemoryBuffer capacity of
        Inl e \<Rightarrow> Inl e
      | Inr mb \<Rightarrow>
          if batchSize < 0 then Inl (Panic ''makeslice: cap out of range'')
          else Inr \<lparr> bb_buffer = mb, bb_batchSize = batchSize, bb_timeout = timeoutMs * 1000000, bb_pending = [] \<rparr>)"

definition bb_Put :: "bool \<Rightarrow> err option \<Rightarrow> BatchBuffer \<Rightarrow> ChangeEvent \<Rightarrow> BatchBuffer \<times> err option" where
  "bb_Put pick ctx b e = (let (mb, er) = mb_Put pick ctx (bb_buffer b) e in (b\<lparr> bb_buffer := mb \<rparr>, er))"

text \<open>
  What the \<^verbatim>\<open>select\<close> of \<^verbatim>\<open>Get\<close> takes next: an element or the end of the channel, the timer, the end of
  the context. A case that is not ready is skipped. With an empty schedule \<^verbatim>\<open>Get\<close> still waits.
\<close>

datatype bb_step = BRecv | BTimeout | BDone err

fun bb_get_loop ::
  "bb_step list \<Rightarrow> int \<Rightarrow> MemoryBuffer \<Rightarrow> ChangeEvent list \<Rightarrow> (MemoryBuffer \<times> ChangeEvent list \<times> err option) option" where
  "bb_get_loop [] batchSize b events = (if int (length events) < batchSize then None else Some (b, events, None))"
| "bb_get_loop (s # sched) batchSize b events =
     (if \<not> int (length events) < batchSize then Some (b, events, None)
      else case s of
        BRecv \<Rightarrow>
          (case mb_events b of
             e # q \<Rightarrow> bb_get_loop sched batchSize (b\<lparr> mb_events := q \<rparr>) (events @ [e])
           | [] \<Rightarrow> if mb_closed b then Some (b, events, None) else bb_get_loop sched batchSize b events)
      | BTimeout \<Rightarrow> if events \<noteq> [] then Some (b, events, None) else bb_get_loop sched batchSize b events
      | BDone e \<Rightarrow> Some (b, events, Some e))"

definition bb_Get :: "bb_step list \<Rightarrow> BatchBuffer \<Rightarrow> int \<Rightarrow> (BatchBuffer \<times> ChangeEvent list \<times> err option) option" where
  "bb_Get sched b batchSize =
     (let n = (if batchSize \<le> 0 then bb_batchSize b else batchSize) in
      case bb_get_loop sched n (bb_buffer b) [] of
        None \<Rightarrow> None
      | Some (mb, es, er) \<Rightarrow> Some (b\<lparr> bb_buffer := mb \<rparr>, es, er))"

text \<open>\<^verbatim>\<open>Flush\<close> receives until the channel is empty, and appends to \<^verbatim>\<open>pending\<close>.\<close>

fun flush_drain :: "ChangeEvent list \<Rightarrow> ChangeEvent list \<Rightarrow> ChangeEvent list" where
  "flush_drain [] pending = pending"
| "flush_drain (e # q) pending = flush_drain q (pending @ [e])"

definition bb_Flush :: "BatchBuffer \<Rightarrow> BatchBuffer" where
  "bb_Flush b = b\<lparr> bb_pending := flush_drain (mb_events (bb_buffer b)) (bb_pending b),
                   bb_buffer := (bb_buffer b)\<lparr> mb_events := [] \<rparr> \<rparr>"

definition bb_Close :: "BatchBuffer \<Rightarrow> BatchBuffer" where
  "bb_Close b = b\<lparr> bb_buffer := mb_Close (bb_buffer b) \<rparr>"

record BufferConfig =
  bc_Size :: int
  bc_BatchSize :: int
  bc_FlushTimeout :: int

datatype any_buffer = MemBuf MemoryBuffer | BatchBuf BatchBuffer

definition NewBuffer :: "BufferConfig \<Rightarrow> any_buffer res" where
  "NewBuffer config =
     (if bc_BatchSize config > 0 then
        (case NewBatchBuffer (bc_Size config) (bc_BatchSize config) (bc_FlushTimeout config) of
           Inl e \<Rightarrow> Inl e | Inr b \<Rightarrow> Inr (BatchBuf b))
      else case NewMemoryBuffer (bc_Size config) of Inl e \<Rightarrow> Inl e | Inr b \<Rightarrow> Inr (MemBuf b))"

subsection \<open>The persistent buffer (persistent_buffer.go)\<close>

record 'd PersistentBuffer =
  pb_mem :: MemoryBuffer
  pb_db :: 'd
  pb_closed :: bool
  pb_seq :: uint64

definition NewPersistentBuffer :: "int \<Rightarrow> 'd \<Rightarrow> 'd PersistentBuffer" where
  "NewPersistentBuffer capacity db =
     (let capacity = (if capacity \<le> 0 then 10000 else capacity)
      in \<lparr> pb_mem = \<lparr> mb_events = [], mb_capacity = capacity, mb_closed = False \<rparr>, pb_db = db, pb_closed = False, pb_seq = 0 \<rparr>)"

text \<open>The verb \<^verbatim>\<open>%020d\<close>.\<close>

definition pad20 :: "nat \<Rightarrow> string" where
  "pad20 n = (let s = nat_decimal n in replicate (20 - length s) (CHR ''0'') @ s)"

definition makeKey :: "string \<Rightarrow> uint64 \<Rightarrow> ChangeEvent \<Rightarrow> string" where
  "makeKey stamp seq e =
     pad20 (unat seq) @ ''_'' @ stamp @ ''_'' @ ti_Database (ev_Table e) @ ''_'' @ ti_Table (ev_Table e)"

definition pb_Put ::
  "(ChangeEvent \<Rightarrow> bytes res) \<Rightarrow> ('d \<Rightarrow> string \<Rightarrow> bytes \<Rightarrow> 'd \<times> err option) \<Rightarrow> string \<Rightarrow> bool \<Rightarrow> err option
     \<Rightarrow> 'd PersistentBuffer \<Rightarrow> ChangeEvent \<Rightarrow> 'd PersistentBuffer \<times> err option" where
  "pb_Put marshal update stamp pick ctx b e =
     (if pb_closed b then (b, Some ErrBufferFull)
      else
        let b = b\<lparr> pb_seq := pb_seq b + 1 \<rparr>; key = makeKey stamp (pb_seq b) e in
        case marshal e of
          Inl er \<Rightarrow> (b, Some (Wrapf ''failed to marshal event'' er))
        | Inr data \<Rightarrow>
            (case update (pb_db b) key data of
               (db, Some er) \<Rightarrow> (b\<lparr> pb_db := db \<rparr>, Some (Wrapf ''failed to persist event'' er))
             | (db, None) \<Rightarrow>
                 let (mb, er) = mb_Put pick ctx (pb_mem b) e in (b\<lparr> pb_db := db, pb_mem := mb \<rparr>, er)))"

definition pb_Get ::
  "(nat \<Rightarrow> bool) \<Rightarrow> (nat \<Rightarrow> err option) \<Rightarrow> 'd PersistentBuffer \<Rightarrow> int
     \<Rightarrow> ('d PersistentBuffer \<times> ChangeEvent list \<times> err option) res" where
  "pb_Get pick ctx b batchSize =
     (case mb_Get pick ctx (pb_mem b) batchSize of
        Inl e \<Rightarrow> Inl e
      | Inr (mb, es, er) \<Rightarrow> Inr (b\<lparr> pb_mem := mb \<rparr>, es, er))"

definition pb_Close :: "'d PersistentBuffer \<Rightarrow> 'd PersistentBuffer" where
  "pb_Close b = (if pb_closed b then b else b\<lparr> pb_closed := True, pb_mem := mb_Close (pb_mem b) \<rparr>)"

text \<open>
  The iteration of \<^verbatim>\<open>Replay\<close> over the items of the store; \<open>ctx i\<close> is the error of the context at item \<open>i\<close>
  and \<open>pick i\<close> the choice of the \<^verbatim>\<open>select\<close> in \<^verbatim>\<open>Put\<close>.
\<close>

fun replay_items ::
  "(bytes \<Rightarrow> ChangeEvent res) \<Rightarrow> (nat \<Rightarrow> bool) \<Rightarrow> (nat \<Rightarrow> err option) \<Rightarrow> nat \<Rightarrow> (string \<times> bytes) list \<Rightarrow> MemoryBuffer \<Rightarrow> int
     \<Rightarrow> MemoryBuffer \<times> int \<times> err option" where
  "replay_items unmarshal pick ctx i [] mb cnt = (mb, cnt, None)"
| "replay_items unmarshal pick ctx i ((k, val) # items) mb cnt =
     (case ctx i of
        Some er \<Rightarrow> (mb, cnt, Some er)
      | None \<Rightarrow>
          (case unmarshal val of
             Inl _ \<Rightarrow> replay_items unmarshal pick ctx (i + 1) items mb cnt
           | Inr e \<Rightarrow>
               (case mb_Put (pick i) (ctx i) mb e of
                  (mb, Some er) \<Rightarrow> (mb, cnt, Some er)
                | (mb, None) \<Rightarrow> replay_items unmarshal pick ctx (i + 1) items mb (cnt + 1))))"

definition pb_Replay ::
  "(bytes \<Rightarrow> ChangeEvent res) \<Rightarrow> ('d \<Rightarrow> (string \<times> bytes) list) \<Rightarrow> (nat \<Rightarrow> bool) \<Rightarrow> (nat \<Rightarrow> err option)
     \<Rightarrow> 'd PersistentBuffer \<Rightarrow> 'd PersistentBuffer \<times> int \<times> err option" where
  "pb_Replay unmarshal items pick ctx b =
     (if pb_closed b then (b, 0, Some ErrBufferClosed)
      else
        let (mb, cnt, er) = replay_items unmarshal pick ctx 0 (items (pb_db b)) (pb_mem b) 0
        in (b\<lparr> pb_mem := mb \<rparr>, cnt, map_option (Wrapf ''replay failed'') er))"

definition pb_Stats :: "('d \<Rightarrow> (string \<times> bytes) list) \<Rightarrow> 'd PersistentBuffer \<Rightarrow> int \<times> int \<times> int" where
  "pb_Stats items b = (int (length (items (pb_db b))), mb_Len (pb_mem b), mb_Cap (pb_mem b))"

subsection \<open>Backpressure (backpressure.go)\<close>

record BackpressureConfig =
  bpc_EnableBackpressure :: bool
  bpc_HighWatermark :: int
  bpc_LowWatermark :: int
  bpc_MaxLatency :: int
  bpc_CheckInterval :: int

definition DefaultBackpressureConfig :: BackpressureConfig where
  "DefaultBackpressureConfig =
     \<lparr> bpc_EnableBackpressure = True, bpc_HighWatermark = 80, bpc_LowWatermark = 50, bpc_MaxLatency = 5000000000,
       bpc_CheckInterval = 100000000 \<rparr>"

datatype BackpressureState = BackpressureStateNormal | BackpressureStateWarning | BackpressureStatePaused

text \<open>
  The channels \<^verbatim>\<open>pauseCh\<close> and \<^verbatim>\<open>resumeCh\<close> hold at most one signal. \<open>bp_calls\<close> collects the calls of the
  callbacks that are set.
\<close>

datatype bp_call = OnPause | OnResume

record BackpressureController =
  bp_config :: BackpressureConfig
  bp_queueSize :: int
  bp_maxQueueSize :: int
  bp_latency :: int
  bp_state :: BackpressureState
  bp_pauseCh :: bool
  bp_resumeCh :: bool
  bp_onPause :: bool
  bp_onResume :: bool
  bp_calls :: "bp_call list"

definition NewBackpressureController :: "BackpressureConfig \<Rightarrow> BackpressureController" where
  "NewBackpressureController config =
     \<lparr> bp_config = config, bp_queueSize = 0, bp_maxQueueSize = 0, bp_latency = 0, bp_state = BackpressureStateNormal,
       bp_pauseCh = False, bp_resumeCh = False, bp_onPause = False, bp_onResume = False, bp_calls = [] \<rparr>"

definition notifyPause :: "BackpressureController \<Rightarrow> BackpressureController" where
  "notifyPause b = b\<lparr> bp_pauseCh := True, bp_calls := bp_calls b @ (if bp_onPause b then [OnPause] else []) \<rparr>"

definition notifyResume :: "BackpressureController \<Rightarrow> BackpressureController" where
  "notifyResume b = b\<lparr> bp_resumeCh := True, bp_calls := bp_calls b @ (if bp_onResume b then [OnResume] else []) \<rparr>"

text \<open>\<open>percent\<close> is the floating-point expression for the usage of the queue.\<close>

definition bp_usage :: "(int \<Rightarrow> int \<Rightarrow> int) \<Rightarrow> BackpressureController \<Rightarrow> int" where
  "bp_usage percent b = (if bp_maxQueueSize b > 0 then percent (bp_queueSize b) (bp_maxQueueSize b) else 0)"

definition check :: "(int \<Rightarrow> int \<Rightarrow> int) \<Rightarrow> BackpressureController \<Rightarrow> BackpressureController" where
  "check percent b =
     (if \<not> bpc_EnableBackpressure (bp_config b) then b
      else
        let usagePercent = bp_usage percent b; c = bp_config b in
        if bp_state b \<noteq> BackpressureStatePaused
           \<and> (usagePercent \<ge> bpc_HighWatermark c \<or> bp_latency b > bpc_MaxLatency c)
        then notifyPause (b\<lparr> bp_state := BackpressureStatePaused \<rparr>)
        else if bp_state b \<noteq> BackpressureStatePaused then
          (if usagePercent \<ge> bpc_LowWatermark c then b\<lparr> bp_state := BackpressureStateWarning \<rparr> else b)
        else if usagePercent \<le> bpc_LowWatermark c \<and> bp_latency b \<le> bpc_MaxLatency c
        then notifyResume (b\<lparr> bp_state := BackpressureStateNormal \<rparr>)
        else b)"

definition UpdateMetrics :: "BackpressureController \<Rightarrow> int \<Rightarrow> int \<Rightarrow> int \<Rightarrow> BackpressureController" where
  "UpdateMetrics b queueSize maxQueueSize latency =
     b\<lparr> bp_queueSize := queueSize, bp_maxQueueSize := maxQueueSize, bp_latency := latency \<rparr>"

definition ShouldPause :: "BackpressureController \<Rightarrow> bool" where
  "ShouldPause b = (bp_state b = BackpressureStatePaused)"

definition SetOnPause :: "BackpressureController \<Rightarrow> bool \<Rightarrow> BackpressureController" where
  "SetOnPause b fn = b\<lparr> bp_onPause := fn \<rparr>"

definition SetOnResume :: "BackpressureController \<Rightarrow> bool \<Rightarrow> BackpressureController" where
  "SetOnResume b fn = b\<lparr> bp_onResume := fn \<rparr>"

text \<open>
  \<^verbatim>\<open>WaitWhilePaused\<close> over what its \<^verbatim>\<open>select\<close> takes: the resume signal, the end of the context, or the
  interval, during which the controller may have gone on to another state. No result means that it
  still waits.
\<close>

datatype wait_step = WResume | WCtx err | WInterval BackpressureController

fun WaitWhilePaused :: "wait_step list \<Rightarrow> BackpressureController \<Rightarrow> (BackpressureController \<times> err option) option" where
  "WaitWhilePaused steps b =
     (if \<not> ShouldPause b then Some (b, None)
      else case steps of
        [] \<Rightarrow> None
      | WResume # steps \<Rightarrow> if bp_resumeCh b then Some (b\<lparr> bp_resumeCh := False \<rparr>, None) else WaitWhilePaused steps b
      | WCtx e # steps \<Rightarrow> Some (b, Some e)
      | WInterval b' # steps \<Rightarrow> WaitWhilePaused steps b')"

section \<open>Buffers keep their events\<close>

lemma get_loop_split: "get_loop pick ctx closed k i q = (es, er, r) \<Longrightarrow> q = es @ r \<and> length es \<le> k"
proof (induction k arbitrary: i q es er r)
  case (Suc k)
  show ?case
  proof (cases q)
    case (Cons e q')
    obtain es' er' r' where g: "get_loop pick ctx closed k (i + 1) q' = (es', er', r')"
      by (cases "get_loop pick ctx closed k (i + 1) q'")
    with Suc.IH [OF g] Suc.prems Cons show ?thesis by (auto split: if_splits)
  qed (use Suc.prems in \<open>auto split: if_splits\<close>)
qed simp

lemma mb_Put_events:
  "mb_Put pick ctx b e = (b', er) \<Longrightarrow> mb_events b' = mb_events b @ (if er = None then [e] else []) \<and> mb_capacity b' = mb_capacity b"
  by (auto simp: mb_Put_def Let_def ErrBufferFull_def split: if_splits)

lemma mb_Put_bound: "int (length (mb_events b)) \<le> mb_capacity b \<Longrightarrow> mb_Put pick ctx b e = (b', er)
    \<Longrightarrow> int (length (mb_events b')) \<le> mb_capacity b'"
  by (auto simp: mb_Put_def Let_def split: if_splits)

lemma bb_get_loop_split:
  "bb_get_loop sched n b acc = Some (b', es, er)
     \<Longrightarrow> \<exists>new. es = acc @ new \<and> mb_events b = new @ mb_events b' \<and> mb_capacity b' = mb_capacity b \<and> mb_closed b' = mb_closed b"
proof (induction sched arbitrary: b acc)
  case Nil
  then show ?case by (auto split: if_splits)
next
  case (Cons s sched)
  show ?case
  proof (cases s)
    case BRecv
    show ?thesis
    proof (cases "mb_events b")
      case (Cons e q)
      show ?thesis
      proof (cases "int (length acc) < n")
        case True
        with Cons.prems BRecv Cons have "bb_get_loop sched n (b\<lparr> mb_events := q \<rparr>) (acc @ [e]) = Some (b', es, er)" by simp
        from Cons.IH [OF this] show ?thesis using Cons by auto
      qed (use Cons.prems in auto)
    next
      case Nil
      then show ?thesis using Cons.prems BRecv Cons.IH [of b acc] by (auto split: if_splits)
    qed
  next
    case BTimeout
    then show ?thesis using Cons.prems Cons.IH [of b acc] by (auto split: if_splits)
  next
    case (BDone e)
    then show ?thesis using Cons.prems by (auto split: if_splits)
  qed
qed

lemma flush_drain_eq: "flush_drain q pending = pending @ q"
  by (induction q arbitrary: pending) simp_all

text \<open>
  The runs of a batch buffer, with the accepted and the delivered events. A \<^verbatim>\<open>Get\<close> that returns an error
  together with events counts as delivering them.
\<close>

inductive bb_run :: "BatchBuffer \<Rightarrow> ChangeEvent list \<Rightarrow> ChangeEvent list \<Rightarrow> BatchBuffer \<Rightarrow> bool" for b0 :: BatchBuffer where
  bb_new: "bb_run b0 [] [] b0"
| bb_put: "bb_run b0 acc del b \<Longrightarrow> bb_Put pick ctx b e = (b', er) \<Longrightarrow> bb_run b0 (acc @ (if er = None then [e] else [])) del b'"
| bb_get: "bb_run b0 acc del b \<Longrightarrow> bb_Get sched b n = Some (b', es, er) \<Longrightarrow> bb_run b0 acc (del @ es) b'"
| bb_flush: "bb_run b0 acc del b \<Longrightarrow> bb_run b0 acc del (bb_Flush b)"
| bb_close: "bb_run b0 acc del b \<Longrightarrow> bb_run b0 acc del (bb_Close b)"

lemma subseq_append_mono: "subseq xs ys \<Longrightarrow> subseq (xs @ zs) (ys @ zs)"
  by simp

text \<open>
  In every run of a batch buffer the accepted events are those delivered, those in the channel and
  those that \<^verbatim>\<open>Flush\<close> has moved to \<^verbatim>\<open>pending\<close>; the delivered ones and then those in the channel are in the
  order of acceptance, and the channel is never over its capacity. Nothing reads \<^verbatim>\<open>pending\<close> again.
\<close>

lemma batch_buffer_account:
  assumes "NewBatchBuffer capacity batchSize timeoutMs = Inr b0" "bb_run b0 acc del b"
  shows "mset acc = mset del + mset (bb_pending b) + mset (mb_events (bb_buffer b))
    \<and> subseq (del @ mb_events (bb_buffer b)) acc \<and> int (length (mb_events (bb_buffer b))) \<le> mb_capacity (bb_buffer b)
    \<and> mb_capacity (bb_buffer b) = capacity"
  using assms(2)
proof (induction rule: bb_run.induct)
  case bb_new
  show ?case using assms(1) by (auto simp: NewBatchBuffer_def NewMemoryBuffer_def split: if_splits)
next
  case (bb_put acc del b pick ctx e b' er)
  then obtain mb where mb: "mb_Put pick ctx (bb_buffer b) e = (mb, er)" "b' = b\<lparr> bb_buffer := mb \<rparr>"
    by (auto simp: bb_Put_def Let_def split: prod.splits)
  from mb_Put_events [OF mb(1)] mb_Put_bound [OF _ mb(1)] bb_put.IH mb(2)
  show ?case using subseq_append_mono [of "del @ mb_events (bb_buffer b)" acc "[e]"] by auto
next
  case (bb_get acc del b sched n b' es er)
  then obtain mb where mb: "bb_get_loop sched (if n \<le> 0 then bb_batchSize b else n) (bb_buffer b) [] = Some (mb, es, er)"
      "b' = b\<lparr> bb_buffer := mb \<rparr>"
    by (auto simp: bb_Get_def Let_def split: option.splits)
  from bb_get_loop_split [OF mb(1)] bb_get.IH mb(2) show ?case by (auto simp: ac_simps)
next
  case (bb_flush acc del b)
  have "subseq del acc" using bb_flush.IH by (auto intro: subseq_order.order_trans [OF list_emb_append2 [OF subseq_order.refl], rotated]
        dest: list_emb_appendD)
  then show ?case using bb_flush.IH by (auto simp: bb_Flush_def flush_drain_eq)
next
  case (bb_close acc del b)
  then show ?case by (simp add: bb_Close_def mb_Close_def)
qed

text \<open>A refused \<^verbatim>\<open>Put\<close> of the persistent buffer may have stored the event all the same.\<close>

lemma pb_Put_full:
  assumes "\<not> pb_closed b" "marshal e = Inr data" "update (pb_db b) (makeKey stamp (pb_seq b + 1) e) data = (db, None)"
    "mb_capacity (pb_mem b) \<le> int (length (mb_events (pb_mem b)))"
  shows "\<exists>b'. pb_Put marshal update stamp pick None b e = (b', Some ErrBufferFull) \<and> pb_db b' = db"
  using assms by (simp add: pb_Put_def mb_Put_def Let_def)

text \<open>Taking events out of a persistent buffer leaves them in the store, so that a replay delivers them again.\<close>

lemma pb_Get_keeps_store: "pb_Get pick ctx b n = Inr (b', es, er) \<Longrightarrow> pb_db b' = pb_db b"
  by (auto simp: pb_Get_def split: sum.splits prod.splits)

lemma replay_items_prefix:
  "replay_items unmarshal pick (\<lambda>_. None) i items mb cnt = (mb', cnt', er) \<Longrightarrow> \<not> mb_closed mb
     \<Longrightarrow> \<exists>k. mb_events mb' = mb_events mb @ take k (List.map_filter (\<lambda>(_, v). case unmarshal v of Inl _ \<Rightarrow> None | Inr e \<Rightarrow> Some e) items)"
proof (induction items arbitrary: i mb cnt)
  case Nil
  then show ?case by simp
next
  case (Cons kv items)
  obtain k v where kv: "kv = (k, v)" by (cases kv)
  let ?f = "List.map_filter (\<lambda>(_, v). case unmarshal v of Inl _ \<Rightarrow> None | Inr e \<Rightarrow> Some e)"
  show ?case
  proof (cases "unmarshal v")
    case (Inl x)
    then show ?thesis using Cons by (simp add: kv map_filter_simps)
  next
    case (Inr e)
    obtain mb1 er1 where p: "mb_Put (pick i) None mb e = (mb1, er1)" by (cases "mb_Put (pick i) None mb e")
    show ?thesis
    proof (cases er1)
      case None
      then have "replay_items unmarshal pick (\<lambda>_. None) (i + 1) items mb1 (cnt + 1) = (mb', cnt', er)"
        using Cons.prems(1) Inr p by (simp add: kv)
      moreover have "\<not> mb_closed mb1" using p Cons.prems(2) by (auto simp: mb_Put_def Let_def split: if_splits)
      ultimately obtain j where j: "mb_events mb' = mb_events mb1 @ take j (?f items)" using Cons.IH by blast
      moreover have "mb_events mb1 = mb_events mb @ [e]" using mb_Put_events [OF p] None by simp
      ultimately have "mb_events mb' = mb_events mb @ take (Suc j) (?f (kv # items))" by (simp add: kv Inr map_filter_simps)
      then show ?thesis by (rule exI)
    next
      case (Some x)
      then have "mb' = mb1" using Cons.prems(1) Inr p by (simp add: kv)
      then have "mb_events mb' = mb_events mb @ take 0 (?f (kv # items))" using mb_Put_events [OF p] Some by simp
      then show ?thesis by (rule exI)
    qed
  qed
qed

section \<open>Backpressure\<close>

text \<open>The controller pauses and resumes exactly at its thresholds.\<close>

lemma check_pauses:
  "bpc_EnableBackpressure (bp_config b) \<Longrightarrow> ShouldPause (check percent b) \<longleftrightarrow>
     (if ShouldPause b then bp_usage percent b > bpc_LowWatermark (bp_config b) \<or> bp_latency b > bpc_MaxLatency (bp_config b)
      else bp_usage percent b \<ge> bpc_HighWatermark (bp_config b) \<or> bp_latency b > bpc_MaxLatency (bp_config b))"
  by (cases "bp_state b") (auto simp: check_def ShouldPause_def notifyPause_def notifyResume_def Let_def)

text \<open>The warning state is left only through a pause.\<close>

lemma warning_stays:
  "bp_state b = BackpressureStateWarning \<Longrightarrow> bp_state (check percent b) \<noteq> BackpressureStateNormal"
  by (auto simp: check_def notifyPause_def Let_def)

text \<open>A resume signal that nobody waited for ends the next wait at once, although reading is paused.\<close>

lemma stale_resume:
  assumes "bp_resumeCh b" "ShouldPause b"
  shows "\<exists>b'. WaitWhilePaused [WResume] b = Some (b', None) \<and> ShouldPause b'"
  using assms by (simp add: ShouldPause_def)

end
