(* ===== verification/Pipelines.thy ===== *)
theory Pipelines
  imports Buffers
begin

unbundle bit_operations_syntax

section \<open>Dispatchers, pipelines and tasks (internal/pipeline)\<close>

text \<open>
  The dispatchers (dispatcher.go), the pipeline and its event loop (pipeline.go), tasks and their
  manager (task.go) and the in-memory coordinator (coordinator.go). A sink is its state with the
  argument \<open>write\<close> for its method \<^verbatim>\<open>Write\<close>. The event loop consumes the list of what its \<^verbatim>\<open>select\<close> takes.
  A method that panics has its panic as the left value of its result.
\<close>

subsection \<open>Hashing (utils/hash.go)\<close>

definition FNV32 :: "string \<Rightarrow> uint32" where
  "FNV32 s = fold (\<lambda>c h. (h XOR of_nat (of_char c)) * 16777619) s 2166136261"

definition FNV64 :: "string \<Rightarrow> uint64" where
  "FNV64 s = fold (\<lambda>c h. (h XOR of_nat (of_char c)) * 1099511628211) s 14695981039346656037"

subsection \<open>Dispatchers (dispatcher.go)\<close>

definition ErrNoSink :: err where "ErrNoSink = ErrCode ''DS:Pipeline:NoSink''"
definition ErrAlreadyRunning :: err where "ErrAlreadyRunning = ErrCode ''DS:Pipeline:AlreadyRunning''"
definition ErrInvalidState :: err where "ErrInvalidState = ErrCode ''DS:Pipeline:InvalidState''"
definition ErrNoSource :: err where "ErrNoSource = ErrCode ''DS:Pipeline:NoSource''"
definition ErrTaskExists :: err where "ErrTaskExists = ErrCode ''DS:Task:Exists''"
definition ErrTaskNotFound :: err where "ErrTaskNotFound = ErrCode ''DS:Task:NotFound''"

datatype Dispatcher = RoundRobinDispatcher uint64 | KeyHashDispatcher string | BroadcastDispatcher

definition NewDispatcher :: "string \<Rightarrow> string \<Rightarrow> Dispatcher" where
  "NewDispatcher typ hashKey =
     (if typ = ''round-robin'' then RoundRobinDispatcher 0
      else if typ = ''hash'' then KeyHashDispatcher hashKey
      else if typ = ''broadcast'' then BroadcastDispatcher
      else RoundRobinDispatcher 0)"

text \<open>The text that the hash dispatcher hashes; a key column that is not a string makes it panic.\<close>

definition dispatch_key :: "string \<Rightarrow> ChangeEvent \<Rightarrow> string res" where
  "dispatch_key hashKey e =
     (let row = (if \<not> IsDataEvent e then None
                 else if \<not> RowData_IsEmpty (Some (ev_After e)) then Some (ev_After e)
                 else if \<not> RowData_IsEmpty (Some (ev_Before e)) then Some (ev_Before e)
                 else None);
          keyVal = (case row of
                      None \<Rightarrow> Inr []
                    | Some r \<Rightarrow>
                        (case RowData_Get (Some r) hashKey of
                           (val, True) \<Rightarrow>
                             (case val of
                                VStr s \<Rightarrow> Inr (nat_decimal (unat (FNV32 s)))
                              | _ \<Rightarrow> Inl (Panic ''interface conversion''))
                         | (_, False) \<Rightarrow> Inr []))
      in case keyVal of
           Inl er \<Rightarrow> Inl er
         | Inr k \<Rightarrow> Inr (if k = [] then ti_Table (ev_Table e) else k))"

fun broadcast ::
  "('k \<Rightarrow> ChangeEvent list \<Rightarrow> 'k \<times> err option) \<Rightarrow> ChangeEvent \<Rightarrow> 'k list \<Rightarrow> err option \<Rightarrow> 'k list \<times> err option" where
  "broadcast write e [] lastErr = ([], lastErr)"
| "broadcast write e (s # sinks) lastErr =
     (let (s, er) = write s [e];
          (sinks, lastErr) = broadcast write e sinks (if er \<noteq> None then er else lastErr)
      in (s # sinks, lastErr))"

definition write_at ::
  "('k \<Rightarrow> ChangeEvent list \<Rightarrow> 'k \<times> err option) \<Rightarrow> ChangeEvent \<Rightarrow> 'k list \<Rightarrow> nat \<Rightarrow> 'k list \<times> err option" where
  "write_at write e sinks idx = (let (s, er) = write (sinks ! idx) [e] in (sinks[idx := s], er))"

definition pl_Dispatch ::
  "('k \<Rightarrow> ChangeEvent list \<Rightarrow> 'k \<times> err option) \<Rightarrow> Dispatcher \<Rightarrow> ChangeEvent \<Rightarrow> 'k list
     \<Rightarrow> (Dispatcher \<times> 'k list \<times> err option) res" where
  "pl_Dispatch write d e sinks =
     (if sinks = [] then Inr (d, sinks, Some ErrNoSink)
      else case d of
        RoundRobinDispatcher counter \<Rightarrow>
          (let idx = unat (counter mod of_nat (length sinks))
           in Inr (RoundRobinDispatcher (counter + 1), write_at write e sinks idx))
      | KeyHashDispatcher hashKey \<Rightarrow>
          (case dispatch_key hashKey e of
             Inl er \<Rightarrow> Inl er
           | Inr keyVal \<Rightarrow>
               if (of_nat (length sinks) :: uint32) = 0 then Inl (Panic ''integer divide by zero'')
               else Inr (d, write_at write e sinks (unat (FNV32 keyVal mod of_nat (length sinks)))))
      | BroadcastDispatcher \<Rightarrow> Inr (d, broadcast write e sinks None))"

subsection \<open>The pipeline (pipeline.go)\<close>

datatype PipelineState =
    StateCreated | StateStarting | StateRunning | StatePausing | StatePaused | StateResuming
  | StateStopping | StateStopped | StateError

record Statistics =
  st_EventsRead :: int
  st_EventsWritten :: int
  st_EventsFailed :: int
  st_LastEventTime :: gotime

text \<open>\<open>pl_stopped\<close> says that \<^verbatim>\<open>stopCh\<close> is closed, \<open>pl_loops\<close> counts the event loops that have been started.\<close>

record 'k Pipeline =
  pl_sinks :: "'k list"
  pl_dispatcher :: "Dispatcher option"
  pl_state :: PipelineState
  pl_message :: string
  pl_startedAt :: gotime
  pl_stoppedAt :: gotime
  pl_stats :: Statistics
  pl_stopped :: bool
  pl_loops :: nat

definition NewPipeline :: "'k Pipeline" where
  "NewPipeline =
     \<lparr> pl_sinks = [], pl_dispatcher = None, pl_state = StateCreated, pl_message = [], pl_startedAt = 0, pl_stoppedAt = 0,
       pl_stats = \<lparr> st_EventsRead = 0, st_EventsWritten = 0, st_EventsFailed = 0, st_LastEventTime = 0 \<rparr>,
       pl_stopped = False, pl_loops = 0 \<rparr>"

definition AddSink :: "'k Pipeline \<Rightarrow> 'k \<Rightarrow> 'k Pipeline" where
  "AddSink p s = p\<lparr> pl_sinks := pl_sinks p @ [s] \<rparr>"

definition SetDispatcher :: "'k Pipeline \<Rightarrow> Dispatcher \<Rightarrow> 'k Pipeline" where
  "SetDispatcher p d = p\<lparr> pl_dispatcher := Some d \<rparr>"

text \<open>\<open>srcErr\<close> is the result of starting the source. Errors of the sinks are only logged.\<close>

definition pl_Start :: "err option \<Rightarrow> gotime \<Rightarrow> 'k Pipeline \<Rightarrow> 'k Pipeline \<times> err option" where
  "pl_Start srcErr now p =
     (if pl_state p = StateRunning then (p, Some ErrAlreadyRunning)
      else
        let p = p\<lparr> pl_state := StateStarting, pl_startedAt := now \<rparr> in
        case srcErr of
          Some e \<Rightarrow> (p\<lparr> pl_state := StateError, pl_message := Error e \<rparr>, Some e)
        | None \<Rightarrow> (p\<lparr> pl_state := StateRunning, pl_loops := pl_loops p + 1 \<rparr>, None))"

definition pl_Stop :: "gotime \<Rightarrow> 'k Pipeline \<Rightarrow> 'k Pipeline" where
  "pl_Stop now p =
     (if pl_state p = StateStopped then p
      else p\<lparr> pl_state := StateStopped, pl_stopped := True, pl_stoppedAt := now \<rparr>)"

definition pl_Pause :: "'k Pipeline \<Rightarrow> 'k Pipeline \<times> err option" where
  "pl_Pause p = (if pl_state p \<noteq> StateRunning then (p, Some ErrInvalidState) else (p\<lparr> pl_state := StatePaused \<rparr>, None))"

definition pl_Resume :: "'k Pipeline \<Rightarrow> 'k Pipeline \<times> err option" where
  "pl_Resume p = (if pl_state p \<noteq> StatePaused then (p, Some ErrInvalidState) else (p\<lparr> pl_state := StateRunning \<rparr>, None))"

definition processEvent ::
  "('k \<Rightarrow> ChangeEvent list \<Rightarrow> 'k \<times> err option) \<Rightarrow> gotime \<Rightarrow> 'k Pipeline \<Rightarrow> ChangeEvent \<Rightarrow> 'k Pipeline res" where
  "processEvent write now p e =
     (let p = p\<lparr> pl_stats := (pl_stats p)\<lparr> st_EventsRead := st_EventsRead (pl_stats p) + 1, st_LastEventTime := now \<rparr> \<rparr>;
          done = (\<lambda>p er. Inr (if er \<noteq> None
                    then p\<lparr> pl_stats := (pl_stats p)\<lparr> st_EventsFailed := st_EventsFailed (pl_stats p) + 1 \<rparr> \<rparr>
                    else p\<lparr> pl_stats := (pl_stats p)\<lparr> st_EventsWritten := st_EventsWritten (pl_stats p) + 1 \<rparr> \<rparr>))
      in if IsHeartbeat e \<and> pl_dispatcher p = None then Inr p
         else case pl_dispatcher p of
           Some d \<Rightarrow>
             (case pl_Dispatch write d e (pl_sinks p) of
                Inl er \<Rightarrow> Inl er
              | Inr (d, sinks, er) \<Rightarrow> done (p\<lparr> pl_dispatcher := Some d, pl_sinks := sinks \<rparr>) er)
         | None \<Rightarrow>
             (let (sinks, er) = broadcast write e (pl_sinks p) None in done (p\<lparr> pl_sinks := sinks \<rparr>) er))"

text \<open>
  What the \<^verbatim>\<open>select\<close> of the event loop takes: the end of the context, the stop signal, an event (with the
  way a pause ends, should the pipeline be paused then), the end of the event channel, or an error of
  the source. The result says whether the loop has returned.
\<close>

datatype pause_end = Resumed | StoppedWhilePaused | DoneWhilePaused

datatype run_in = RunDone | RunStop | RunEvent ChangeEvent gotime pause_end | RunEventsClosed | RunError | RunErrorsClosed

fun pl_run :: "('k \<Rightarrow> ChangeEvent list \<Rightarrow> 'k \<times> err option) \<Rightarrow> run_in list \<Rightarrow> 'k Pipeline \<Rightarrow> ('k Pipeline \<times> bool) res" where
  "pl_run write [] p = Inr (p, False)"
| "pl_run write (RunDone # ins) p = Inr (p, True)"
| "pl_run write (RunStop # ins) p = Inr (p, True)"
| "pl_run write (RunEventsClosed # ins) p = Inr (p, True)"
| "pl_run write (RunErrorsClosed # ins) p = pl_run write ins p"
| "pl_run write (RunError # ins) p =
     pl_run write ins (p\<lparr> pl_stats := (pl_stats p)\<lparr> st_EventsFailed := st_EventsFailed (pl_stats p) + 1 \<rparr> \<rparr>)"
| "pl_run write (RunEvent e now pe # ins) p =
     (if pl_state p = StatePaused \<and> pe \<noteq> Resumed then Inr (p, True)
      else
        let p = (if pl_state p = StatePaused then fst (pl_Resume p) else p) in
        case processEvent write now p e of
          Inl er \<Rightarrow> Inl er
        | Inr p \<Rightarrow> pl_run write ins p)"

subsection \<open>Tasks (task.go)\<close>

datatype TaskStatus =
    TaskStatusCreated | TaskStatusStarting | TaskStatusRunning | TaskStatusPaused
  | TaskStatusStopping | TaskStatusStopped | TaskStatusError

record 'k Task =
  tk_ID :: string
  tk_Name :: string
  tk_Status :: TaskStatus
  tk_Pipeline :: "'k Pipeline option"
  tk_Position :: "Position option"
  tk_CreatedAt :: gotime
  tk_UpdatedAt :: gotime
  tk_StartedAt :: "gotime option"
  tk_StoppedAt :: "gotime option"

definition NewTask :: "string \<Rightarrow> string \<Rightarrow> gotime \<Rightarrow> 'k Task" where
  "NewTask ident name now =
     \<lparr> tk_ID = ident, tk_Name = name, tk_Status = TaskStatusCreated, tk_Pipeline = None, tk_Position = None,
       tk_CreatedAt = now, tk_UpdatedAt = now, tk_StartedAt = None, tk_StoppedAt = None \<rparr>"

definition tk_Start :: "err option \<Rightarrow> gotime \<Rightarrow> 'k Task \<Rightarrow> 'k Task \<times> err option" where
  "tk_Start srcErr now t =
     (if tk_Status t = TaskStatusRunning then (t, Some ErrAlreadyRunning)
      else
        let t = t\<lparr> tk_Status := TaskStatusStarting \<rparr> in
        case tk_Pipeline t of
          None \<Rightarrow> (t\<lparr> tk_Status := TaskStatusError \<rparr>, Some ErrNoSource)
        | Some p \<Rightarrow>
            (case pl_Start srcErr now p of
               (p, Some e) \<Rightarrow> (t\<lparr> tk_Pipeline := Some p, tk_Status := TaskStatusError \<rparr>, Some e)
             | (p, None) \<Rightarrow>
                 (t\<lparr> tk_Pipeline := Some p, tk_Status := TaskStatusRunning, tk_StartedAt := Some now, tk_UpdatedAt := now \<rparr>,
                  None)))"

definition tk_Stop :: "gotime \<Rightarrow> 'k Task \<Rightarrow> 'k Task" where
  "tk_Stop now t =
     (if tk_Status t = TaskStatusStopped then t
      else t\<lparr> tk_Pipeline := map_option (pl_Stop now) (tk_Pipeline t), tk_Status := TaskStatusStopped,
              tk_StoppedAt := Some now, tk_UpdatedAt := now \<rparr>)"

definition tk_Pause :: "gotime \<Rightarrow> 'k Task \<Rightarrow> 'k Task \<times> err option" where
  "tk_Pause now t =
     (if tk_Status t \<noteq> TaskStatusRunning then (t, Some ErrInvalidState)
      else (t\<lparr> tk_Status := TaskStatusPaused, tk_UpdatedAt := now \<rparr>, None))"

definition tk_Resume :: "gotime \<Rightarrow> 'k Task \<Rightarrow> 'k Task \<times> err option" where
  "tk_Resume now t =
     (if tk_Status t \<noteq> TaskStatusPaused then (t, Some ErrInvalidState)
      else (t\<lparr> tk_Status := TaskStatusRunning, tk_UpdatedAt := now \<rparr>, None))"

definition tk_SetPosition :: "gotime \<Rightarrow> 'k Task \<Rightarrow> Position \<Rightarrow> 'k Task" where
  "tk_SetPosition now t pos = t\<lparr> tk_Position := Some (Position_Clone pos), tk_UpdatedAt := now \<rparr>"

definition tk_Update :: "gotime \<Rightarrow> 'k Task \<Rightarrow> string \<Rightarrow> 'k Task" where
  "tk_Update now t name = (if name \<noteq> [] then t\<lparr> tk_Name := name \<rparr> else t)\<lparr> tk_UpdatedAt := now \<rparr>"

text \<open>
  The manager. \<open>save\<close> and \<open>del\<close> are the answers of the coordinator, or none without one.
\<close>

type_synonym 'k TaskManager = "(string, 'k Task) gomap"

definition tm_Create ::
  "err option option \<Rightarrow> gotime \<Rightarrow> 'k TaskManager \<Rightarrow> string \<Rightarrow> string \<Rightarrow> 'k TaskManager \<times> 'k Task res" where
  "tm_Create save now m ident name =
     (case map_of m ident of
        Some _ \<Rightarrow> (m, Inl ErrTaskExists)
      | None \<Rightarrow>
          let task = NewTask ident name now; m = AList.update ident task m in
          case save of
            Some (Some e) \<Rightarrow> (AList.delete ident m, Inl e)
          | _ \<Rightarrow> (m, Inr task))"

definition tm_Get :: "'k TaskManager \<Rightarrow> string \<Rightarrow> 'k Task res" where
  "tm_Get m ident = (case map_of m ident of None \<Rightarrow> Inl ErrTaskNotFound | Some t \<Rightarrow> Inr t)"

text \<open>\<^verbatim>\<open>Delete\<close> also gives the task as it is when the manager forgets it.\<close>

definition tm_Delete ::
  "err option option \<Rightarrow> gotime \<Rightarrow> 'k TaskManager \<Rightarrow> string \<Rightarrow> 'k TaskManager \<times> 'k Task option \<times> err option" where
  "tm_Delete del now m ident =
     (case map_of m ident of
        None \<Rightarrow> (m, None, Some ErrTaskNotFound)
      | Some task \<Rightarrow>
          let task = (if tk_Status task = TaskStatusRunning then tk_Stop now task else task);
              m = AList.update ident task m in
          case del of
            Some (Some e) \<Rightarrow> (m, Some task, Some e)
          | _ \<Rightarrow> (AList.delete ident m, Some task, None))"

definition tm_Start :: "err option \<Rightarrow> gotime \<Rightarrow> 'k TaskManager \<Rightarrow> string \<Rightarrow> 'k TaskManager \<times> err option" where
  "tm_Start srcErr now m ident =
     (case map_of m ident of
        None \<Rightarrow> (m, Some ErrTaskNotFound)
      | Some t \<Rightarrow> let (t, er) = tk_Start srcErr now t in (AList.update ident t m, er))"

definition tm_Stop :: "gotime \<Rightarrow> 'k TaskManager \<Rightarrow> string \<Rightarrow> 'k TaskManager \<times> err option" where
  "tm_Stop now m ident =
     (case map_of m ident of
        None \<Rightarrow> (m, Some ErrTaskNotFound)
      | Some t \<Rightarrow> (AList.update ident (tk_Stop now t) m, None))"

definition tm_StopAll :: "gotime \<Rightarrow> 'k TaskManager \<Rightarrow> 'k TaskManager" where
  "tm_StopAll now m = map (\<lambda>(k, t). (k, if tk_Status t = TaskStatusRunning then tk_Stop now t else t)) m"

subsection \<open>The in-memory coordinator (coordinator.go)\<close>

text \<open>\<open>'t\<close> stands for a reference to a task, \<open>'n\<close> for what is kept about a node beside \<^verbatim>\<open>LastSeen\<close>.\<close>

record ('t, 'n) MemoryCoordinator =
  mc_tasks :: "(string, 't) gomap"
  mc_positions :: "(string, Position) gomap"
  mc_nodes :: "(string, 'n \<times> int) gomap"
  mc_leaders :: "(string, string) gomap"
  mc_thisNode :: string

definition NewMemoryCoordinator :: "string \<Rightarrow> ('t, 'n) MemoryCoordinator" where
  "NewMemoryCoordinator nodeID =
     \<lparr> mc_tasks = [], mc_positions = [], mc_nodes = [], mc_leaders = [], mc_thisNode = nodeID \<rparr>"

definition mc_SaveTask :: "('t, 'n) MemoryCoordinator \<Rightarrow> string \<Rightarrow> 't \<Rightarrow> ('t, 'n) MemoryCoordinator" where
  "mc_SaveTask c ident t = c\<lparr> mc_tasks := AList.update ident t (mc_tasks c) \<rparr>"

definition mc_GetTask :: "('t, 'n) MemoryCoordinator \<Rightarrow> string \<Rightarrow> 't res" where
  "mc_GetTask c ident = (case map_of (mc_tasks c) ident of None \<Rightarrow> Inl ErrTaskNotFound | Some t \<Rightarrow> Inr t)"

definition mc_DeleteTask :: "('t, 'n) MemoryCoordinator \<Rightarrow> string \<Rightarrow> ('t, 'n) MemoryCoordinator" where
  "mc_DeleteTask c ident =
     c\<lparr> mc_tasks := AList.delete ident (mc_tasks c), mc_positions := AList.delete ident (mc_positions c),
        mc_leaders := AList.delete ident (mc_leaders c) \<rparr>"

definition mc_SavePosition :: "('t, 'n) MemoryCoordinator \<Rightarrow> string \<Rightarrow> Position \<Rightarrow> ('t, 'n) MemoryCoordinator" where
  "mc_SavePosition c ident pos = c\<lparr> mc_positions := AList.update ident (Position_Clone pos) (mc_positions c) \<rparr>"

definition mc_GetPosition :: "('t, 'n) MemoryCoordinator \<Rightarrow> string \<Rightarrow> Position option" where
  "mc_GetPosition c ident = map_option Position_Clone (map_of (mc_positions c) ident)"

definition mc_AcquireLeadership :: "('t, 'n) MemoryCoordinator \<Rightarrow> string \<Rightarrow> ('t, 'n) MemoryCoordinator \<times> bool" where
  "mc_AcquireLeadership c ident =
     (case map_of (mc_leaders c) ident of
        Some leader \<Rightarrow> (c, leader = mc_thisNode c)
      | None \<Rightarrow> (c\<lparr> mc_leaders := AList.update ident (mc_thisNode c) (mc_leaders c) \<rparr>, True))"

definition mc_ReleaseLeadership :: "('t, 'n) MemoryCoordinator \<Rightarrow> string \<Rightarrow> ('t, 'n) MemoryCoordinator" where
  "mc_ReleaseLeadership c ident = c\<lparr> mc_leaders := AList.delete ident (mc_leaders c) \<rparr>"

definition mc_IsLeader :: "('t, 'n) MemoryCoordinator \<Rightarrow> string \<Rightarrow> bool" where
  "mc_IsLeader c ident = (map_of (mc_leaders c) ident = Some (mc_thisNode c))"

definition mc_RegisterNode :: "('t, 'n) MemoryCoordinator \<Rightarrow> string \<Rightarrow> 'n \<times> int \<Rightarrow> ('t, 'n) MemoryCoordinator" where
  "mc_RegisterNode c ident info = c\<lparr> mc_nodes := AList.update ident info (mc_nodes c) \<rparr>"

definition mc_UnregisterNode :: "('t, 'n) MemoryCoordinator \<Rightarrow> string \<Rightarrow> ('t, 'n) MemoryCoordinator" where
  "mc_UnregisterNode c ident = c\<lparr> mc_nodes := AList.delete ident (mc_nodes c) \<rparr>"

definition mc_Heartbeat :: "int \<Rightarrow> ('t, 'n) MemoryCoordinator \<Rightarrow> string \<Rightarrow> ('t, 'n) MemoryCoordinator" where
  "mc_Heartbeat nowMs c ident =
     (case map_of (mc_nodes c) ident of
        None \<Rightarrow> c
      | Some (node, _) \<Rightarrow> c\<lparr> mc_nodes := AList.update ident (node, nowMs) (mc_nodes c) \<rparr>)"

section \<open>Where events go\<close>

fun process_all ::
  "('k \<Rightarrow> ChangeEvent list \<Rightarrow> 'k \<times> err option) \<Rightarrow> gotime \<Rightarrow> 'k Pipeline \<Rightarrow> ChangeEvent list \<Rightarrow> 'k Pipeline res" where
  "process_all write now p [] = Inr p"
| "process_all write now p (e # es) =
     (case processEvent write now p e of Inl er \<Rightarrow> Inl er | Inr p \<Rightarrow> process_all write now p es)"

lemma process_all_append:
  "process_all write now p (xs @ ys) = (case process_all write now p xs of Inl er \<Rightarrow> Inl er | Inr p \<Rightarrow> process_all write now p ys)"
  by (induction xs arbitrary: p) (simp_all split: sum.split)

text \<open>The event loop of a running pipeline processes the events it receives.\<close>

lemma processEvent_state: "processEvent write now p e = Inr p' \<Longrightarrow> pl_state p' = pl_state p"
  by (auto simp: processEvent_def Let_def split: if_splits option.splits sum.splits prod.splits)

lemma pl_run_events:
  "pl_state p \<noteq> StatePaused \<Longrightarrow>
     pl_run write (map (\<lambda>e. RunEvent e now pe) es) p
       = (case process_all write now p es of Inl er \<Rightarrow> Inl er | Inr p \<Rightarrow> Inr (p, False))"
proof (induction es arbitrary: p)
  case (Cons e es)
  then show ?case using processEvent_state [of "write" now p e] by (auto split: sum.split)
qed simp

text \<open>A sink that accepts everything, and which of \<open>n\<close> sinks the event number \<open>i\<close> goes to.\<close>

definition accepting :: "ChangeEvent list \<Rightarrow> ChangeEvent list \<Rightarrow> ChangeEvent list \<times> err option" where
  "accepting k es = (k @ es, None)"

fun target :: "Dispatcher option \<Rightarrow> nat \<Rightarrow> nat \<Rightarrow> ChangeEvent \<Rightarrow> nat \<Rightarrow> bool" where
  "target None n i e j = (\<not> IsHeartbeat e)"
| "target (Some BroadcastDispatcher) n i e j = True"
| "target (Some (RoundRobinDispatcher c)) n i e j = (j = unat ((c + of_nat i) mod of_nat n))"
| "target (Some (KeyHashDispatcher k)) n i e j =
     (case dispatch_key k e of Inl _ \<Rightarrow> False | Inr key \<Rightarrow> j = unat (FNV32 key mod of_nat n))"

fun advance :: "Dispatcher option \<Rightarrow> nat \<Rightarrow> Dispatcher option" where
  "advance (Some (RoundRobinDispatcher c)) i = Some (RoundRobinDispatcher (c + of_nat i))"
| "advance d i = d"

definition key_ok :: "Dispatcher option \<Rightarrow> ChangeEvent \<Rightarrow> bool" where
  "key_ok d e = (case d of Some (KeyHashDispatcher k) \<Rightarrow> (\<exists>key. dispatch_key k e = Inr key) | _ \<Rightarrow> True)"

definition delivered :: "Dispatcher option \<Rightarrow> nat \<Rightarrow> ChangeEvent list \<Rightarrow> nat \<Rightarrow> ChangeEvent list" where
  "delivered d n es j = map snd (filter (\<lambda>(i, e). target d n i e j) (enumerate 0 es))"

lemma delivered_snoc: "delivered d n (es @ [e]) j = delivered d n es j @ (if target d n (length es) e j then [e] else [])"
  by (simp add: delivered_def enumerate_append_eq)

lemma broadcast_accepting: "broadcast accepting e sinks er = (map (\<lambda>s. s @ [e]) sinks, er)"
  by (induction sinks arbitrary: er) (simp_all add: accepting_def)

lemma write_at_accepting: "write_at accepting e sinks i = (sinks[i := sinks ! i @ [e]], None)"
  by (simp add: write_at_def accepting_def)

lemma word_mod_nat: "0 < n \<Longrightarrow> n < 2 ^ LENGTH('a) \<Longrightarrow> unat ((w :: 'a :: len word) mod of_nat n) < n"
  by (simp add: unat_mod unat_of_nat take_bit_nat_eq_self)

text \<open>One event: every sink gets it or not, as \<open>target\<close> says.\<close>

lemma processEvent_accepting:
  assumes "pl_dispatcher p = advance d i" "length (pl_sinks p) = n" "0 < n" "n < 2 ^ 32" "key_ok d e"
  shows "\<exists>p'. processEvent accepting now p e = Inr p' \<and> pl_dispatcher p' = advance d (Suc i) \<and> length (pl_sinks p') = n
    \<and> (\<forall>j < n. pl_sinks p' ! j = pl_sinks p ! j @ (if target d n i e j then [e] else []))
    \<and> st_EventsRead (pl_stats p') = st_EventsRead (pl_stats p) + 1
    \<and> st_EventsFailed (pl_stats p') = st_EventsFailed (pl_stats p)
    \<and> st_EventsWritten (pl_stats p') = st_EventsWritten (pl_stats p) + (if d = None \<and> IsHeartbeat e then 0 else 1)"
proof -
  have ne: "pl_sinks p \<noteq> []" using assms(2,3) by auto
  consider "d = None" | "d = Some BroadcastDispatcher" | c where "d = Some (RoundRobinDispatcher c)"
    | k where "d = Some (KeyHashDispatcher k)"
    by (metis Dispatcher.exhaust option.exhaust)
  then show ?thesis
  proof cases
    case 1
    then show ?thesis using assms by (auto simp: processEvent_def Let_def broadcast_accepting)
  next
    case 2
    then show ?thesis using assms ne by (auto simp: processEvent_def Let_def broadcast_accepting pl_Dispatch_def)
  next
    case (3 c)
    have "unat ((c + of_nat i) mod of_nat n) < n" using assms(3,4) by (intro word_mod_nat) auto
    then show ?thesis using assms ne 3
      by (auto simp: processEvent_def Let_def write_at_accepting pl_Dispatch_def nth_list_update algebra_simps)
  next
    case (4 k)
    obtain key where key: "dispatch_key k e = Inr key" using assms(5) 4 by (auto simp: key_ok_def)
    have "unat (FNV32 key mod of_nat n) < n" using assms(3,4) by (intro word_mod_nat) auto
    moreover have "(of_nat n :: uint32) \<noteq> 0" using assms(3,4) by (simp add: unat_of_nat take_bit_nat_eq_self flip: unat_eq_zero)
    ultimately show ?thesis using assms ne 4 key
      by (auto simp: processEvent_def Let_def write_at_accepting pl_Dispatch_def nth_list_update)
  qed
qed

text \<open>
  C19. A pipeline hands every event to the sinks its dispatcher says, in order. With \<open>n\<close> sinks that
  accept everything, after any list of events each sink has received exactly the events meant for it,
  in the order of the source: all of them with the broadcast dispatcher, all but heartbeats without a
  dispatcher, every event number \<open>i\<close> with \<open>(c + i) mod n\<close> its index with the round-robin dispatcher whose
  64-bit counter starts at \<open>c\<close> (and wraps), and those whose key hashes to its index with the hash
  dispatcher. The statistics count the events read and written, and no failure.
\<close>

theorem pipeline_distribution:
  assumes "length (pl_sinks p) = n" "0 < n" "n < 2 ^ 32" "pl_dispatcher p = d" "list_all (key_ok d) es"
  shows "\<exists>p'. process_all accepting now p es = Inr p'
    \<and> (\<forall>j < n. pl_sinks p' ! j = pl_sinks p ! j @ delivered d n es j)
    \<and> st_EventsRead (pl_stats p') = st_EventsRead (pl_stats p) + int (length es)
    \<and> st_EventsFailed (pl_stats p') = st_EventsFailed (pl_stats p)
    \<and> st_EventsWritten (pl_stats p') = st_EventsWritten (pl_stats p)
        + int (length (filter (\<lambda>e. \<not> (d = None \<and> IsHeartbeat e)) es))"
proof -
  have "\<exists>p'. process_all accepting now p es = Inr p' \<and> pl_dispatcher p' = advance d (length es) \<and> length (pl_sinks p') = n
    \<and> (\<forall>j < n. pl_sinks p' ! j = pl_sinks p ! j @ delivered d n es j)
    \<and> st_EventsRead (pl_stats p') = st_EventsRead (pl_stats p) + int (length es)
    \<and> st_EventsFailed (pl_stats p') = st_EventsFailed (pl_stats p)
    \<and> st_EventsWritten (pl_stats p') = st_EventsWritten (pl_stats p)
        + int (length (filter (\<lambda>e. \<not> (d = None \<and> IsHeartbeat e)) es))"
    using assms(5)
  proof (induction es rule: rev_induct)
    case Nil
    have "advance d 0 = d" by (cases "(d, 0 :: nat)" rule: advance.cases) simp_all
    then show ?case using assms by (simp add: delivered_def)
  next
    case (snoc e es)
    then obtain p1 where p1: "process_all accepting now p es = Inr p1" "pl_dispatcher p1 = advance d (length es)"
      "length (pl_sinks p1) = n" "\<forall>j < n. pl_sinks p1 ! j = pl_sinks p ! j @ delivered d n es j"
      "st_EventsRead (pl_stats p1) = st_EventsRead (pl_stats p) + int (length es)"
      "st_EventsFailed (pl_stats p1) = st_EventsFailed (pl_stats p)"
      "st_EventsWritten (pl_stats p1) = st_EventsWritten (pl_stats p)
        + int (length (filter (\<lambda>e. \<not> (d = None \<and> IsHeartbeat e)) es))"
      by auto
    have "key_ok d e" using snoc.prems by simp
    from processEvent_accepting [OF p1(2,3) assms(2,3) this, of now] p1 show ?case
      by (auto simp: process_all_append delivered_snoc)
  qed
  then show ?thesis by blast
qed

definition hb_event :: "string \<Rightarrow> EventType \<Rightarrow> ChangeEvent" where
  "hb_event i t =
     \<lparr> ev_ID = i, ev_Source = SourceInfo_zero, ev_Type = t, ev_Position = Position_zero,
       ev_Table = TableInfo_zero, ev_Before = RowData_zero, ev_After = RowData_zero, ev_Timestamp = 0,
       ev_Transaction = None, ev_Schema = None, ev_Metadata = None \<rparr>"

theorem pipeline_distribution_witness:
  "\<exists>p'. process_all accepting 0 (SetDispatcher (AddSink (AddSink NewPipeline []) []) (RoundRobinDispatcher 0))
      [hb_event ''a'' EventTypeInsert, hb_event ''b'' EventTypeHeartbeat, hb_event ''c'' EventTypeDelete] = Inr p'
    \<and> pl_sinks p' ! 0 = [hb_event ''a'' EventTypeInsert, hb_event ''c'' EventTypeDelete]
    \<and> pl_sinks p' ! 1 = [hb_event ''b'' EventTypeHeartbeat]"
proof -
  let ?p = "SetDispatcher (AddSink (AddSink NewPipeline []) []) (RoundRobinDispatcher 0) :: ChangeEvent list Pipeline"
  let ?es = "[hb_event ''a'' EventTypeInsert, hb_event ''b'' EventTypeHeartbeat, hb_event ''c'' EventTypeDelete]"
  have "length (pl_sinks ?p) = 2" "pl_dispatcher ?p = Some (RoundRobinDispatcher 0)"
    by (simp_all add: SetDispatcher_def AddSink_def NewPipeline_def)
  from pipeline_distribution [OF this(1) _ _ this(2), of ?es 0] obtain p'
    where p': "process_all accepting 0 ?p ?es = Inr p'"
      "\<forall>j < 2. pl_sinks p' ! j = pl_sinks ?p ! j @ delivered (Some (RoundRobinDispatcher 0)) 2 ?es j"
    by (auto simp: key_ok_def)
  have "pl_sinks ?p ! 0 = []" "pl_sinks ?p ! 1 = []" by (simp_all add: SetDispatcher_def AddSink_def NewPipeline_def)
  moreover have "delivered (Some (RoundRobinDispatcher 0)) 2 ?es 0 = [hb_event ''a'' EventTypeInsert, hb_event ''c'' EventTypeDelete]"
    "delivered (Some (RoundRobinDispatcher 0)) 2 ?es 1 = [hb_event ''b'' EventTypeHeartbeat]"
    by (simp_all add: delivered_def)
  ultimately show ?thesis using p' by auto
qed

text \<open>A key column that is not a string makes the hash dispatcher panic.\<close>

lemma hash_dispatch_panics:
  assumes "IsDataEvent e" "\<not> RowData_IsEmpty (Some (ev_After e))" "RowData_Get (Some (ev_After e)) k = (VInt x, True)" "sinks \<noteq> []"
  shows "pl_Dispatch write (KeyHashDispatcher k) e sinks = Inl (Panic ''interface conversion'')"
  using assms by (simp add: pl_Dispatch_def dispatch_key_def)

section \<open>Stopping, pausing and restarting\<close>

text \<open>An event received during a pause is lost when the pipeline is stopped.\<close>

lemma paused_event_lost:
  "pl_state p = StatePaused \<Longrightarrow> pl_run write (RunEvent e now StoppedWhilePaused # ins) p = Inr (p, True)"
  by simp

text \<open>A pipeline that is started again after a stop runs with its stop signal still given.\<close>

lemma restart_keeps_stop:
  "pl_state p \<noteq> StateStopped \<Longrightarrow>
     pl_stopped (fst (pl_Start None now2 (pl_Stop now1 p))) \<and> pl_state (fst (pl_Start None now2 (pl_Stop now1 p))) = StateRunning"
  by (simp add: pl_Start_def pl_Stop_def Let_def)

text \<open>Starting a paused pipeline runs a second event loop.\<close>

lemma start_paused_twice:
  "pl_state p = StateRunning \<Longrightarrow> pl_loops (fst (pl_Start None now (fst (pl_Pause p)))) = pl_loops p + 1"
  by (simp add: pl_Start_def pl_Pause_def Let_def)

text \<open>Pausing a task leaves its pipeline running, and so does deleting a paused task.\<close>

lemma task_pause_pipeline: "tk_Pipeline (fst (tk_Pause now t)) = tk_Pipeline t"
  by (simp add: tk_Pause_def)

lemma delete_paused_task:
  assumes "map_of m ident = Some t" "tk_Status t = TaskStatusPaused"
  shows "\<exists>t'. tm_Delete None now m ident = (AList.delete ident (AList.update ident t m), Some t', None) \<and> tk_Pipeline t' = tk_Pipeline t"
  using assms by (simp add: tm_Delete_def)

text \<open>What the manager and the coordinator hold after an operation.\<close>

lemma tm_Create_Get:
  "map_of m ident = None \<Longrightarrow> save = None \<or> save = Some None
     \<Longrightarrow> tm_Get (fst (tm_Create save now m ident name)) ident' = (if ident' = ident then Inr (NewTask ident name now) else tm_Get m ident')"
  by (auto simp: tm_Create_def tm_Get_def Let_def split: option.split)

lemma tm_Create_fails: "tm_Get (fst (tm_Create (Some (Some e)) now m ident name)) ident' = tm_Get m ident'"
  by (auto simp: tm_Create_def tm_Get_def Let_def split: option.split)

lemma leadership_exclusive:
  assumes "map_of (mc_leaders c) ident = Some other" "other \<noteq> mc_thisNode c"
  shows "\<not> snd (mc_AcquireLeadership c ident) \<and> \<not> mc_IsLeader (fst (mc_AcquireLeadership c ident)) ident"
  using assms by (simp add: mc_AcquireLeadership_def mc_IsLeader_def)

text \<open>Any node may release the leadership of another one.\<close>

lemma release_foreign_leadership: "snd (mc_AcquireLeadership (mc_ReleaseLeadership c ident) ident)"
  by (simp add: mc_AcquireLeadership_def mc_ReleaseLeadership_def)

end
