(* ===== verification/Table_Scope.thy ===== *)
theory Table_Scope
  imports Table_Lifecycle Ddl_Apply Go_Text
begin

section \<open>What is synchronised: scopes, the table manager and discovery (internal/source)\<close>

text \<open>
  The synchronisation scope (sync_scope.go), the manager of the tables of a table-level scope
  (table_manager.go) and the two discoveries that follow DDL events (discovery.go,
  database_discovery.go). Regular expressions are arguments: \<open>compile\<close> gives the error of a pattern
  that does not compile and \<open>matches\<close> is \<^verbatim>\<open>MatchString\<close>; a compiled pattern is named by its text. An
  operation that sends on a channel returns what it has sent.
\<close>

definition ErrInvalidConfig :: err where "ErrInvalidConfig = ErrCode ''DS:Source:InvalidConfig''"
definition ErrInvalidSyncScope :: err where "ErrInvalidSyncScope = ErrCode ''DS:Source:InvalidSyncScope''"
definition ErrTableNotFound :: err where "ErrTableNotFound = ErrCode ''DS:Source:TableNotFound''"
definition ErrTableAlreadyExists :: err where "ErrTableAlreadyExists = ErrCode ''DS:Source:TableAlreadyExists''"
definition source_ErrAlreadyRunning :: err where "source_ErrAlreadyRunning = ErrCode ''DS:Source:AlreadyRunning''"
definition ErrDiscoveryNotSupported :: err where "ErrDiscoveryNotSupported = ErrCode ''DS:Source:DiscoveryNotSupported''"

subsection \<open>Scopes (sync_scope.go)\<close>

datatype SyncLevel = SyncLevelDatabase | SyncLevelTable | SyncLevelOther string

record DatabaseScope =
  ds_Names :: "string list"
  ds_EnableDDL :: bool
  ds_TableFilter :: "string list"
  ds_IgnoreTables :: "string list"
  ds_tableFilterPatterns :: "string list"
  ds_ignoreTablePatterns :: "string list"
  ds_compiled :: bool

record TableScope =
  tsc_Names :: "string list"
  tsc_EnableDDL :: bool

record SyncScope =
  ss_Level :: SyncLevel
  ss_Databases :: DatabaseScope
  ss_Tables :: TableScope

definition IsWildcardDatabase :: "DatabaseScope \<Rightarrow> bool" where
  "IsWildcardDatabase d = (length (ds_Names d) = 1 \<and> ds_Names d ! 0 = ''*'')"

text \<open>A loop of \<^verbatim>\<open>compilePatterns\<close>: what has been compiled before an error stays appended.\<close>

fun compile_loop :: "(string \<Rightarrow> err option) \<Rightarrow> string list \<Rightarrow> string list \<Rightarrow> string list \<times> err option" where
  "compile_loop compile [] acc = (acc, None)"
| "compile_loop compile (p # ps) acc =
     (case compile p of
        Some e \<Rightarrow> (acc, Some e)
      | None \<Rightarrow> compile_loop compile ps (acc @ [p]))"

definition compilePatterns :: "(string \<Rightarrow> err option) \<Rightarrow> DatabaseScope \<Rightarrow> DatabaseScope \<times> err option" where
  "compilePatterns compile d =
     (if ds_compiled d then (d, None)
      else
        let (ps, er) = compile_loop compile (ds_TableFilter d) (ds_tableFilterPatterns d);
            d = d\<lparr> ds_tableFilterPatterns := ps \<rparr> in
        if er \<noteq> None then (d, er)
        else
          let (ps, er) = compile_loop compile (ds_IgnoreTables d) (ds_ignoreTablePatterns d);
              d = d\<lparr> ds_ignoreTablePatterns := ps \<rparr> in
          if er \<noteq> None then (d, er) else (d\<lparr> ds_compiled := True \<rparr>, None))"

definition ds_ShouldSyncDatabase :: "DatabaseScope \<Rightarrow> string \<Rightarrow> bool" where
  "ds_ShouldSyncDatabase d dbName =
     (if IsWildcardDatabase d then True else list_ex (\<lambda>name. name = dbName) (ds_Names d))"

definition ds_ShouldSyncTable ::
  "(string \<Rightarrow> err option) \<Rightarrow> (string \<Rightarrow> string \<Rightarrow> bool) \<Rightarrow> DatabaseScope \<Rightarrow> string \<Rightarrow> string \<Rightarrow> DatabaseScope \<times> bool" where
  "ds_ShouldSyncTable compile matches d dbName tableName =
     (if \<not> ds_ShouldSyncDatabase d dbName then (d, False)
      else
        let (d, er) = (if \<not> ds_compiled d then compilePatterns compile d else (d, None)) in
        if er \<noteq> None then (d, False)
        else
          let fullName = dbName @ ''.'' @ tableName in
          if list_ex (\<lambda>re. matches re fullName) (ds_ignoreTablePatterns d) then (d, False)
          else if length (ds_tableFilterPatterns d) = 0 then (d, True)
          else (d, list_ex (\<lambda>re. matches re fullName) (ds_tableFilterPatterns d)))"

text \<open>\<^verbatim>\<open>ParseTableNames\<close>: pairs of a database and a table; a name without a dot is skipped.\<close>

fun parse_names :: "string list \<Rightarrow> (string \<times> string) list" where
  "parse_names [] = []"
| "parse_names (name # ns) =
     (case SplitN2 CHR ''.'' name of
        [db, t] \<Rightarrow> (db, t) # parse_names ns
      | _ \<Rightarrow> parse_names ns)"

definition ParseTableNames :: "TableScope \<Rightarrow> (string \<times> string) list" where
  "ParseTableNames t = parse_names (tsc_Names t)"

definition ts_ShouldSyncTable :: "TableScope \<Rightarrow> string \<Rightarrow> string \<Rightarrow> bool" where
  "ts_ShouldSyncTable t dbName tableName = list_ex (\<lambda>name. name = dbName @ ''.'' @ tableName) (tsc_Names t)"

definition SyncScope_Clone :: "SyncScope option \<Rightarrow> SyncScope option" where
  "SyncScope_Clone s =
     (case s of
        None \<Rightarrow> None
      | Some s \<Rightarrow> Some
          \<lparr> ss_Level = ss_Level s,
            ss_Databases =
              \<lparr> ds_Names = map id (ds_Names (ss_Databases s)), ds_EnableDDL = ds_EnableDDL (ss_Databases s),
                ds_TableFilter = map id (ds_TableFilter (ss_Databases s)),
                ds_IgnoreTables = map id (ds_IgnoreTables (ss_Databases s)),
                ds_tableFilterPatterns = [], ds_ignoreTablePatterns = [], ds_compiled = False \<rparr>,
            ss_Tables = \<lparr> tsc_Names = map id (tsc_Names (ss_Tables s)), tsc_EnableDDL = tsc_EnableDDL (ss_Tables s) \<rparr> \<rparr>)"

definition DefaultSyncScope :: SyncScope where
  "DefaultSyncScope =
     \<lparr> ss_Level = SyncLevelDatabase,
       ss_Databases =
         \<lparr> ds_Names = [''*''], ds_EnableDDL = True, ds_TableFilter = [], ds_IgnoreTables = [],
           ds_tableFilterPatterns = [], ds_ignoreTablePatterns = [], ds_compiled = False \<rparr>,
       ss_Tables = \<lparr> tsc_Names = [], tsc_EnableDDL = True \<rparr> \<rparr>"

definition SyncScope_Validate :: "(string \<Rightarrow> err option) \<Rightarrow> SyncScope \<Rightarrow> SyncScope \<times> err option" where
  "SyncScope_Validate compile s =
     (case ss_Level s of
        SyncLevelDatabase \<Rightarrow>
          (if length (ds_Names (ss_Databases s)) = 0 then (s, Some ErrInvalidSyncScope)
           else let (d, er) = compilePatterns compile (ss_Databases s) in (s\<lparr> ss_Databases := d \<rparr>, er))
      | SyncLevelTable \<Rightarrow>
          (if length (tsc_Names (ss_Tables s)) = 0 then (s, Some ErrInvalidSyncScope) else (s, None))
      | SyncLevelOther _ \<Rightarrow> (s, Some ErrInvalidSyncScope))"

text \<open>The scope operations of a connector (postgres/connector.go; the other connectors have the same code).\<close>

definition conn_AddTables :: "SyncScope option \<Rightarrow> string list \<Rightarrow> SyncScope option \<times> err option" where
  "conn_AddTables syncScope tables =
     (case syncScope of
        None \<Rightarrow> (None, Some ErrInvalidSyncScope)
      | Some s \<Rightarrow>
          if ss_Level s \<noteq> SyncLevelTable then (Some s, Some ErrInvalidSyncScope)
          else (Some (s\<lparr> ss_Tables := (ss_Tables s)\<lparr> tsc_Names := fold (\<lambda>t names. names @ [t]) tables (tsc_Names (ss_Tables s)) \<rparr> \<rparr>), None))"

definition conn_RemoveTables :: "SyncScope option \<Rightarrow> string list \<Rightarrow> SyncScope option \<times> err option" where
  "conn_RemoveTables syncScope tables =
     (case syncScope of
        None \<Rightarrow> (None, Some ErrInvalidSyncScope)
      | Some s \<Rightarrow>
          if ss_Level s \<noteq> SyncLevelTable then (Some s, Some ErrInvalidSyncScope)
          else (Some (s\<lparr> ss_Tables := (ss_Tables s)\<lparr> tsc_Names := filter (\<lambda>n. n \<notin> set tables) (tsc_Names (ss_Tables s)) \<rparr> \<rparr>), None))"

definition conn_ListTables :: "SyncScope option \<Rightarrow> string list" where
  "conn_ListTables syncScope =
     (case syncScope of
        None \<Rightarrow> []
      | Some s \<Rightarrow> if ss_Level s \<noteq> SyncLevelTable then [] else tsc_Names (ss_Tables s))"

subsection \<open>The table manager (table_manager.go)\<close>

datatype TableOperationType = TableOpAdd | TableOpRemove | TableOpPause | TableOpResume

record TableOperationEvent =
  toe_Operation :: TableOperationType
  toe_TableID :: TableID
  toe_Schema :: "TableInfo option"
  toe_Timestamp :: gotime

datatype TableSyncStatus =
    TableStatusPending | TableStatusSnapshot | TableStatusStreaming | TableStatusPaused | TableStatusError

record TableSyncState =
  tss_TableID :: TableID
  tss_Status :: TableSyncStatus
  tss_Schema :: "TableInfo option"
  tss_AddedAt :: gotime
  tss_SyncStarted :: gotime
  tss_PausedAt :: gotime

text \<open>\<open>tmn_hasCh\<close> says that there is an event channel.\<close>

record TableManager =
  tmn_scope :: "TableScope option"
  tmn_hasCh :: bool
  tmn_syncTables :: "(string, TableSyncState) gomap"

definition source_tableKey :: "string \<Rightarrow> string \<Rightarrow> string" where
  "source_tableKey database table = database @ ''.'' @ table"

definition parseTableName :: "string \<Rightarrow> (string \<times> string) res" where
  "parseTableName name =
     (case SplitN2 CHR ''.'' name of
        [db, t] \<Rightarrow> if db = [] \<or> t = [] then Inl ErrInvalidConfig else Inr (db, t)
      | _ \<Rightarrow> Inl ErrInvalidConfig)"

definition new_sync_state :: "gotime \<Rightarrow> string \<Rightarrow> string \<Rightarrow> TableInfo option \<Rightarrow> TableSyncState" where
  "new_sync_state now database table schema =
     \<lparr> tss_TableID = \<lparr> tid_Database = database, tid_Schema = [], tid_Table = table \<rparr>, tss_Status = TableStatusPending,
       tss_Schema = schema, tss_AddedAt = now, tss_SyncStarted = 0, tss_PausedAt = 0 \<rparr>"

definition NewTableManager :: "gotime \<Rightarrow> TableScope option \<Rightarrow> bool \<Rightarrow> TableManager" where
  "NewTableManager now scope hasCh =
     \<lparr> tmn_scope = scope, tmn_hasCh = hasCh,
       tmn_syncTables =
         (case scope of
            None \<Rightarrow> []
          | Some sc \<Rightarrow> fold (\<lambda>(db, t) m. AList.update (source_tableKey db t) (new_sync_state now db t None) m) (ParseTableNames sc) []) \<rparr>"

text \<open>
  Sending the collected events: the channel takes \<open>n\<close> of them before the context ends with the
  error \<open>e\<close>.
\<close>

definition send_events :: "nat \<Rightarrow> err \<Rightarrow> 'e list \<Rightarrow> 'e list \<times> err option" where
  "send_events n e evs = (take n evs, if n < length evs then Some e else None)"

text \<open>
  The loop of \<^verbatim>\<open>AddTables\<close>: every name comes with the time the loop reaches it, \<open>fetch\<close> is the schema
  fetcher, if there is one. On an error the collected events are given up.
\<close>

fun add_loop ::
  "(string \<Rightarrow> string \<Rightarrow> TableInfo option res) option \<Rightarrow> (string \<times> gotime) list \<Rightarrow> TableManager \<Rightarrow> TableOperationEvent list
     \<Rightarrow> TableManager \<times> TableOperationEvent list res" where
  "add_loop fetch [] tm events = (tm, Inr events)"
| "add_loop fetch ((name, now) # tables) tm events =
     (case parseTableName name of
        Inl e \<Rightarrow> (tm, Inl e)
      | Inr (database, table) \<Rightarrow>
          let key = source_tableKey database table in
          if map_of (tmn_syncTables tm) key \<noteq> None then (tm, Inl ErrTableAlreadyExists)
          else case (case fetch of None \<Rightarrow> Inr None | Some f \<Rightarrow> f database table) of
            Inl e \<Rightarrow> (tm, Inl e)
          | Inr schema \<Rightarrow>
              let st = new_sync_state now database table schema;
                  tm = tm\<lparr> tmn_syncTables := AList.update key st (tmn_syncTables tm) \<rparr>;
                  tm = (case tmn_scope tm of
                          None \<Rightarrow> tm
                        | Some sc \<Rightarrow> tm\<lparr> tmn_scope := Some (sc\<lparr> tsc_Names := tsc_Names sc @ [name] \<rparr>) \<rparr>);
                  events = (if tmn_hasCh tm
                            then events @ [\<lparr> toe_Operation = TableOpAdd, toe_TableID = tss_TableID st, toe_Schema = schema,
                                             toe_Timestamp = now \<rparr>]
                            else events)
              in add_loop fetch tables tm events)"

definition tmn_AddTables ::
  "nat \<Rightarrow> err \<Rightarrow> (string \<Rightarrow> string \<Rightarrow> TableInfo option res) option \<Rightarrow> TableManager \<Rightarrow> (string \<times> gotime) list
     \<Rightarrow> TableManager \<times> TableOperationEvent list \<times> err option" where
  "tmn_AddTables n ctxErr fetch tm tables =
     (case add_loop fetch tables tm [] of
        (tm, Inl e) \<Rightarrow> (tm, [], Some e)
      | (tm, Inr events) \<Rightarrow> (tm, send_events n ctxErr events))"

fun remove_loop ::
  "(string \<times> gotime) list \<Rightarrow> TableManager \<Rightarrow> TableOperationEvent list \<Rightarrow> TableManager \<times> TableOperationEvent list res" where
  "remove_loop [] tm events = (tm, Inr events)"
| "remove_loop ((name, now) # tables) tm events =
     (case parseTableName name of
        Inl e \<Rightarrow> (tm, Inl e)
      | Inr (database, table) \<Rightarrow>
          let key = source_tableKey database table in
          case map_of (tmn_syncTables tm) key of
            None \<Rightarrow> (tm, Inl ErrTableNotFound)
          | Some state \<Rightarrow>
              let tm = tm\<lparr> tmn_syncTables := AList.delete key (tmn_syncTables tm) \<rparr>;
                  tm = (case tmn_scope tm of
                          None \<Rightarrow> tm
                        | Some sc \<Rightarrow> tm\<lparr> tmn_scope := Some (sc\<lparr> tsc_Names := filter (\<lambda>n. n \<noteq> name) (tsc_Names sc) \<rparr>) \<rparr>);
                  events = (if tmn_hasCh tm
                            then events @ [\<lparr> toe_Operation = TableOpRemove, toe_TableID = tss_TableID state,
                                             toe_Schema = tss_Schema state, toe_Timestamp = now \<rparr>]
                            else events)
              in remove_loop tables tm events)"

definition tmn_RemoveTables ::
  "nat \<Rightarrow> err \<Rightarrow> TableManager \<Rightarrow> (string \<times> gotime) list \<Rightarrow> TableManager \<times> TableOperationEvent list \<times> err option" where
  "tmn_RemoveTables n ctxErr tm tables =
     (case remove_loop tables tm [] of
        (tm, Inl e) \<Rightarrow> (tm, [], Some e)
      | (tm, Inr events) \<Rightarrow> (tm, send_events n ctxErr events))"

definition HasTable :: "TableManager \<Rightarrow> string \<Rightarrow> string \<Rightarrow> bool" where
  "HasTable tm database table = (map_of (tmn_syncTables tm) (source_tableKey database table) \<noteq> None)"

definition tmn_ListTables :: "TableManager \<Rightarrow> string list" where
  "tmn_ListTables tm = map fst (tmn_syncTables tm)"

definition GetTableState :: "TableManager \<Rightarrow> string \<Rightarrow> string \<Rightarrow> TableSyncState res" where
  "GetTableState tm database table =
     (case map_of (tmn_syncTables tm) (source_tableKey database table) of None \<Rightarrow> Inl ErrTableNotFound | Some st \<Rightarrow> Inr st)"

definition UpdateTableStatus ::
  "gotime \<Rightarrow> TableManager \<Rightarrow> string \<Rightarrow> string \<Rightarrow> TableSyncStatus \<Rightarrow> TableManager \<times> err option" where
  "UpdateTableStatus now tm database table status =
     (let key = source_tableKey database table in
      case map_of (tmn_syncTables tm) key of
        None \<Rightarrow> (tm, Some ErrTableNotFound)
      | Some st \<Rightarrow>
          let st = st\<lparr> tss_Status := status \<rparr>;
              st = (if status = TableStatusStreaming \<and> tss_SyncStarted st = 0 then st\<lparr> tss_SyncStarted := now \<rparr> else st)
          in (tm\<lparr> tmn_syncTables := AList.update key st (tmn_syncTables tm) \<rparr>, None))"

definition tmn_PauseTable ::
  "nat \<Rightarrow> err \<Rightarrow> gotime \<Rightarrow> TableManager \<Rightarrow> string \<Rightarrow> string \<Rightarrow> TableManager \<times> TableOperationEvent list \<times> err option" where
  "tmn_PauseTable n ctxErr now tm database table =
     (let key = source_tableKey database table in
      case map_of (tmn_syncTables tm) key of
        None \<Rightarrow> (tm, [], Some ErrTableNotFound)
      | Some st \<Rightarrow>
          (tm\<lparr> tmn_syncTables := AList.update key (st\<lparr> tss_Status := TableStatusPaused, tss_PausedAt := now \<rparr>) (tmn_syncTables tm) \<rparr>,
           send_events n ctxErr
             (if tmn_hasCh tm
              then [\<lparr> toe_Operation = TableOpPause,
                      toe_TableID = \<lparr> tid_Database = database, tid_Schema = [], tid_Table = table \<rparr>,
                      toe_Schema = None, toe_Timestamp = now \<rparr>]
              else [])))"

definition tmn_ResumeTable ::
  "nat \<Rightarrow> err \<Rightarrow> gotime \<Rightarrow> TableManager \<Rightarrow> string \<Rightarrow> string \<Rightarrow> TableManager \<times> TableOperationEvent list \<times> err option" where
  "tmn_ResumeTable n ctxErr now tm database table =
     (let key = source_tableKey database table in
      case map_of (tmn_syncTables tm) key of
        None \<Rightarrow> (tm, [], Some ErrTableNotFound)
      | Some st \<Rightarrow>
          (tm\<lparr> tmn_syncTables := AList.update key (st\<lparr> tss_Status := TableStatusPending, tss_PausedAt := 0 \<rparr>) (tmn_syncTables tm) \<rparr>,
           send_events n ctxErr
             (if tmn_hasCh tm
              then [\<lparr> toe_Operation = TableOpResume,
                      toe_TableID = \<lparr> tid_Database = database, tid_Schema = [], tid_Table = table \<rparr>,
                      toe_Schema = None, toe_Timestamp = now \<rparr>]
              else [])))"

subsection \<open>Discovery from DDL events (discovery.go)\<close>

datatype DiscoveryType =
    DiscoveryTypeDatabaseCreated | DiscoveryTypeDatabaseDropped
  | DiscoveryTypeTableCreated | DiscoveryTypeTableDropped | DiscoveryTypeTableAltered

record DiscoveryEvent =
  dve_Type :: DiscoveryType
  dve_Database :: string
  dve_Table :: string
  dve_Timestamp :: gotime

definition mk_discovery :: "DiscoveryType \<Rightarrow> string \<Rightarrow> string \<Rightarrow> gotime \<Rightarrow> DiscoveryEvent" where
  "mk_discovery typ db t now = \<lparr> dve_Type = typ, dve_Database = db, dve_Table = t, dve_Timestamp = now \<rparr>"

record source_DDLEvent =
  sde_Database :: string
  sde_Table :: string
  sde_Type :: PDDLType

text \<open>The state; a set of names is a map to \<^typ>\<open>unit\<close>.\<close>

record DDLDiscovery =
  dd_Scope :: DatabaseScope
  dd_hasCh :: bool
  dd_knownDBs :: "(string, unit) gomap"
  dd_knownTables :: "(string, unit) gomap"

definition NewDDLDiscovery :: "DatabaseScope \<Rightarrow> bool \<Rightarrow> (string, unit) gomap \<Rightarrow> (string, unit) gomap \<Rightarrow> DDLDiscovery" where
  "NewDDLDiscovery scope hasCh InitialDBs InitialTables =
     \<lparr> dd_Scope = scope, dd_hasCh = hasCh,
       dd_knownDBs = fold (\<lambda>(db, u) m. AList.update db u m) InitialDBs [],
       dd_knownTables = fold (\<lambda>(t, u) m. AList.update t u m) InitialTables [] \<rparr>"

text \<open>
  \<^verbatim>\<open>emit\<close> does not block: \<open>room\<close> says whether the channel takes the event. The result has the event
  that was sent, if any.
\<close>

definition dd_emit :: "bool \<Rightarrow> DDLDiscovery \<Rightarrow> DiscoveryEvent \<Rightarrow> DiscoveryEvent option" where
  "dd_emit room d ev = (if \<not> dd_hasCh d then None else if room then Some ev else None)"

definition dd_handleDDL :: "bool \<Rightarrow> gotime \<Rightarrow> DDLDiscovery \<Rightarrow> source_DDLEvent \<Rightarrow> DDLDiscovery \<times> DiscoveryEvent option" where
  "dd_handleDDL room now d event =
     (let scope = dd_Scope d; db = sde_Database event; t = sde_Table event; key = db @ ''.'' @ t in
      case sde_Type event of
        DDLTypeCreateDatabase \<Rightarrow>
          (if \<not> IsWildcardDatabase scope then (d, None)
           else if map_of (dd_knownDBs d) db = None
           then (d\<lparr> dd_knownDBs := AList.update db () (dd_knownDBs d) \<rparr>,
                 dd_emit room d (mk_discovery DiscoveryTypeDatabaseCreated db [] now))
           else (d, None))
      | DDLTypeDropDatabase \<Rightarrow>
          (if map_of (dd_knownDBs d) db \<noteq> None
           then (d\<lparr> dd_knownDBs := AList.delete db (dd_knownDBs d) \<rparr>,
                 dd_emit room d (mk_discovery DiscoveryTypeDatabaseDropped db [] now))
           else (d, None))
      | DDLTypeCreateTable \<Rightarrow>
          (if \<not> ds_ShouldSyncDatabase scope db then (d, None)
           else if map_of (dd_knownTables d) key = None
           then (d\<lparr> dd_knownTables := AList.update key () (dd_knownTables d) \<rparr>,
                 dd_emit room d (mk_discovery DiscoveryTypeTableCreated db t now))
           else (d, None))
      | DDLTypeDropTable \<Rightarrow>
          (if \<not> ds_ShouldSyncDatabase scope db then (d, None)
           else if map_of (dd_knownTables d) key \<noteq> None
           then (d\<lparr> dd_knownTables := AList.delete key (dd_knownTables d) \<rparr>,
                 dd_emit room d (mk_discovery DiscoveryTypeTableDropped db t now))
           else (d, None))
      | DDLTypeAlterTable \<Rightarrow>
          (if \<not> ds_ShouldSyncDatabase scope db then (d, None)
           else (d, dd_emit room d (mk_discovery DiscoveryTypeTableAltered db t now)))
      | _ \<Rightarrow> (d, None))"

definition IsDatabaseKnown :: "DDLDiscovery \<Rightarrow> string \<Rightarrow> bool" where
  "IsDatabaseKnown d db = (map_of (dd_knownDBs d) db \<noteq> None)"

definition IsTableKnown :: "DDLDiscovery \<Rightarrow> string \<Rightarrow> string \<Rightarrow> bool" where
  "IsTableKnown d db t = (map_of (dd_knownTables d) (db @ ''.'' @ t) \<noteq> None)"

subsection \<open>Discovery with a connector (database_discovery.go)\<close>

text \<open>
  \<open>ddv_running\<close> says that \<^verbatim>\<open>cancel\<close> and \<^verbatim>\<open>ctx\<close> are set. The connector is its state \<open>'c\<close>, if there is one,
  with the argument \<open>add\<close> for its method \<^verbatim>\<open>AddTables\<close>.
\<close>

record DatabaseDiscovery =
  ddv_scope :: SyncScope
  ddv_knownDBs :: "(string, unit) gomap"
  ddv_knownTables :: "(string, unit) gomap"
  ddv_eventChClosed :: bool
  ddv_running :: bool

definition NewDatabaseDiscovery :: "SyncScope \<Rightarrow> DatabaseDiscovery" where
  "NewDatabaseDiscovery scope =
     \<lparr> ddv_scope = scope, ddv_knownDBs = [], ddv_knownTables = [], ddv_eventChClosed = False, ddv_running = False \<rparr>"

definition ddv_IsWildcardMode :: "DatabaseDiscovery \<Rightarrow> bool" where
  "ddv_IsWildcardMode d = IsWildcardDatabase (ss_Databases (ddv_scope d))"

definition ddv_Start :: "DatabaseDiscovery \<Rightarrow> DatabaseDiscovery \<times> err option" where
  "ddv_Start d = (if ddv_running d then (d, Some source_ErrAlreadyRunning) else (d\<lparr> ddv_running := True \<rparr>, None))"

text \<open>Closing a closed channel panics.\<close>

definition ddv_Stop :: "DatabaseDiscovery \<Rightarrow> DatabaseDiscovery res" where
  "ddv_Stop d =
     (if \<not> ddv_running d then Inr d
      else if ddv_eventChClosed d then Inl (Panic ''close of closed channel'')
      else Inr (d\<lparr> ddv_running := False, ddv_eventChClosed := True \<rparr>))"

definition resolveDDLType :: "ChangeEvent \<Rightarrow> string res" where
  "resolveDDLType e =
     (case ev_Metadata e of
        None \<Rightarrow> Inl ErrDiscoveryNotSupported
      | Some m \<Rightarrow> (case map_of m ''ddl_type'' of Some rawType \<Rightarrow> Inr rawType | None \<Rightarrow> Inl ErrDiscoveryNotSupported))"

definition ddv_emit :: "bool \<Rightarrow> DatabaseDiscovery \<Rightarrow> DiscoveryEvent \<Rightarrow> DiscoveryEvent option" where
  "ddv_emit room d ev = (if ddv_eventChClosed d then None else if room then Some ev else None)"

definition OnDDLEvent ::
  "(string \<Rightarrow> err option) \<Rightarrow> (string \<Rightarrow> string \<Rightarrow> bool) \<Rightarrow> ('c \<Rightarrow> string list \<Rightarrow> 'c \<times> err option) \<Rightarrow> bool \<Rightarrow> gotime
     \<Rightarrow> DatabaseDiscovery \<Rightarrow> 'c option \<Rightarrow> ChangeEvent option \<Rightarrow> DatabaseDiscovery \<times> 'c option \<times> DiscoveryEvent option" where
  "OnDDLEvent compile matches add room now d conn ddlEvent =
     (case ddlEvent of
        None \<Rightarrow> (d, conn, None)
      | Some e \<Rightarrow>
        if \<not> IsDDL e then (d, conn, None)
        else
          let db = ti_Database (ev_Table e); t = ti_Table (ev_Table e); key = db @ ''.'' @ t;
              scope = ss_Databases (ddv_scope d) in
          case resolveDDLType e of
            Inl _ \<Rightarrow> (d, conn, None)
          | Inr ddlType \<Rightarrow>
              if ddlType = PDDLType_text DDLTypeCreateDatabase then
                (if \<not> IsWildcardDatabase scope then (d, conn, None)
                 else if map_of (ddv_knownDBs d) db = None
                 then (d\<lparr> ddv_knownDBs := AList.update db () (ddv_knownDBs d) \<rparr>, conn,
                       ddv_emit room d (mk_discovery DiscoveryTypeDatabaseCreated db [] now))
                 else (d, conn, None))
              else if ddlType = PDDLType_text DDLTypeDropDatabase then
                (if map_of (ddv_knownDBs d) db \<noteq> None
                 then (d\<lparr> ddv_knownDBs := AList.delete db (ddv_knownDBs d),
                          ddv_knownTables := filter (\<lambda>(key, _). \<not> HasPrefix key (db @ ''.'')) (ddv_knownTables d) \<rparr>, conn,
                       ddv_emit room d (mk_discovery DiscoveryTypeDatabaseDropped db [] now))
                 else (d, conn, None))
              else if ddlType = PDDLType_text DDLTypeCreateTable then
                (if \<not> ds_ShouldSyncDatabase scope db then (d, conn, None)
                 else if map_of (ddv_knownTables d) key = None
                 then
                   let out = ddv_emit room d (mk_discovery DiscoveryTypeTableCreated db t now);
                       d = d\<lparr> ddv_knownTables := AList.update key () (ddv_knownTables d) \<rparr>;
                       (scope, sync) = (if ddv_IsWildcardMode d then ds_ShouldSyncTable compile matches scope db t else (scope, False));
                       d = d\<lparr> ddv_scope := (ddv_scope d)\<lparr> ss_Databases := scope \<rparr> \<rparr>
                   in if sync \<and> ddv_running d
                      then (case conn of
                              None \<Rightarrow> (d, None, out)
                            | Some c \<Rightarrow> (d, Some (fst (add c [key])), out))
                      else (d, conn, out)
                 else (d, conn, None))
              else if ddlType = PDDLType_text DDLTypeDropTable then
                (if \<not> ds_ShouldSyncDatabase scope db then (d, conn, None)
                 else if map_of (ddv_knownTables d) key \<noteq> None
                 then (d\<lparr> ddv_knownTables := AList.delete key (ddv_knownTables d) \<rparr>, conn,
                       ddv_emit room d (mk_discovery DiscoveryTypeTableDropped db t now))
                 else (d, conn, None))
              else if ddlType = PDDLType_text DDLTypeAlterTable then
                (if \<not> ds_ShouldSyncDatabase scope db then (d, conn, None)
                 else (d, conn, ddv_emit room d (mk_discovery DiscoveryTypeTableAltered db t now)))
              else (d, conn, None))"

text \<open>The known names are listed in order.\<close>

definition KnownDatabases :: "DatabaseDiscovery \<Rightarrow> string list" where
  "KnownDatabases d = sort (map fst (ddv_knownDBs d))"

definition KnownTables :: "DatabaseDiscovery \<Rightarrow> string list" where
  "KnownTables d = sort (map fst (ddv_knownTables d))"

section \<open>Scopes\<close>

lemma compile_loop_spec:
  "compile_loop compile ps acc =
     (if list_all (\<lambda>p. compile p = None) ps then (acc @ ps, None)
      else (acc @ takeWhile (\<lambda>p. compile p = None) ps, compile (hd (dropWhile (\<lambda>p. compile p = None) ps))))"
  by (induction ps arbitrary: acc) (auto split: option.split)

lemma compile_loop_error: "snd (compile_loop compile ps acc) = None \<longleftrightarrow> list_all (\<lambda>p. compile p = None) ps"
proof (induction ps arbitrary: acc)
  case (Cons p ps)
  then show ?case by (cases "compile p") simp_all
qed simp

text \<open>The scope's own lists of compiled patterns are what is configured, once they are compiled.\<close>

definition ds_ok :: "(string \<Rightarrow> err option) \<Rightarrow> DatabaseScope \<Rightarrow> bool" where
  "ds_ok compile d =
     (if ds_compiled d
      then ds_tableFilterPatterns d = ds_TableFilter d \<and> ds_ignoreTablePatterns d = ds_IgnoreTables d
        \<and> list_all (\<lambda>p. compile p = None) (ds_TableFilter d @ ds_IgnoreTables d)
      else list_all (\<lambda>p. compile p = None) (ds_TableFilter d @ ds_IgnoreTables d)
        \<longrightarrow> ds_tableFilterPatterns d = [] \<and> ds_ignoreTablePatterns d = [])"

definition ds_same :: "DatabaseScope \<Rightarrow> DatabaseScope \<Rightarrow> bool" where
  "ds_same d d' = (ds_Names d' = ds_Names d \<and> ds_TableFilter d' = ds_TableFilter d \<and> ds_IgnoreTables d' = ds_IgnoreTables d
     \<and> ds_EnableDDL d' = ds_EnableDDL d)"

lemma compilePatterns_compiled: "ds_compiled d \<Longrightarrow> compilePatterns compile d = (d, None)"
  by (simp add: compilePatterns_def)

lemma compilePatterns_spec:
  assumes "ds_ok compile d"
  shows "ds_ok compile (fst (compilePatterns compile d)) \<and> ds_same d (fst (compilePatterns compile d))
    \<and> (snd (compilePatterns compile d) = None \<longleftrightarrow> list_all (\<lambda>p. compile p = None) (ds_TableFilter d @ ds_IgnoreTables d))
    \<and> (snd (compilePatterns compile d) = None \<longrightarrow> ds_compiled (fst (compilePatterns compile d)))"
proof (cases "ds_compiled d")
  case True
  then show ?thesis using assms by (auto simp: compilePatterns_def ds_ok_def ds_same_def)
next
  case False
  let ?F = "compile_loop compile (ds_TableFilter d) (ds_tableFilterPatterns d)"
  let ?I = "compile_loop compile (ds_IgnoreTables d) (ds_ignoreTablePatterns d)"
  show ?thesis
  proof (cases "list_all (\<lambda>p. compile p = None) (ds_TableFilter d @ ds_IgnoreTables d)")
    case True
    then have "?F = (ds_TableFilter d, None)" "?I = (ds_IgnoreTables d, None)"
      using assms False by (simp_all add: compile_loop_spec ds_ok_def)
    with True False show ?thesis by (simp add: compilePatterns_def ds_ok_def ds_same_def)
  next
    case bad: False
    then have "snd ?F \<noteq> None \<or> snd ?F = None \<and> snd ?I \<noteq> None" by (auto simp: compile_loop_error)
    then show ?thesis using False bad
      by (auto simp: compilePatterns_def ds_ok_def ds_same_def Let_def split: prod.splits)
  qed
qed

text \<open>
  What a database scope admits is a function of its configuration alone: of the names, and of the
  patterns, all of which must compile. Asking changes nothing of that.
\<close>

definition scope_admits :: "(string \<Rightarrow> err option) \<Rightarrow> (string \<Rightarrow> string \<Rightarrow> bool) \<Rightarrow> DatabaseScope \<Rightarrow> string \<Rightarrow> string \<Rightarrow> bool" where
  "scope_admits compile matches d db t =
     (ds_ShouldSyncDatabase d db \<and> list_all (\<lambda>p. compile p = None) (ds_TableFilter d @ ds_IgnoreTables d)
      \<and> \<not> list_ex (\<lambda>p. matches p (db @ ''.'' @ t)) (ds_IgnoreTables d)
      \<and> (ds_TableFilter d = [] \<or> list_ex (\<lambda>p. matches p (db @ ''.'' @ t)) (ds_TableFilter d)))"

lemma ds_ShouldSyncTable_spec:
  assumes "ds_ok compile d"
  shows "snd (ds_ShouldSyncTable compile matches d db t) = scope_admits compile matches d db t
    \<and> ds_ok compile (fst (ds_ShouldSyncTable compile matches d db t)) \<and> ds_same d (fst (ds_ShouldSyncTable compile matches d db t))"
proof (cases "ds_ShouldSyncDatabase d db")
  case False
  then show ?thesis using assms by (simp add: ds_ShouldSyncTable_def scope_admits_def ds_same_def)
next
  case True
  obtain d' er where c: "compilePatterns compile d = (d', er)" by fastforce
  from compilePatterns_spec [OF assms] c
  have d': "ds_ok compile d'" "ds_same d d'" "er = None \<longleftrightarrow> list_all (\<lambda>p. compile p = None) (ds_TableFilter d @ ds_IgnoreTables d)"
    "er = None \<longrightarrow> ds_compiled d'" by simp_all
  have step: "(if \<not> ds_compiled d then compilePatterns compile d else (d, None)) = (d', er)"
    using c compilePatterns_compiled [of d compile] by auto
  show ?thesis
  proof (cases "er = None")
    case False
    then show ?thesis using True step d' by (auto simp: ds_ShouldSyncTable_def scope_admits_def)
  next
    case ok: True
    then have "ds_tableFilterPatterns d' = ds_TableFilter d" "ds_ignoreTablePatterns d' = ds_IgnoreTables d"
      using d' by (auto simp: ds_ok_def ds_same_def)
    then show ?thesis using True step d' ok by (auto simp: ds_ShouldSyncTable_def scope_admits_def Let_def)
  qed
qed

lemma scope_admits_same: "ds_same d d' \<Longrightarrow> scope_admits compile matches d' db t = scope_admits compile matches d db t"
  by (simp add: ds_same_def scope_admits_def ds_ShouldSyncDatabase_def IsWildcardDatabase_def)

text \<open>A copy of a scope admits the same tables.\<close>

lemma Clone_admits:
  assumes "SyncScope_Clone (Some s) = Some s'"
  shows "scope_admits compile matches (ss_Databases s') db t = scope_admits compile matches (ss_Databases s) db t"
    "ts_ShouldSyncTable (ss_Tables s') db t = ts_ShouldSyncTable (ss_Tables s) db t" "ds_ok compile (ss_Databases s')"
  using assms by (auto simp: SyncScope_Clone_def scope_admits_def ds_ShouldSyncDatabase_def IsWildcardDatabase_def
      ts_ShouldSyncTable_def ds_ok_def)

text \<open>A valid database-level scope has patterns that compile.\<close>

lemma Validate_compiles:
  assumes "ds_ok compile (ss_Databases s)" "ss_Level s = SyncLevelDatabase" "snd (SyncScope_Validate compile s) = None"
  shows "list_all (\<lambda>p. compile p = None) (ds_TableFilter (ss_Databases s) @ ds_IgnoreTables (ss_Databases s)) \<and> ds_Names (ss_Databases s) \<noteq> []"
  using assms compilePatterns_spec [OF assms(1)] by (auto simp: SyncScope_Validate_def split: if_splits prod.splits)

lemma DefaultSyncScope_admits: "scope_admits compile matches (ss_Databases DefaultSyncScope) db t"
  by (simp add: scope_admits_def DefaultSyncScope_def ds_ShouldSyncDatabase_def IsWildcardDatabase_def)

section \<open>The table manager agrees with its scope\<close>

lemma SplitN2_two: "SplitN2 c s = [a, b] \<longleftrightarrow> s = a @ c # b \<and> c \<notin> set a"
proof
  assume *: "SplitN2 c s = [a, b]"
  then have "c \<in> set s" using SplitN2_none [of c s] by auto
  then obtain x y where "s = x @ c # y" "c \<notin> set x" by (meson split_list_first)
  with * show "s = a @ c # b \<and> c \<notin> set a" by (simp add: SplitN2_some)
next
  assume "s = a @ c # b \<and> c \<notin> set a"
  then show "SplitN2 c s = [a, b]" by (simp add: SplitN2_some)
qed

lemma parseTableName_ok:
  "parseTableName name = Inr (db, t) \<longleftrightarrow> name = source_tableKey db t \<and> CHR ''.'' \<notin> set db \<and> db \<noteq> [] \<and> t \<noteq> []"
proof -
  have "parseTableName name = Inr (db, t) \<longleftrightarrow> SplitN2 CHR ''.'' name = [db, t] \<and> db \<noteq> [] \<and> t \<noteq> []"
    by (auto simp: parseTableName_def split: list.splits)
  then show ?thesis by (auto simp: SplitN2_two source_tableKey_def)
qed

lemma parse_names_set:
  "(db, t) \<in> set (parse_names ns) \<longleftrightarrow> source_tableKey db t \<in> set ns \<and> CHR ''.'' \<notin> set db"
proof (induction ns)
  case (Cons n ns)
  have "(db, t) \<in> set (parse_names (n # ns)) \<longleftrightarrow> SplitN2 CHR ''.'' n = [db, t] \<or> (db, t) \<in> set (parse_names ns)"
    by (auto split: list.splits)
  then show ?case using Cons by (auto simp: SplitN2_two source_tableKey_def)
qed simp

text \<open>A name with a dot has one way to be split at its first dot.\<close>

lemma source_tableKey_split: "\<exists>db' t'. source_tableKey db t = source_tableKey db' t' \<and> CHR ''.'' \<notin> set db'"
proof -
  have "CHR ''.'' \<in> set (source_tableKey db t)" by (simp add: source_tableKey_def)
  then obtain x y where "source_tableKey db t = x @ CHR ''.'' # y" "CHR ''.'' \<notin> set x" by (meson split_list_first)
  then show ?thesis by (auto simp: source_tableKey_def)
qed

text \<open>
  The invariant: the entries have distinct keys, every key is the key of the entry's table identifier,
  whose database has no dot, and the keys are the names of the scope that have a dot.
\<close>

definition key_of_state :: "string \<Rightarrow> TableSyncState \<Rightarrow> bool" where
  "key_of_state k st =
     (k = source_tableKey (tid_Database (tss_TableID st)) (tid_Table (tss_TableID st))
      \<and> CHR ''.'' \<notin> set (tid_Database (tss_TableID st)) \<and> tid_Schema (tss_TableID st) = [])"

definition tmn_inv :: "TableManager \<Rightarrow> bool" where
  "tmn_inv tm =
     (gomap_ok (tmn_syncTables tm) \<and> (\<forall>(k, st) \<in> set (tmn_syncTables tm). key_of_state k st)
      \<and> (case tmn_scope tm of
           None \<Rightarrow> True
         | Some sc \<Rightarrow> \<forall>k. k \<in> fst ` set (tmn_syncTables tm) \<longleftrightarrow> k \<in> set (tsc_Names sc) \<and> CHR ''.'' \<in> set k))"

lemma tmn_inv_entries: "tmn_inv tm \<Longrightarrow> map_of (tmn_syncTables tm) k = Some st \<Longrightarrow> key_of_state k st"
  by (auto simp: tmn_inv_def dest: map_of_SomeD)

lemma key_of_new: "CHR ''.'' \<notin> set db \<Longrightarrow> key_of_state (source_tableKey db t) (new_sync_state now db t schema)"
  by (simp add: key_of_state_def new_sync_state_def)

lemma fold_new_states:
  fixes now :: gotime
  assumes "gomap_ok m" "\<forall>(k, st) \<in> set m. key_of_state k st" "\<forall>(db, t) \<in> set ps. CHR ''.'' \<notin> set db"
  defines "m' \<equiv> fold (\<lambda>(db, t) m. AList.update (source_tableKey db t) (new_sync_state now db t None) m) ps m"
  shows "gomap_ok m' \<and> (\<forall>(k, st) \<in> set m'. key_of_state k st) \<and> fst ` set m' = fst ` set m \<union> (\<lambda>(db, t). source_tableKey db t) ` set ps"
  using assms(1-3) unfolding m'_def
proof (induction ps arbitrary: m)
  case (Cons p ps)
  obtain db t where p: "p = (db, t)" by fastforce
  let ?m = "AList.update (source_tableKey db t) (new_sync_state now db t None) m"
  have "gomap_ok ?m" using Cons.prems(1) by simp
  moreover have "\<forall>(k, st) \<in> set ?m. key_of_state k st"
    using Cons.prems p key_of_new [of db t now None] by (auto simp: set_update_gomap)
  moreover have "fst ` set ?m = insert (source_tableKey db t) (fst ` set m)"
    using Cons.prems(1) by (force simp: set_update_gomap)
  ultimately show ?case using Cons.IH [of ?m] Cons.prems(3) p by simp
qed simp

lemma NewTableManager_inv: "tmn_inv (NewTableManager now scope hasCh)"
proof (cases scope)
  case None
  then show ?thesis by (simp add: tmn_inv_def NewTableManager_def)
next
  case (Some sc)
  have nodot: "\<forall>(db, t) \<in> set (ParseTableNames sc). CHR ''.'' \<notin> set db"
    by (auto simp: ParseTableNames_def parse_names_set)
  have keys: "k \<in> (\<lambda>(db, t). source_tableKey db t) ` set (ParseTableNames sc) \<longleftrightarrow> k \<in> set (tsc_Names sc) \<and> CHR ''.'' \<in> set k" for k
  proof
    assume "k \<in> (\<lambda>(db, t). source_tableKey db t) ` set (ParseTableNames sc)"
    then show "k \<in> set (tsc_Names sc) \<and> CHR ''.'' \<in> set k"
      by (auto simp: ParseTableNames_def parse_names_set) (simp add: source_tableKey_def)
  next
    assume k: "k \<in> set (tsc_Names sc) \<and> CHR ''.'' \<in> set k"
    then obtain x y where "k = x @ CHR ''.'' # y" "CHR ''.'' \<notin> set x" by (meson split_list_first)
    then have "k = source_tableKey x y" "(x, y) \<in> set (ParseTableNames sc)"
      using k by (simp_all add: ParseTableNames_def parse_names_set source_tableKey_def)
    then show "k \<in> (\<lambda>(db, t). source_tableKey db t) ` set (ParseTableNames sc)" by force
  qed
  show ?thesis
    using fold_new_states [OF _ _ nodot, of "[]" now] keys Some by (simp add: tmn_inv_def NewTableManager_def)
qed

text \<open>One entry added with its name, or deleted with it, keeps the invariant; so does changing an entry.\<close>

lemma tmn_inv_add:
  assumes "tmn_inv tm" "CHR ''.'' \<notin> set db" "name = source_tableKey db t"
  shows "tmn_inv (tm\<lparr> tmn_syncTables := AList.update name (new_sync_state now db t schema) (tmn_syncTables tm),
    tmn_scope := map_option (\<lambda>sc. sc\<lparr> tsc_Names := tsc_Names sc @ [name] \<rparr>) (tmn_scope tm) \<rparr>)"
proof -
  let ?m = "AList.update name (new_sync_state now db t schema) (tmn_syncTables tm)"
  have ok: "gomap_ok (tmn_syncTables tm)" using assms(1) by (simp add: tmn_inv_def)
  have "\<forall>(k, st) \<in> set ?m. key_of_state k st"
    using assms key_of_new [of db t now schema] by (auto simp: tmn_inv_def set_update_gomap)
  moreover have "fst ` set ?m = insert name (fst ` set (tmn_syncTables tm))" using ok by (force simp: set_update_gomap)
  moreover have "CHR ''.'' \<in> set name" using assms(3) by (simp add: source_tableKey_def)
  ultimately show ?thesis using assms(1) ok by (auto simp: tmn_inv_def split: option.splits)
qed

lemma tmn_inv_remove:
  assumes "tmn_inv tm"
  shows "tmn_inv (tm\<lparr> tmn_syncTables := AList.delete name (tmn_syncTables tm),
    tmn_scope := map_option (\<lambda>sc. sc\<lparr> tsc_Names := filter (\<lambda>n. n \<noteq> name) (tsc_Names sc) \<rparr>) (tmn_scope tm) \<rparr>)"
proof -
  have "fst ` set (AList.delete name (tmn_syncTables tm)) = fst ` set (tmn_syncTables tm) - {name}"
    by (force simp: set_delete_gomap)
  then show ?thesis using assms by (auto simp: tmn_inv_def set_delete_gomap split: option.splits)
qed

lemma tmn_inv_state:
  assumes "tmn_inv tm" "map_of (tmn_syncTables tm) k = Some st" "tss_TableID st' = tss_TableID st"
  shows "tmn_inv (tm\<lparr> tmn_syncTables := AList.update k st' (tmn_syncTables tm) \<rparr>)"
proof -
  have ok: "gomap_ok (tmn_syncTables tm)" using assms(1) by (simp add: tmn_inv_def)
  have "key_of_state k st'" using tmn_inv_entries [OF assms(1,2)] assms(3) by (simp add: key_of_state_def)
  then have "\<forall>(k, st) \<in> set (AList.update k st' (tmn_syncTables tm)). key_of_state k st"
    using assms(1) ok by (auto simp: tmn_inv_def set_update_gomap)
  moreover have "fst ` set (AList.update k st' (tmn_syncTables tm)) = fst ` set (tmn_syncTables tm)"
    using ok map_of_SomeD [OF assms(2)] by (force simp: set_update_gomap)
  ultimately show ?thesis using assms(1) ok by (auto simp: tmn_inv_def split: option.splits)
qed

lemma no_scope_update: "tmn_scope tm = None \<Longrightarrow> tm\<lparr> tmn_syncTables := m, tmn_scope := None \<rparr> = tm\<lparr> tmn_syncTables := m \<rparr>"
  by (cases tm) simp

lemma add_loop_inv: "tmn_inv tm \<Longrightarrow> tmn_inv (fst (add_loop fetch tables tm events))"
proof (induction tables arbitrary: tm events)
  case (Cons a tables)
  obtain name now where a: "a = (name, now)" by fastforce
  show ?case
  proof (cases "parseTableName name")
    case (Inr p)
    obtain db t where p: "p = (db, t)" by fastforce
    have nm: "name = source_tableKey db t" "CHR ''.'' \<notin> set db" using Inr p by (simp_all add: parseTableName_ok)
    show ?thesis
    proof (cases "map_of (tmn_syncTables tm) name")
      case None
      show ?thesis
      proof (cases "case fetch of None \<Rightarrow> Inr None | Some f \<Rightarrow> f db t")
        case (Inl e)
        then show ?thesis using Cons.prems a Inr p None nm(1) by simp
      next
        case fetched: (Inr schema)
        let ?tm = "tm\<lparr> tmn_syncTables := AList.update name (new_sync_state now db t schema) (tmn_syncTables tm),
          tmn_scope := map_option (\<lambda>sc. sc\<lparr> tsc_Names := tsc_Names sc @ [name] \<rparr>) (tmn_scope tm) \<rparr>"
        have "\<exists>evs. add_loop fetch (a # tables) tm events = add_loop fetch tables ?tm evs"
          using a Inr p None fetched nm(1) by (cases "tmn_scope tm") (auto simp: Let_def no_scope_update)
        then show ?thesis using Cons.IH [OF tmn_inv_add [OF Cons.prems nm(2,1)]] by fastforce
      qed
    qed (use Cons.prems a Inr p nm(1) in simp)
  qed (use Cons.prems a in simp)
qed simp

lemma remove_loop_inv: "tmn_inv tm \<Longrightarrow> tmn_inv (fst (remove_loop tables tm events))"
proof (induction tables arbitrary: tm events)
  case (Cons a tables)
  obtain name now where a: "a = (name, now)" by fastforce
  show ?case
  proof (cases "parseTableName name")
    case (Inr p)
    obtain db t where p: "p = (db, t)" by fastforce
    have nm: "name = source_tableKey db t" using Inr p by (simp add: parseTableName_ok)
    show ?thesis
    proof (cases "map_of (tmn_syncTables tm) name")
      case (Some st)
      let ?tm = "tm\<lparr> tmn_syncTables := AList.delete name (tmn_syncTables tm),
        tmn_scope := map_option (\<lambda>sc. sc\<lparr> tsc_Names := filter (\<lambda>n. n \<noteq> name) (tsc_Names sc) \<rparr>) (tmn_scope tm) \<rparr>"
      have "\<exists>evs. remove_loop (a # tables) tm events = remove_loop tables ?tm evs"
        using a Inr p Some nm by (cases "tmn_scope tm") (auto simp: Let_def no_scope_update)
      then show ?thesis using Cons.IH [OF tmn_inv_remove [OF Cons.prems]] by fastforce
    qed (use Cons.prems a Inr p nm in simp)
  qed (use Cons.prems a in simp)
qed simp

text \<open>The operations of the manager, and runs of them.\<close>

datatype tmn_op =
    TAdd "(string \<times> gotime) list"
  | TRemove "(string \<times> gotime) list"
  | TUpdate string string TableSyncStatus gotime
  | TPause string string gotime
  | TResume string string gotime

fun tmn_step ::
  "(string \<Rightarrow> string \<Rightarrow> TableInfo option res) option \<Rightarrow> TableManager \<Rightarrow> nat \<times> err \<times> tmn_op \<Rightarrow> TableManager" where
  "tmn_step fetch tm (n, e, TAdd tables) = fst (tmn_AddTables n e fetch tm tables)"
| "tmn_step fetch tm (n, e, TRemove tables) = fst (tmn_RemoveTables n e tm tables)"
| "tmn_step fetch tm (n, e, TUpdate db t status now) = fst (UpdateTableStatus now tm db t status)"
| "tmn_step fetch tm (n, e, TPause db t now) = fst (tmn_PauseTable n e now tm db t)"
| "tmn_step fetch tm (n, e, TResume db t now) = fst (tmn_ResumeTable n e now tm db t)"

lemma fst_AddTables: "fst (tmn_AddTables n e fetch tm tables) = fst (add_loop fetch tables tm [])"
  by (simp add: tmn_AddTables_def split: prod.split sum.split)

lemma fst_RemoveTables: "fst (tmn_RemoveTables n e tm tables) = fst (remove_loop tables tm [])"
  by (simp add: tmn_RemoveTables_def split: prod.split sum.split)

lemma tmn_step_inv: "tmn_inv tm \<Longrightarrow> tmn_inv (tmn_step fetch tm op)"
  by (cases "(fetch, tm, op)" rule: tmn_step.cases)
    (auto simp: fst_AddTables fst_RemoveTables add_loop_inv remove_loop_inv UpdateTableStatus_def tmn_PauseTable_def
      tmn_ResumeTable_def Let_def intro!: tmn_inv_state split: option.split)

lemma tmn_run_inv: "tmn_inv tm \<Longrightarrow> tmn_inv (foldl (tmn_step fetch) tm ops)"
  by (induction ops arbitrary: tm) (simp_all add: tmn_step_inv)

lemma add_loop_scope: "(tmn_scope (fst (add_loop fetch tables tm events)) = None) = (tmn_scope tm = None)"
  by (induction fetch tables tm events rule: add_loop.induct) (auto simp: Let_def split: sum.split option.split)

lemma remove_loop_scope: "(tmn_scope (fst (remove_loop tables tm events)) = None) = (tmn_scope tm = None)"
  by (induction tables tm events rule: remove_loop.induct) (auto simp: Let_def split: sum.split option.split)

lemma tmn_step_scope: "(tmn_scope (tmn_step fetch tm op) = None) = (tmn_scope tm = None)"
  by (cases "(fetch, tm, op)" rule: tmn_step.cases)
    (auto simp: fst_AddTables fst_RemoveTables add_loop_scope remove_loop_scope UpdateTableStatus_def tmn_PauseTable_def
      tmn_ResumeTable_def Let_def split: option.split)

lemma tmn_run_scope: "(tmn_scope (foldl (tmn_step fetch) tm ops) = None) = (tmn_scope tm = None)"
  by (induction ops arbitrary: tm) (simp_all add: tmn_step_scope)

lemma HasTable_scope:
  assumes "tmn_inv tm" "tmn_scope tm = Some sc"
  shows "HasTable tm db t = ts_ShouldSyncTable sc db t"
proof -
  have "HasTable tm db t \<longleftrightarrow> source_tableKey db t \<in> fst ` set (tmn_syncTables tm)"
    by (simp add: HasTable_def map_of_eq_None_iff)
  also have "\<dots> \<longleftrightarrow> source_tableKey db t \<in> set (tsc_Names sc) \<and> CHR ''.'' \<in> set (source_tableKey db t)" using assms by (simp add: tmn_inv_def)
  also have "\<dots> \<longleftrightarrow> ts_ShouldSyncTable sc db t"
    by (auto simp: ts_ShouldSyncTable_def source_tableKey_def list_ex_iff)
  finally show ?thesis .
qed

text \<open>
  C20. The table manager is well formed and agrees with its scope: after any sequence of operations,
  those that return an error included, its entries have distinct keys, every key is the key of the
  entry's own table identifier, and for every table the manager has it exactly when the table scope
  synchronises it.
\<close>

theorem table_manager_agrees:
  assumes "tm = foldl (tmn_step fetch) (NewTableManager now (Some sc0) hasCh) ops"
  shows "gomap_ok (tmn_syncTables tm)
    \<and> (\<forall>k st. map_of (tmn_syncTables tm) k = Some st \<longrightarrow> key_of_state k st)
    \<and> (\<exists>sc. tmn_scope tm = Some sc \<and> (\<forall>db t. HasTable tm db t = ts_ShouldSyncTable sc db t))"
proof -
  have inv: "tmn_inv tm" unfolding assms by (rule tmn_run_inv [OF NewTableManager_inv])
  have "tmn_scope tm \<noteq> None" unfolding assms tmn_run_scope by (simp add: NewTableManager_def)
  then obtain sc where "tmn_scope tm = Some sc" by blast
  then show ?thesis using inv tmn_inv_entries [OF inv] HasTable_scope [OF inv] by (auto simp: tmn_inv_def)
qed

theorem table_manager_agrees_witness:
  "\<exists>tm. tm = foldl (tmn_step None) (NewTableManager 1 (Some \<lparr> tsc_Names = [''db.a''], tsc_EnableDDL = True \<rparr>) True)
        [(9, Canceled, TAdd [(''db.b'', 2), (''nodot'', 3)]), (9, Canceled, TRemove [(''db.a'', 4)])]
    \<and> HasTable tm ''db'' ''b'' \<and> \<not> HasTable tm ''db'' ''a'' \<and> tmn_scope tm = Some \<lparr> tsc_Names = [''db.b''], tsc_EnableDDL = True \<rparr>"
proof -
  let ?tm = "foldl (tmn_step None) (NewTableManager 1 (Some \<lparr> tsc_Names = [''db.a''], tsc_EnableDDL = True \<rparr>) True)
        [(9, Canceled, TAdd [(''db.b'', 2), (''nodot'', 3)]), (9, Canceled, TRemove [(''db.a'', 4)])]"
  have sc: "tmn_scope ?tm = Some \<lparr> tsc_Names = [''db.b''], tsc_EnableDDL = True \<rparr>" by code_simp
  from table_manager_agrees [OF refl, of None 1 "\<lparr> tsc_Names = [''db.a''], tsc_EnableDDL = True \<rparr>" True
      "[(9, Canceled, TAdd [(''db.b'', 2), (''nodot'', 3)]), (9, Canceled, TRemove [(''db.a'', 4)])]"] sc
  have "HasTable ?tm db t = ts_ShouldSyncTable \<lparr> tsc_Names = [''db.b''], tsc_EnableDDL = True \<rparr> db t" for db t by simp
  then have "HasTable ?tm ''db'' ''b''" "\<not> HasTable ?tm ''db'' ''a''" by (simp_all add: ts_ShouldSyncTable_def)
  with sc show ?thesis by blast
qed

text \<open>
  The events of the tables that were added before the failing name of a call are never sent: the
  tables are synchronised, but nobody is told.
\<close>

lemma failed_add_silent:
  assumes "parseTableName name = Inr (db, t)" "map_of (tmn_syncTables tm) name = None" "parseTableName bad = Inl e"
  shows "snd (tmn_AddTables n ctxErr None tm [(name, now), (bad, now')]) = ([], Some e)
    \<and> HasTable (fst (tmn_AddTables n ctxErr None tm [(name, now), (bad, now')])) db t"
proof -
  have nm: "name = source_tableKey db t" using assms(1) by (simp add: parseTableName_ok)
  show ?thesis using assms nm
    by (cases "tmn_scope tm") (auto simp: tmn_AddTables_def HasTable_def Let_def)
qed

section \<open>Discovery\<close>

text \<open>
  The connector of a database-level scope refuses every table that discovery adds, and a connector
  without a scope as well.
\<close>

lemma OnDDLEvent_conn:
  assumes "\<forall>key. fst (add c [key]) = c"
  shows "fst (snd (OnDDLEvent compile matches add room now d (Some c) ev)) = Some c"
  using assms by (auto simp: OnDDLEvent_def Let_def split: option.splits sum.splits prod.splits if_splits)

lemma discovery_never_adds:
  assumes "case s of None \<Rightarrow> True | Some sc \<Rightarrow> ss_Level sc \<noteq> SyncLevelTable"
  shows "fst (snd (OnDDLEvent compile matches conn_AddTables room now d (Some s) ev)) = Some s"
  by (rule OnDDLEvent_conn) (use assms in \<open>auto simp: conn_AddTables_def split: option.splits\<close>)

text \<open>An event whose metadata has no entry \<^verbatim>\<open>ddl_type\<close> is ignored.\<close>

lemma OnDDLEvent_untyped:
  assumes "case ev_Metadata e of None \<Rightarrow> True | Some m \<Rightarrow> map_of m ''ddl_type'' = None"
  shows "OnDDLEvent compile matches add room now d conn (Some e) = (d, conn, None)"
proof -
  have "resolveDDLType e = Inl ErrDiscoveryNotSupported" using assms by (auto simp: resolveDDLType_def split: option.splits)
  then show ?thesis by (simp add: OnDDLEvent_def)
qed

text \<open>Stopping a discovery that was stopped and started again panics.\<close>

lemma restart_stop_panics:
  assumes "ddv_running d" "\<not> ddv_eventChClosed d"
  shows "\<exists>d1. ddv_Stop d = Inr d1 \<and> ddv_Stop (fst (ddv_Start d1)) = Inl (Panic ''close of closed channel'')"
  using assms by (simp add: ddv_Stop_def ddv_Start_def)

text \<open>
  Dropping a database forgets its tables in the discovery with a connector. The other discovery keeps
  them: a table of a database that is dropped and created again is not announced again.
\<close>

lemma drop_database_forgets:
  assumes "map_of (ddv_knownDBs d) db = Some ()" "IsDDL e" "resolveDDLType e = Inr (PDDLType_text DDLTypeDropDatabase)"
    "ti_Database (ev_Table e) = db"
  shows "map_of (ddv_knownTables (fst (OnDDLEvent compile matches add room now d conn (Some e)))) (db @ ''.'' @ t) = None"
proof -
  have "HasPrefix (db @ ''.'' @ t) (db @ ''.'')" by (simp add: HasPrefix_def)
  then have "map_of (filter (\<lambda>(key, _). \<not> HasPrefix key (db @ ''.'')) (ddv_knownTables d)) (db @ ''.'' @ t) = None"
    by (auto simp: map_of_eq_None_iff)
  then show ?thesis using assms by (simp add: OnDDLEvent_def Let_def)
qed

lemma recreated_table_silent:
  assumes "IsTableKnown d db t" "sde_Type del = DDLTypeDropDatabase" "sde_Type create = DDLTypeCreateTable"
    "sde_Database create = db" "sde_Table create = t"
  shows "snd (dd_handleDDL room now' (fst (dd_handleDDL room now d del)) create) = None"
  using assms by (auto simp: dd_handleDDL_def IsTableKnown_def Let_def)

text \<open>The sets of known names follow the DDL events.\<close>

lemma dd_create_known:
  assumes "sde_Type ev = DDLTypeCreateTable" "ds_ShouldSyncDatabase (dd_Scope d) (sde_Database ev)"
  shows "IsTableKnown (fst (dd_handleDDL room now d ev)) db t
    = (db @ ''.'' @ t = sde_Database ev @ ''.'' @ sde_Table ev \<or> IsTableKnown d db t)"
  using assms by (auto simp: dd_handleDDL_def IsTableKnown_def Let_def)

lemma dd_drop_known:
  assumes "sde_Type ev = DDLTypeDropTable" "ds_ShouldSyncDatabase (dd_Scope d) (sde_Database ev)"
  shows "IsTableKnown (fst (dd_handleDDL room now d ev)) db t
    = (db @ ''.'' @ t \<noteq> sde_Database ev @ ''.'' @ sde_Table ev \<and> IsTableKnown d db t)"
  using assms by (auto simp: dd_handleDDL_def IsTableKnown_def Let_def)

end
