(* ===== verification/Mysql_Binlog.thy ===== *)
theory Mysql_Binlog
  imports Table_Scope Target_Store
begin

section \<open>The MySQL binlog syncer (internal/source/mysql)\<close>

text \<open>
  The schema cache (schema_cache.go) and the binlog syncer (binlog_syncer.go): which tables are
  captured, how binlog events become change events and how the position follows them. The binlog
  events are those of the replication package, with the fields the syncer reads. The DDL parser, the
  query of \<^verbatim>\<open>INFORMATION_SCHEMA\<close>, the target store and the regular expressions are fields of \<open>deps\<close>;
  \<open>now i\<close> is the \<open>i\<close>-th value that \<^verbatim>\<open>time.Now\<close> gives in a call. The syncer keeps a pointer to the
  position of the event it sent last, so a position is a reference: \<open>OwnPos\<close> to a position of its own,
  \<open>EventPos i\<close> to the one inside the \<open>i\<close>-th event that was sent, and \<open>bs_sent\<close> holds the sent events as
  they are in memory.
\<close>

subsection \<open>Wildcards\<close>

text \<open>
  \<^verbatim>\<open>wildcardMatch\<close> fills a table row by row: \<open>dp_row p prev s\<close> is the row of the pattern character \<open>p\<close>,
  from the row before it. Its first cell stays false unless the character is a star.
\<close>

fun dp_cells :: "char \<Rightarrow> bool list \<Rightarrow> bool \<Rightarrow> string \<Rightarrow> bool list" where
  "dp_cells p (diag # up # prev) left (c # s) =
     (let v = (if p = CHR ''*'' then up \<or> left else if p = CHR ''?'' then diag else diag \<and> p = c)
      in v # dp_cells p (up # prev) v s)"
| "dp_cells p prev left s = []"

definition dp_row :: "char \<Rightarrow> bool list \<Rightarrow> string \<Rightarrow> bool list" where
  "dp_row p prev s = (let first = (if p = CHR ''*'' then prev ! 0 else False) in first # dp_cells p prev first s)"

definition wildcardMatch :: "string \<Rightarrow> string \<Rightarrow> bool" where
  "wildcardMatch pattern s =
     fold (\<lambda>p prev. dp_row p prev s) pattern (True # replicate (length s) False) ! length s"

definition mysql_matchPattern :: "string \<Rightarrow> string \<Rightarrow> bool" where
  "mysql_matchPattern pattern s = (if pattern = ''*'' then True else wildcardMatch pattern s)"

subsection \<open>The schema cache (schema_cache.go)\<close>

type_synonym TableSchemaCache = "(string, TableInfo) gomap"

definition NewTableSchemaCache :: TableSchemaCache where "NewTableSchemaCache = []"

text \<open>\<^verbatim>\<open>querySchema\<close>, from the rows of the query: name, nullability, key and full type of every column.\<close>

definition querySchema :: "(string \<Rightarrow> string \<Rightarrow> (string \<times> string \<times> string \<times> string) list res) \<Rightarrow> string \<Rightarrow> string \<Rightarrow> TableInfo res" where
  "querySchema rows database table =
     (case rows database table of
        Inl e \<Rightarrow> Inl (Wrapf ''failed to query columns'' e)
      | Inr rs \<Rightarrow>
          if rs = [] then Inl (Errorf (''table '' @ database @ ''.'' @ table @ '' not found''))
          else Inr (TableInfo_zero\<lparr> ti_Database := database, ti_Table := table,
            ti_Columns := map (\<lambda>(colName, isNullable, columnKey, columnType).
                \<lparr> ci_Name = colName, ci_Type = columnType, ci_Nullable = (isNullable = ''YES''), ci_Length = 0, ci_Scale = 0 \<rparr>) rs,
            ti_PrimaryKeyColumns := map fst (filter (\<lambda>(_, _, columnKey, _). columnKey = ''PRI'') rs) \<rparr>))"

definition sc_Get ::
  "(string \<Rightarrow> string \<Rightarrow> TableInfo res) \<Rightarrow> TableSchemaCache \<Rightarrow> string \<Rightarrow> string \<Rightarrow> TableSchemaCache \<times> TableInfo res" where
  "sc_Get query c database table =
     (let key = database @ ''.'' @ table in
      case map_of c key of
        Some schema \<Rightarrow> (c, Inr (TableInfo_Clone schema))
      | None \<Rightarrow>
          (case query database table of
             Inl e \<Rightarrow> (c, Inl e)
           | Inr schema \<Rightarrow> (AList.update key schema c, Inr (TableInfo_Clone schema))))"

definition sc_Update :: "TableSchemaCache \<Rightarrow> string \<Rightarrow> string \<Rightarrow> TableInfo \<Rightarrow> TableSchemaCache" where
  "sc_Update c database table schema = AList.update (database @ ''.'' @ table) schema c"

definition sc_Invalidate :: "TableSchemaCache \<Rightarrow> string \<Rightarrow> string \<Rightarrow> TableSchemaCache" where
  "sc_Invalidate c database table = AList.delete (database @ ''.'' @ table) c"

definition sc_InvalidateAll :: "TableSchemaCache \<Rightarrow> TableSchemaCache" where
  "sc_InvalidateAll c = []"

definition sc_All :: "TableSchemaCache option \<Rightarrow> TableSchemaCache" where
  "sc_All c = (case c of None \<Rightarrow> [] | Some m \<Rightarrow> fold (\<lambda>(k, v) r. AList.update k (TableInfo_Clone v) r) m [])"

definition sc_Refresh ::
  "(string \<Rightarrow> string \<Rightarrow> TableInfo res) \<Rightarrow> TableSchemaCache \<Rightarrow> string \<Rightarrow> string \<Rightarrow> TableSchemaCache \<times> err option" where
  "sc_Refresh query c database table =
     (case query database table of
        Inl e \<Rightarrow> (c, Some e)
      | Inr schema \<Rightarrow> (sc_Update c database table schema, None))"

subsection \<open>Binlog events and the state of the syncer\<close>

datatype header_type = WRITE_ROWS | UPDATE_ROWS | DELETE_ROWS | OTHER_EVENT

record EventHeader =
  eh_Timestamp :: uint32
  eh_EventType :: header_type
  eh_LogPos :: uint32

datatype binlog_body =
    RotateEvent string uint64
  | QueryEvent string string
  | TableMapEvent uint64 bytes "nat list"
  | RowsEvent uint64 string string "gval list list"
  | XIDEvent
  | GTIDEvent bytes int
  | OtherEvent

record BinlogEvent =
  be_Header :: EventHeader
  be_Event :: binlog_body

datatype posref = OwnPos Position | EventPos nat

record 'st SyncerDeps =
  sy_parser :: "((string \<Rightarrow> DDLResult list res) \<times> (TableInfo option \<Rightarrow> string \<Rightarrow> DDLResult option res)) option"
  sy_query :: "string \<Rightarrow> string \<Rightarrow> TableInfo res"
  sy_store :: "(('st \<Rightarrow> Position \<Rightarrow> 'st \<times> err option) \<times> ('st \<Rightarrow> SchemaHistoryRow \<Rightarrow> 'st \<times> err option)) option"
  sy_compile :: "string \<Rightarrow> err option"
  sy_matches :: "string \<Rightarrow> string \<Rightarrow> bool"
  sy_Format :: "gotime \<Rightarrow> string"

record 'st BinlogSyncer =
  bs_Databases :: "string list"
  bs_Tables :: "(string, string) gomap"
  bs_syncScope :: "SyncScope option"
  bs_schemaCache :: TableSchemaCache
  bs_tables :: "Tables option"
  bs_store :: 'st
  bs_position :: "posref option"
  bs_currentFile :: string
  bs_columnTypes :: "(uint64, bytes) gomap"
  bs_columnMetas :: "(uint64, nat list) gomap"
  bs_sent :: "ChangeEvent list"

definition NewBinlogSyncer ::
  "string list \<Rightarrow> (string, string) gomap \<Rightarrow> SyncScope option \<Rightarrow> TableSchemaCache \<Rightarrow> Tables option \<Rightarrow> 'st \<Rightarrow> 'st BinlogSyncer" where
  "NewBinlogSyncer databases tbls syncScope schemaCache tables store =
     \<lparr> bs_Databases = databases, bs_Tables = tbls, bs_syncScope = SyncScope_Clone syncScope, bs_schemaCache = schemaCache,
       bs_tables = tables, bs_store = store, bs_position = None, bs_currentFile = [], bs_columnTypes = [],
       bs_columnMetas = [], bs_sent = [] \<rparr>"

definition UpdateSyncScope :: "'st BinlogSyncer \<Rightarrow> SyncScope option \<Rightarrow> 'st BinlogSyncer" where
  "UpdateSyncScope s newScope = s\<lparr> bs_syncScope := SyncScope_Clone newScope \<rparr>"

text \<open>Reading through the position pointer.\<close>

definition deref :: "'st BinlogSyncer \<Rightarrow> posref \<Rightarrow> Position" where
  "deref s r = (case r of OwnPos p \<Rightarrow> p | EventPos i \<Rightarrow> ev_Position (bs_sent s ! i))"

definition syncer_GetPosition :: "'st BinlogSyncer \<Rightarrow> Position option" where
  "syncer_GetPosition s = map_option (\<lambda>r. Position_Clone (deref s r)) (bs_position s)"

subsection \<open>Which tables are captured\<close>

text \<open>
  The legacy configuration, used without a scope or with a scope of an unknown level.
\<close>

definition legacy_capture :: "string list \<Rightarrow> (string, string) gomap \<Rightarrow> string \<Rightarrow> string \<Rightarrow> bool" where
  "legacy_capture databases tbls database table =
     (if length databases = 0 then True
      else if list_ex (\<lambda>db. db = database \<or> db = ''*'') databases then True
      else list_ex (\<lambda>(db, pattern). (db = database \<or> db = ''*'')
             \<and> (pattern = ''*'' \<or> pattern = [] \<or> mysql_matchPattern pattern table)) tbls)"

definition syncer_shouldCapture :: "'st SyncerDeps \<Rightarrow> 'st BinlogSyncer \<Rightarrow> string \<Rightarrow> string \<Rightarrow> 'st BinlogSyncer \<times> bool" where
  "syncer_shouldCapture deps s database table =
     (case bs_syncScope s of
        Some scope \<Rightarrow>
          (case ss_Level scope of
             SyncLevelDatabase \<Rightarrow>
               (let (d, r) = ds_ShouldSyncTable (sy_compile deps) (sy_matches deps) (ss_Databases scope) database table
                in (s\<lparr> bs_syncScope := Some (scope\<lparr> ss_Databases := d \<rparr>) \<rparr>, r))
           | SyncLevelTable \<Rightarrow> (s, ts_ShouldSyncTable (ss_Tables scope) database table)
           | SyncLevelOther _ \<Rightarrow> (s, legacy_capture (bs_Databases s) (bs_Tables s) database table))
      | None \<Rightarrow> (s, legacy_capture (bs_Databases s) (bs_Tables s) database table))"

subsection \<open>Rows\<close>

definition mapColumnType :: "string \<Rightarrow> string" where
  "mapColumnType rawType =
     (let t = ToLower rawType; has = (\<lambda>p. Contains t p) in
      if has ''int'' \<or> has ''float'' \<or> has ''double'' \<or> has ''decimal'' \<or> has ''numeric'' then ''number''
      else if has ''date'' \<or> has ''time'' \<or> has ''timestamp'' \<or> has ''year'' then ''datetime''
      else if has ''char'' \<or> has ''varchar'' \<or> has ''text'' \<or> has ''blob'' \<or> has ''binary'' \<or> has ''enum'' \<or> has ''set''
        \<or> has ''json'' then ''string''
      else if has ''bit'' then ''bit''
      else if has ''geometry'' \<or> has ''point'' \<or> has ''linestring'' \<or> has ''polygon'' then ''geometry''
      else ''unknown'')"

definition mysql_buildRowData :: "ColumnInfo list \<Rightarrow> gval list \<Rightarrow> RowData" where
  "mysql_buildRowData columns vals =
     \<lparr> row_Fields = Some (fold (\<lambda>(col, v) m. AList.update (ci_Name col)
         \<lparr> fld_Name = ci_Name col, fld_Value = v,
           fld_Type = (if ci_Type col \<noteq> [] then mapColumnType (ci_Type col) else ''unknown''), fld_Null = False \<rparr> m)
         (zip columns vals) []) \<rparr>"

text \<open>\<^verbatim>\<open>time.Unix(sec, 0)\<close>.\<close>

definition time_Unix :: "uint32 \<Rightarrow> gotime" where
  "time_Unix sec = (uint sec + 62135596800) * 1000000000"

definition header_position :: "string \<Rightarrow> EventHeader \<Rightarrow> Position" where
  "header_position currentFile h =
     Position_zero\<lparr> pos_BinlogFile := currentFile, pos_BinlogPos := eh_LogPos h, pos_CommitTime := time_Unix (eh_Timestamp h) \<rparr>"

definition mysql_source :: "string \<Rightarrow> SourceInfo" where
  "mysql_source database = SourceInfo_zero\<lparr> src_Connector := ''mysql'', src_Database := database \<rparr>"

definition row_event ::
  "(gotime \<Rightarrow> string) \<Rightarrow> gotime \<Rightarrow> string \<Rightarrow> EventHeader \<Rightarrow> TableInfo \<Rightarrow> EventType \<Rightarrow> RowData \<Rightarrow> RowData \<Rightarrow> ChangeEvent" where
  "row_event Format now currentFile header tableInfo eventType before after =
     \<lparr> ev_ID = GenerateEventID Format (mysql_source []) now (uint (eh_LogPos header)), ev_Source = mysql_source (ti_Database tableInfo),
       ev_Type = eventType, ev_Position = header_position currentFile header, ev_Table = tableInfo, ev_Before = before,
       ev_After = after, ev_Timestamp = time_Unix (eh_Timestamp header), ev_Transaction = None, ev_Schema = None,
       ev_Metadata = None \<rparr>"

fun insert_events ::
  "(nat \<Rightarrow> RowData \<Rightarrow> ChangeEvent) \<Rightarrow> ColumnInfo list \<Rightarrow> nat \<Rightarrow> gval list list \<Rightarrow> ChangeEvent list" where
  "insert_events mk cols i [] = []"
| "insert_events mk cols i (row # rows) = mk i (mysql_buildRowData cols row) # insert_events mk cols (Suc i) rows"

fun update_events ::
  "(nat \<Rightarrow> RowData \<Rightarrow> RowData \<Rightarrow> ChangeEvent) \<Rightarrow> ColumnInfo list \<Rightarrow> nat \<Rightarrow> gval list list \<Rightarrow> ChangeEvent list" where
  "update_events mk cols i (b # a # rows) =
     mk i (mysql_buildRowData cols b) (mysql_buildRowData cols a) # update_events mk cols (Suc i) rows"
| "update_events mk cols i rows = []"

definition buildChangeEvents ::
  "(gotime \<Rightarrow> string) \<Rightarrow> (nat \<Rightarrow> gotime) \<Rightarrow> string \<Rightarrow> EventType \<Rightarrow> EventHeader \<Rightarrow> TableInfo \<Rightarrow> gval list list \<Rightarrow> ChangeEvent list" where
  "buildChangeEvents Format now currentFile eventType header tableInfo rows =
     (let mk = (\<lambda>i before after. row_event Format (now i) currentFile header tableInfo eventType before after) in
      case eventType of
        EventTypeInsert \<Rightarrow> insert_events (\<lambda>i after. mk i RowData_zero after) (ti_Columns tableInfo) 0 rows
      | EventTypeUpdate \<Rightarrow> update_events mk (ti_Columns tableInfo) 0 rows
      | EventTypeDelete \<Rightarrow> insert_events (\<lambda>i before. mk i before RowData_zero) (ti_Columns tableInfo) 0 rows
      | _ \<Rightarrow> [])"

text \<open>How a send on the event channel ends; an error is a timeout or the end of the context.\<close>

datatype send_out = SendOK | SendDone err | SendTimeout

fun send_rows :: "(nat \<Rightarrow> send_out) \<Rightarrow> nat \<Rightarrow> ChangeEvent list \<Rightarrow> 'st BinlogSyncer \<Rightarrow> 'st BinlogSyncer \<times> err option" where
  "send_rows outs i [] s = (s, None)"
| "send_rows outs i (e # es) s =
     (case outs i of
        SendOK \<Rightarrow> send_rows outs (Suc i) es (s\<lparr> bs_position := Some (EventPos (length (bs_sent s))), bs_sent := bs_sent s @ [e] \<rparr>)
      | SendDone er \<Rightarrow> (s\<lparr> bs_position := Some (OwnPos (ev_Position e)) \<rparr>, Some er)
      | SendTimeout \<Rightarrow> (s\<lparr> bs_position := Some (OwnPos (ev_Position e)) \<rparr>, Some (Errorf ''timeout sending change event'')))"

definition save_position :: "'st SyncerDeps \<Rightarrow> 'st BinlogSyncer \<Rightarrow> Position \<Rightarrow> 'st BinlogSyncer" where
  "save_position deps s pos =
     (case sy_store deps of None \<Rightarrow> s | Some (savePos, _) \<Rightarrow> s\<lparr> bs_store := fst (savePos (bs_store s) pos) \<rparr>)"

text \<open>The definition of the table of a rows event: from the tables, from the cache, or a minimal one.\<close>

definition rows_table :: "'st SyncerDeps \<Rightarrow> 'st BinlogSyncer \<Rightarrow> string \<Rightarrow> string \<Rightarrow> 'st BinlogSyncer \<times> TableInfo" where
  "rows_table deps s database table =
     (case (case bs_tables s of None \<Rightarrow> None | Some ts \<Rightarrow> Tables_Get ts database table) of
        Some ti \<Rightarrow> (s, ti)
      | None \<Rightarrow>
          (case sc_Get (sy_query deps) (bs_schemaCache s) database table of
             (c, Inr ti) \<Rightarrow> (s\<lparr> bs_schemaCache := c \<rparr>, ti)
           | (c, Inl _) \<Rightarrow> (s\<lparr> bs_schemaCache := c \<rparr>, TableInfo_zero\<lparr> ti_Database := database, ti_Table := table \<rparr>)))"

definition rows_type :: "header_type \<Rightarrow> EventType option" where
  "rows_type t =
     (case t of
        WRITE_ROWS \<Rightarrow> Some EventTypeInsert
      | UPDATE_ROWS \<Rightarrow> Some EventTypeUpdate
      | DELETE_ROWS \<Rightarrow> Some EventTypeDelete
      | OTHER_EVENT \<Rightarrow> None)"

definition handleRowsEvent ::
  "'st SyncerDeps \<Rightarrow> (nat \<Rightarrow> gotime) \<Rightarrow> (nat \<Rightarrow> send_out) \<Rightarrow> 'st BinlogSyncer \<Rightarrow> EventHeader \<Rightarrow> string \<Rightarrow> string \<Rightarrow> gval list list
     \<Rightarrow> 'st BinlogSyncer \<times> err option" where
  "handleRowsEvent deps now outs s header database table rows =
     (let (s, cap) = syncer_shouldCapture deps s database table in
      if \<not> cap then (s, None)
      else
        let (s, tableInfo) = rows_table deps s database table in
        case rows_type (eh_EventType header) of
          None \<Rightarrow> (s, None)
        | Some eventType \<Rightarrow>
            let events = buildChangeEvents (sy_Format deps) now (bs_currentFile s) eventType header tableInfo rows in
            case send_rows outs 0 events s of
              (s, Some e) \<Rightarrow> (s, Some e)
            | (s, None) \<Rightarrow> (if events = [] then s else save_position deps s (ev_Position (last events)), None))"

subsection \<open>The other binlog events\<close>

definition isDDL :: "string \<Rightarrow> bool" where
  "isDDL query =
     (let upper = ToUpper (TrimSpace query) in
      HasPrefix upper ''CREATE '' \<or> HasPrefix upper ''ALTER '' \<or> HasPrefix upper ''DROP '' \<or> HasPrefix upper ''TRUNCATE ''
      \<or> HasPrefix upper ''RENAME '')"

text \<open>The effect of a DDL statement on the tables and, when it could be applied, the row for the history.\<close>

definition apply_query ::
  "(TableInfo option \<Rightarrow> string \<Rightarrow> DDLResult option res) \<Rightarrow> Tables \<Rightarrow> DDLResult \<Rightarrow> string \<Rightarrow> Position
     \<Rightarrow> (Tables \<times> SchemaHistoryRow option) res" where
  "apply_query applyDDL ts r query pos =
     (case applyDDL (Tables_Get ts (dres_Database r) (dres_Table r)) query of
        Inl (Panic m) \<Rightarrow> Inl (Panic m)
      | Inr (Some ar) \<Rightarrow>
          Inr ((case dres_NewTableInfo ar of
              Some ti \<Rightarrow> Tables_Put ts ti
            | None \<Rightarrow> if dres_Type r = DDLTypeDropTable then Tables_Remove ts (dres_Database r) (dres_Table r) else ts),
           Some \<lparr> sh_ID = 0, sh_Position = pos, sh_DBName = dres_Database r, sh_TableName = dres_Table r, sh_DDL = query,
                  sh_TableInfo = dres_NewTableInfo ar, sh_ChangeType = PDDLType_text (dres_Type r), sh_CreatedAt = 0 \<rparr>)
      | _ \<Rightarrow> Inr (ts, None))"

definition query_event ::
  "(gotime \<Rightarrow> string) \<Rightarrow> gotime \<Rightarrow> string \<Rightarrow> EventHeader \<Rightarrow> string \<Rightarrow> string \<Rightarrow> DDLResult option \<Rightarrow> ChangeEvent" where
  "query_event Format now currentFile header database query ddlResult =
     \<lparr> ev_ID = GenerateEventID Format (mysql_source []) now (uint (eh_LogPos header)), ev_Source = mysql_source database,
       ev_Type = EventTypeDDL, ev_Position = header_position currentFile header,
       ev_Table = (case ddlResult of
                     None \<Rightarrow> TableInfo_zero
                   | Some r \<Rightarrow> TableInfo_zero\<lparr> ti_Database := dres_Database r, ti_Table := dres_Table r \<rparr>),
       ev_Before = RowData_zero, ev_After = RowData_zero, ev_Timestamp = time_Unix (eh_Timestamp header),
       ev_Transaction = None, ev_Schema = None,
       ev_Metadata = Some (case ddlResult of
                     None \<Rightarrow> [(''ddl'', query)]
                   | Some r \<Rightarrow> [(''ddl'', query), (''ddlType'', PDDLType_text (dres_Type r)), (''ddlDatabase'', dres_Database r),
                               (''ddlTable'', dres_Table r), (''ddlStatement'', dres_Statement r)]) \<rparr>"

text \<open>
  \<^verbatim>\<open>handleQueryEvent\<close>. A panic of the parser ends the syncer and is returned as the error; the parser
  reports no other kind of failure that is not handled here.
\<close>

definition handleQueryEvent ::
  "'st SyncerDeps \<Rightarrow> gotime \<Rightarrow> send_out \<Rightarrow> 'st BinlogSyncer \<Rightarrow> EventHeader \<Rightarrow> string \<Rightarrow> string \<Rightarrow> 'st BinlogSyncer \<times> err option" where
  "handleQueryEvent deps now out s header database query =
     (if \<not> isDDL query then (s, None)
      else case (case sy_parser deps of None \<Rightarrow> Inr [] | Some (parse, _) \<Rightarrow> parse query) of
        Inl (Panic m) \<Rightarrow> (s, Some (Panic m))
      | results \<Rightarrow>
        let ddlResult = (case results of Inr (r # _) \<Rightarrow> Some r | _ \<Rightarrow> None);
            ev = query_event (sy_Format deps) now (bs_currentFile s) header database query ddlResult;
            named = (case ddlResult of None \<Rightarrow> False | Some r \<Rightarrow> dres_Table r \<noteq> []);
            s = s\<lparr> bs_schemaCache :=
                  (case ddlResult of
                     Some r \<Rightarrow> if named then sc_Invalidate (bs_schemaCache s) (dres_Database r) (dres_Table r)
                               else sc_InvalidateAll (bs_schemaCache s)
                   | None \<Rightarrow> sc_InvalidateAll (bs_schemaCache s)) \<rparr>;
            applied = (case (bs_tables s, ddlResult, sy_parser deps) of
                   (Some ts, Some r, Some (_, applyDDL)) \<Rightarrow>
                     if \<not> named then Inr s
                     else
                       (case apply_query applyDDL ts r query (ev_Position ev) of
                          Inl er \<Rightarrow> Inl er
                        | Inr (ts, hist) \<Rightarrow>
                            let s = s\<lparr> bs_tables := Some ts \<rparr>
                            in Inr (case (hist, sy_store deps) of
                                 (Some row, Some (_, saveHist)) \<Rightarrow> s\<lparr> bs_store := fst (saveHist (bs_store s) row) \<rparr>
                               | _ \<Rightarrow> s))
                 | _ \<Rightarrow> Inr s)
        in case applied of
             Inl er \<Rightarrow> (s, Some er)
           | Inr s \<Rightarrow> (case out of
             SendOK \<Rightarrow>
               (save_position deps (s\<lparr> bs_position := Some (EventPos (length (bs_sent s))), bs_sent := bs_sent s @ [ev] \<rparr>) (ev_Position ev),
                None)
           | SendDone er \<Rightarrow> (s\<lparr> bs_position := Some (OwnPos (ev_Position ev)) \<rparr>, Some er)
           | SendTimeout \<Rightarrow> (s\<lparr> bs_position := Some (OwnPos (ev_Position ev)) \<rparr>, Some (Errorf ''timeout sending DDL event''))))"

definition hex_bytes :: "bytes \<Rightarrow> string" where
  "hex_bytes bs = concat (map (\<lambda>b. [hex_digit (unat b div 16), hex_digit (unat b mod 16)]) bs)"

definition gtid_text :: "bytes \<Rightarrow> int \<Rightarrow> string" where
  "gtid_text sid gno =
     hex_bytes (take 4 sid) @ ''-'' @ hex_bytes (take 2 (drop 4 sid)) @ ''-'' @ hex_bytes (take 2 (drop 6 sid)) @ ''-''
     @ hex_bytes (take 2 (drop 8 sid)) @ ''-'' @ hex_bytes (take 6 (drop 10 sid)) @ '':'' @ Itoa gno"

text \<open>Writing through the position pointer changes the event it points into.\<close>

definition handleGTIDEvent :: "'st BinlogSyncer \<Rightarrow> bytes \<Rightarrow> int \<Rightarrow> 'st BinlogSyncer \<times> err option" where
  "handleGTIDEvent s sid gno =
     (if length sid < 16 then (s, Some (Panic ''slice bounds out of range''))
      else
        let gtid = gtid_text sid gno in
        (case bs_position s of
           None \<Rightarrow> s\<lparr> bs_position := Some (OwnPos (Position_zero\<lparr> pos_TxID := gtid \<rparr>)) \<rparr>
         | Some (OwnPos p) \<Rightarrow> s\<lparr> bs_position := Some (OwnPos (p\<lparr> pos_TxID := gtid \<rparr>)) \<rparr>
         | Some (EventPos i) \<Rightarrow>
             s\<lparr> bs_sent := (bs_sent s)[i := (bs_sent s ! i)\<lparr> ev_Position := (ev_Position (bs_sent s ! i))\<lparr> pos_TxID := gtid \<rparr> \<rparr>] \<rparr>,
         None))"

definition syncer_processEvent ::
  "'st SyncerDeps \<Rightarrow> (nat \<Rightarrow> gotime) \<Rightarrow> (nat \<Rightarrow> send_out) \<Rightarrow> 'st BinlogSyncer \<Rightarrow> BinlogEvent \<Rightarrow> 'st BinlogSyncer \<times> err option" where
  "syncer_processEvent deps now outs s ev =
     (case be_Event ev of
        RotateEvent NextLogName _ \<Rightarrow> (s\<lparr> bs_currentFile := NextLogName \<rparr>, None)
      | QueryEvent schema query \<Rightarrow> handleQueryEvent deps (now 0) (outs 0) s (be_Header ev) schema query
      | TableMapEvent tableID types metas \<Rightarrow>
          (s\<lparr> bs_columnTypes := AList.update tableID types (bs_columnTypes s),
             bs_columnMetas := AList.update tableID metas (bs_columnMetas s) \<rparr>, None)
      | RowsEvent _ database table rows \<Rightarrow> handleRowsEvent deps now outs s (be_Header ev) database table rows
      | XIDEvent \<Rightarrow> (s\<lparr> bs_position := Some (OwnPos (header_position (bs_currentFile s) (be_Header ev))) \<rparr>, None)
      | GTIDEvent sid gno \<Rightarrow> handleGTIDEvent s sid gno
      | OtherEvent \<Rightarrow> (s, None))"

text \<open>
  The loop of \<^verbatim>\<open>run\<close> over what the streamer gives: an event, or an error, which is reported and
  skipped. It goes on after the error of an event, and ends with a panic.
\<close>

fun syncer_run ::
  "'st SyncerDeps \<Rightarrow> (err + (nat \<Rightarrow> gotime) \<times> (nat \<Rightarrow> send_out) \<times> BinlogEvent) list \<Rightarrow> 'st BinlogSyncer \<Rightarrow> err list
     \<Rightarrow> 'st BinlogSyncer \<times> err list" where
  "syncer_run deps [] s errs = (s, errs)"
| "syncer_run deps (Inl e # ins) s errs = syncer_run deps ins s (errs @ [e])"
| "syncer_run deps (Inr (now, outs, ev) # ins) s errs =
     (case syncer_processEvent deps now outs s ev of
        (s, None) \<Rightarrow> syncer_run deps ins s errs
      | (s, Some (Panic m)) \<Rightarrow> (s, errs @ [Panic m])
      | (s, Some e) \<Rightarrow> syncer_run deps ins s (errs @ [e]))"

section \<open>Wildcards match what they should\<close>

text \<open>
  What a pattern means: the text can be cut into pieces, one for every character of the pattern, such
  that a star gets any piece, a question mark a piece of one character, and every other character
  itself.
\<close>

definition piece :: "char \<Rightarrow> string \<Rightarrow> bool" where
  "piece p w = (if p = CHR ''*'' then True else if p = CHR ''?'' then length w = 1 else w = [p])"

definition wild :: "string \<Rightarrow> string \<Rightarrow> bool" where
  "wild P s = (\<exists>ws. s = concat ws \<and> list_all2 piece P ws)"

lemma wild_Nil [simp]: "wild [] s \<longleftrightarrow> s = []"
  by (simp add: wild_def)

lemma wild_snoc: "wild (P @ [p]) s \<longleftrightarrow> (\<exists>u w. s = u @ w \<and> wild P u \<and> piece p w)"
proof
  assume "wild (P @ [p]) s"
  then obtain ws where s: "s = concat ws" and ws: "list_all2 piece (P @ [p]) ws" by (auto simp: wild_def)
  from ws obtain us v where "ws = us @ [v]" "list_all2 piece P us" "piece p v"
    by (auto simp: list_all2_append1 list_all2_Cons1)
  then show "\<exists>u w. s = u @ w \<and> wild P u \<and> piece p w" using s by (auto simp: wild_def)
next
  assume "\<exists>u w. s = u @ w \<and> wild P u \<and> piece p w"
  then obtain us w where "s = concat us @ w" "list_all2 piece P us" "piece p w" by (auto simp: wild_def)
  then show "wild (P @ [p]) s" unfolding wild_def by (intro exI [of _ "us @ [w]"]) (simp add: list_all2_appendI)
qed

lemma wild_star:
  "wild (P @ [CHR ''*'']) [] = wild P []"
  "wild (P @ [CHR ''*'']) (t @ [c]) = (wild P (t @ [c]) \<or> wild (P @ [CHR ''*'']) t)"
proof -
  show "wild (P @ [CHR ''*'']) [] = wild P []" by (auto simp: wild_snoc piece_def)
  show "wild (P @ [CHR ''*'']) (t @ [c]) = (wild P (t @ [c]) \<or> wild (P @ [CHR ''*'']) t)"
  proof
    assume "wild (P @ [CHR ''*'']) (t @ [c])"
    then obtain u w where "t @ [c] = u @ w" "wild P u" by (auto simp: wild_snoc)
    then show "wild P (t @ [c]) \<or> wild (P @ [CHR ''*'']) t"
      by (cases w rule: rev_cases) (auto simp: wild_snoc piece_def)
  next
    assume "wild P (t @ [c]) \<or> wild (P @ [CHR ''*'']) t"
    then show "wild (P @ [CHR ''*'']) (t @ [c])"
    proof
      assume "wild P (t @ [c])"
      then show ?thesis unfolding wild_snoc by (intro exI [of _ "t @ [c]"] exI [of _ "[]"]) (simp add: piece_def)
    next
      assume "wild (P @ [CHR ''*'']) t"
      then obtain u w where "t = u @ w" "wild P u" by (auto simp: wild_snoc)
      then show ?thesis unfolding wild_snoc by (intro exI [of _ u] exI [of _ "w @ [c]"]) (simp add: piece_def)
    qed
  qed
qed

lemma wild_one:
  assumes "p \<noteq> CHR ''*''"
  shows "wild (P @ [p]) [] = False" "wild (P @ [p]) (t @ [c]) = (wild P t \<and> (p = CHR ''?'' \<or> p = c))"
proof -
  show "wild (P @ [p]) [] = False" using assms by (auto simp: wild_snoc piece_def)
  have "piece p w \<longleftrightarrow> (\<exists>c. w = [c] \<and> (p = CHR ''?'' \<or> p = c))" for w
    using assms by (auto simp: piece_def length_Suc_conv)
  then show "wild (P @ [p]) (t @ [c]) = (wild P t \<and> (p = CHR ''?'' \<or> p = c))"
    by (auto simp: wild_snoc)
qed

text \<open>A row of the table says for every prefix of the text whether it matches.\<close>

fun row_tail :: "string \<Rightarrow> string \<Rightarrow> string \<Rightarrow> bool list" where
  "row_tail P pre [] = []"
| "row_tail P pre (c # s) = wild P (pre @ [c]) # row_tail P (pre @ [c]) s"

lemma dp_cells_rows:
  "dp_cells p (wild P pre # row_tail P pre s) (wild (P @ [p]) pre) s = row_tail (P @ [p]) pre s"
proof (induction s arbitrary: pre)
  case (Cons c s)
  have "(if p = CHR ''*'' then wild P (pre @ [c]) \<or> wild (P @ [p]) pre
         else if p = CHR ''?'' then wild P pre else wild P pre \<and> p = c) = wild (P @ [p]) (pre @ [c])"
    by (simp add: wild_star wild_one)
  then show ?case using Cons.IH [of "pre @ [c]"] by (simp add: Let_def)
qed simp

lemma dp_row_rows: "dp_row p (wild P [] # row_tail P [] s) s = wild (P @ [p]) [] # row_tail (P @ [p]) [] s"
proof -
  have "(if p = CHR ''*'' then wild P [] else False) = wild (P @ [p]) []" by (simp add: wild_star wild_one)
  then show ?thesis by (simp only: dp_row_def Let_def nth_Cons_0 dp_cells_rows)
qed

lemma dp_table: "fold (\<lambda>p prev. dp_row p prev s) Q (wild P [] # row_tail P [] s) = wild (P @ Q) [] # row_tail (P @ Q) [] s"
  by (induction Q arbitrary: P) (simp_all add: dp_row_rows)

lemma row_tail_Nil: "row_tail [] pre s = replicate (length s) False"
  by (induction s arbitrary: pre) simp_all

lemma row_last: "(wild P pre # row_tail P pre s) ! length s = wild P (pre @ s)"
  by (induction s arbitrary: pre) simp_all

text \<open>
  C21. The wildcard matcher of the MySQL source is right. The table that \<^verbatim>\<open>wildcardMatch\<close> fills row by
  row gives true exactly when the text can be cut into pieces, one for every character of the
  pattern, of which a star matches any, a question mark one character, and every other character
  itself.
\<close>

theorem wildcardMatch_correct: "wildcardMatch pattern s = (\<exists>ws. s = concat ws \<and> list_all2 piece pattern ws)"
proof -
  have "wildcardMatch pattern s = (wild pattern [] # row_tail pattern [] s) ! length s"
    using dp_table [of s pattern "[]"] by (simp add: wildcardMatch_def row_tail_Nil)
  also have "\<dots> = wild pattern s" using row_last [of pattern "[]" s] by simp
  finally show ?thesis by (simp add: wild_def)
qed

section \<open>Rows are translated one by one\<close>

text \<open>What a row of values becomes: every column that has a value, under its name.\<close>

lemma fold_fields_other:
  "n \<notin> ci_Name ` set (map fst ps) \<Longrightarrow>
     map_of (fold (\<lambda>(col, v) m. AList.update (ci_Name col) (f col v) m) ps m) n = map_of m n"
  by (induction ps arbitrary: m) (auto split: prod.split)

lemma buildRowData_Get:
  assumes "distinct (map ci_Name cols)" "k < length cols" "k < length vals"
  shows "RowData_Get (Some (mysql_buildRowData cols vals)) (ci_Name (cols ! k)) = (vals ! k, True)"
proof -
  let ?f = "\<lambda>col v. \<lparr> fld_Name = ci_Name col, fld_Value = v,
    fld_Type = (if ci_Type col \<noteq> [] then mapColumnType (ci_Type col) else ''unknown''), fld_Null = False \<rparr>"
  have "distinct (map ci_Name cols) \<Longrightarrow> k < length cols \<Longrightarrow> k < length vals \<Longrightarrow>
    map_of (fold (\<lambda>(col, v) m. AList.update (ci_Name col) (?f col v) m) (zip cols vals) m) (ci_Name (cols ! k))
      = Some (?f (cols ! k) (vals ! k))" for m
  proof (induction cols vals arbitrary: m k rule: list_induct2')
    case (4 c cols v vals)
    show ?case
    proof (cases k)
      case 0
      have "ci_Name c \<notin> ci_Name ` set (map fst (zip cols vals))" using 4(2) by (auto dest: set_zip_leftD)
      then show ?thesis using 0 by (simp add: fold_fields_other [where f = ?f])
    next
      case (Suc j)
      then show ?thesis using 4 by simp
    qed
  qed simp_all
  from this [OF assms, of "[]"] show ?thesis by (simp add: mysql_buildRowData_def RowData_Get_def fields_of_def)
qed

lemma insert_events_nth:
  "length (insert_events mk cols i rows) = length rows
   \<and> (\<forall>k < length rows. insert_events mk cols i rows ! k = mk (i + k) (mysql_buildRowData cols (rows ! k)))"
  by (induction mk cols i rows rule: insert_events.induct) (auto simp: less_Suc_eq_0_disj)

lemma update_events_nth:
  "length (update_events mk cols i rows) = length rows div 2
   \<and> (\<forall>k < length rows div 2. update_events mk cols i rows ! k
        = mk (i + k) (mysql_buildRowData cols (rows ! (2 * k))) (mysql_buildRowData cols (rows ! (2 * k + 1))))"
  by (induction mk cols i rows rule: update_events.induct) (auto simp: less_Suc_eq_0_disj)

lemma send_rows_ok:
  "(\<forall>i. outs i = SendOK) \<Longrightarrow>
     send_rows outs i es s = (if es = [] then (s, None)
       else (s\<lparr> bs_position := Some (EventPos (length (bs_sent s) + length es - 1)), bs_sent := bs_sent s @ es \<rparr>, None))"
  by (induction es arbitrary: i s) auto

text \<open>Whether a table is captured, as the scope or the legacy configuration says.\<close>

definition captured :: "'st SyncerDeps \<Rightarrow> 'st BinlogSyncer \<Rightarrow> string \<Rightarrow> string \<Rightarrow> bool" where
  "captured deps s db t =
     (case bs_syncScope s of
        None \<Rightarrow> legacy_capture (bs_Databases s) (bs_Tables s) db t
      | Some sc \<Rightarrow>
          (case ss_Level sc of
             SyncLevelDatabase \<Rightarrow> scope_admits (sy_compile deps) (sy_matches deps) (ss_Databases sc) db t
           | SyncLevelTable \<Rightarrow> ts_ShouldSyncTable (ss_Tables sc) db t
           | SyncLevelOther _ \<Rightarrow> legacy_capture (bs_Databases s) (bs_Tables s) db t))"

text \<open>
  The parts of the syncer that decide what is captured and how it is named: the scope may only change
  in its compiled patterns.
\<close>

definition scope_ok :: "'st SyncerDeps \<Rightarrow> SyncScope option \<Rightarrow> bool" where
  "scope_ok deps sc = (case sc of None \<Rightarrow> True | Some sc \<Rightarrow> ds_ok (sy_compile deps) (ss_Databases sc))"

definition scope_same :: "SyncScope option \<Rightarrow> SyncScope option \<Rightarrow> bool" where
  "scope_same a b =
     (case (a, b) of
        (None, None) \<Rightarrow> True
      | (Some a, Some b) \<Rightarrow> ss_Level b = ss_Level a \<and> ss_Tables b = ss_Tables a \<and> ds_same (ss_Databases a) (ss_Databases b)
      | _ \<Rightarrow> False)"

definition same_setup :: "'st BinlogSyncer \<Rightarrow> 'st BinlogSyncer \<Rightarrow> bool" where
  "same_setup s s' =
     (bs_Databases s' = bs_Databases s \<and> bs_Tables s' = bs_Tables s \<and> bs_tables s' = bs_tables s
      \<and> scope_same (bs_syncScope s) (bs_syncScope s'))"

lemma ds_same_refl [simp]: "ds_same d d" by (simp add: ds_same_def)
lemma ds_same_trans: "ds_same a b \<Longrightarrow> ds_same b c \<Longrightarrow> ds_same a c" by (simp add: ds_same_def)

lemma scope_same_refl [simp]: "scope_same a a" by (simp add: scope_same_def split: option.split)
lemma scope_same_trans: "scope_same a b \<Longrightarrow> scope_same b c \<Longrightarrow> scope_same a c"
  by (auto simp: scope_same_def intro: ds_same_trans split: option.splits)

lemma same_setup_refl [simp]: "same_setup s s" by (simp add: same_setup_def)
lemma same_setup_trans: "same_setup a b \<Longrightarrow> same_setup b c \<Longrightarrow> same_setup a c"
  by (auto simp: same_setup_def intro: scope_same_trans)

lemma captured_same: "same_setup s s' \<Longrightarrow> captured deps s' db t = captured deps s db t"
  by (auto simp: same_setup_def captured_def scope_same_def scope_admits_same split: option.splits SyncLevel.splits)

lemma shouldCapture_spec:
  assumes "scope_ok deps (bs_syncScope s)" "syncer_shouldCapture deps s db t = (s', r)"
  shows "r = captured deps s db t \<and> same_setup s s' \<and> scope_ok deps (bs_syncScope s')
    \<and> bs_currentFile s' = bs_currentFile s \<and> bs_sent s' = bs_sent s \<and> bs_position s' = bs_position s"
proof (cases "bs_syncScope s")
  case None
  then show ?thesis using assms by (auto simp: syncer_shouldCapture_def captured_def)
next
  case (Some sc)
  show ?thesis
  proof (cases "ss_Level sc")
    case SyncLevelDatabase
    have ok: "ds_ok (sy_compile deps) (ss_Databases sc)" using assms(1) Some by (simp add: scope_ok_def)
    obtain d b where d: "ds_ShouldSyncTable (sy_compile deps) (sy_matches deps) (ss_Databases sc) db t = (d, b)" by fastforce
    have "b = scope_admits (sy_compile deps) (sy_matches deps) (ss_Databases sc) db t" "ds_ok (sy_compile deps) d" "ds_same (ss_Databases sc) d"
      using ds_ShouldSyncTable_spec [OF ok, of "sy_matches deps" db t] d by simp_all
    then show ?thesis using assms(2) Some SyncLevelDatabase d
      by (auto simp: syncer_shouldCapture_def captured_def same_setup_def scope_same_def scope_ok_def)
  qed (use assms Some in \<open>auto simp: syncer_shouldCapture_def captured_def\<close>)
qed

text \<open>
  What a binlog event should give: the change events of its rows, the file it leaves, and the position.
  Transaction identifiers are left out: \<open>strip_pos\<close> and \<open>strip\<close> clear them.
\<close>

definition strip_pos :: "Position \<Rightarrow> Position" where "strip_pos p = p\<lparr> pos_TxID := [] \<rparr>"

definition strip :: "ChangeEvent \<Rightarrow> ChangeEvent" where "strip e = e\<lparr> ev_Position := strip_pos (ev_Position e) \<rparr>"

fun events_of ::
  "(gotime \<Rightarrow> string) \<Rightarrow> (string \<Rightarrow> string \<Rightarrow> bool) \<Rightarrow> (string \<Rightarrow> string \<Rightarrow> TableInfo) \<Rightarrow> string \<Rightarrow> (nat \<Rightarrow> gotime) \<Rightarrow> EventHeader
     \<Rightarrow> binlog_body \<Rightarrow> ChangeEvent list" where
  "events_of Format cap tab file now h (RowsEvent _ db t rows) =
     (if \<not> cap db t then []
      else case rows_type (eh_EventType h) of None \<Rightarrow> [] | Some ty \<Rightarrow> buildChangeEvents Format now file ty h (tab db t) rows)"
| "events_of Format cap tab file now h _ = []"

fun file_after :: "string \<Rightarrow> binlog_body \<Rightarrow> string" where
  "file_after file (RotateEvent n _) = n"
| "file_after file _ = file"

fun position_after :: "string \<Rightarrow> ChangeEvent list \<Rightarrow> EventHeader \<Rightarrow> binlog_body \<Rightarrow> Position option \<Rightarrow> Position option" where
  "position_after file evs h XIDEvent p = Some (header_position file h)"
| "position_after file evs h (GTIDEvent _ _) p = Some (case p of None \<Rightarrow> Position_zero | Some p \<Rightarrow> p)"
| "position_after file evs h _ p = (if evs = [] then p else Some (header_position file h))"

fun stream_spec ::
  "(gotime \<Rightarrow> string) \<Rightarrow> (string \<Rightarrow> string \<Rightarrow> bool) \<Rightarrow> (string \<Rightarrow> string \<Rightarrow> TableInfo) \<Rightarrow> ((nat \<Rightarrow> gotime) \<times> BinlogEvent) list
     \<Rightarrow> string \<times> ChangeEvent list \<times> Position option \<Rightarrow> string \<times> ChangeEvent list \<times> Position option" where
  "stream_spec Format cap tab [] st = st"
| "stream_spec Format cap tab ((now, ev) # evs) (file, out, p) =
     (let es = events_of Format cap tab file now (be_Header ev) (be_Event ev)
      in stream_spec Format cap tab evs
           (file_after file (be_Event ev), out @ es, position_after file es (be_Header ev) (be_Event ev) p))"

text \<open>The events of the statement: no DDL, complete server identifiers, and known tables.\<close>

fun plain_body :: "(string \<Rightarrow> string \<Rightarrow> bool) \<Rightarrow> Tables \<Rightarrow> binlog_body \<Rightarrow> bool" where
  "plain_body cap ts (QueryEvent _ query) = (\<not> isDDL query)"
| "plain_body cap ts (GTIDEvent sid _) = (length sid = 16)"
| "plain_body cap ts (RowsEvent _ db t _) = (cap db t \<longrightarrow> Tables_Get ts db t \<noteq> None)"
| "plain_body cap ts _ = True"

definition ref_ok :: "'st BinlogSyncer \<Rightarrow> bool" where
  "ref_ok s = (case bs_position s of Some (EventPos i) \<Rightarrow> i < length (bs_sent s) | _ \<Rightarrow> True)"

definition spec_of :: "'st BinlogSyncer \<Rightarrow> string \<times> ChangeEvent list \<times> Position option" where
  "spec_of s = (bs_currentFile s, map strip (bs_sent s), map_option strip_pos (syncer_GetPosition s))"

lemma strip_simps [simp]:
  "strip_pos (header_position file h) = header_position file h" "strip_pos Position_zero = Position_zero"
  "strip_pos (p\<lparr> pos_TxID := x \<rparr>) = strip_pos p" "ev_Position (strip e) = strip_pos (ev_Position e)"
  "strip (row_event Format now file h ti ty b a) = row_event Format now file h ti ty b a"
  "strip (e\<lparr> ev_Position := (ev_Position e)\<lparr> pos_TxID := x \<rparr> \<rparr>) = strip e"
  by (simp_all add: strip_def strip_pos_def header_position_def Position_zero_def row_event_def)

lemma built_events:
  "set (buildChangeEvents Format now file ty h ti rows) \<subseteq> {e. \<exists>nw b a. e = row_event Format nw file h ti ty b a}"
proof -
  have i: "set (insert_events mk cols i rows) \<subseteq> {e. \<exists>i r. e = mk i r}" for mk cols i
    by (induction mk cols i rows rule: insert_events.induct) auto
  have u: "set (update_events mk cols i rows) \<subseteq> {e. \<exists>i b a. e = mk i b a}" for mk cols i
    by (induction mk cols i rows rule: update_events.induct) auto
  show ?thesis
    using i [of "\<lambda>i after. row_event Format (now i) file h ti ty RowData_zero after" "ti_Columns ti" 0]
      i [of "\<lambda>i before. row_event Format (now i) file h ti ty before RowData_zero" "ti_Columns ti" 0]
      u [of "\<lambda>i. row_event Format (now i) file h ti ty" "ti_Columns ti" 0]
    by (cases ty) (fastforce simp: buildChangeEvents_def Let_def)+
qed

lemma built_strip: "map strip (buildChangeEvents Format now file ty h ti rows) = buildChangeEvents Format now file ty h ti rows"
  using built_events [of Format now "file" ty h ti rows] by (intro map_idI) auto

lemma built_position: "e \<in> set (buildChangeEvents Format now file ty h ti rows) \<Longrightarrow> ev_Position e = header_position file h"
  using built_events [of Format now "file" ty h ti rows] by (auto simp: row_event_def)

lemma save_position_simps [simp]:
  "bs_currentFile (save_position deps s pos) = bs_currentFile s" "bs_sent (save_position deps s pos) = bs_sent s"
  "bs_position (save_position deps s pos) = bs_position s" "bs_syncScope (save_position deps s pos) = bs_syncScope s"
  "bs_Databases (save_position deps s pos) = bs_Databases s" "bs_Tables (save_position deps s pos) = bs_Tables s"
  "bs_tables (save_position deps s pos) = bs_tables s"
  by (auto simp: save_position_def split: option.split)

lemma rows_step:
  fixes h :: EventHeader and rows :: "gval list list" and i :: uint64 and now :: "nat \<Rightarrow> gotime"
  assumes "scope_ok deps (bs_syncScope s)" "bs_tables s = Some ts" "ref_ok s" "captured deps s db t \<longrightarrow> Tables_Get ts db t \<noteq> None"
  defines "es \<equiv> events_of (sy_Format deps) (captured deps s) (\<lambda>db t. the (Tables_Get ts db t)) (bs_currentFile s) now h (RowsEvent i db t rows)"
  shows "\<exists>s'. handleRowsEvent deps now (\<lambda>_. SendOK) s h db t rows = (s', None) \<and> same_setup s s' \<and> scope_ok deps (bs_syncScope s') \<and> ref_ok s'
    \<and> spec_of s' = (bs_currentFile s, map strip (bs_sent s) @ es,
        if es = [] then map_option strip_pos (syncer_GetPosition s) else Some (header_position (bs_currentFile s) h))"
proof -
  obtain s1 c where s1: "syncer_shouldCapture deps s db t = (s1, c)" by fastforce
  from shouldCapture_spec [OF assms(1) s1]
  have c: "c = captured deps s db t" "same_setup s s1" "scope_ok deps (bs_syncScope s1)" "bs_currentFile s1 = bs_currentFile s"
    "bs_sent s1 = bs_sent s" "bs_position s1 = bs_position s" by simp_all
  have spec1: "spec_of s1 = spec_of s" "ref_ok s1"
    using c assms(3) by (simp_all add: spec_of_def syncer_GetPosition_def deref_def ref_ok_def split: option.splits posref.splits)
  show ?thesis
  proof (cases "c \<and> rows_type (eh_EventType h) \<noteq> None")
    case False
    then have "es = []" "\<exists>s'. handleRowsEvent deps now (\<lambda>_. SendOK) s h db t rows = (s', None) \<and> s' = fst (if c then rows_table deps s1 db t else (s1, undefined))"
      using s1 c(1) by (auto simp: es_def handleRowsEvent_def split: prod.split)
    moreover have "fst (if c then rows_table deps s1 db t else (s1, undefined)) = s1"
      using assms(2,4) c(1,2) by (auto simp: rows_table_def same_setup_def)
    ultimately show ?thesis using c spec1 by (auto simp: spec_of_def)
  next
    case True
    then obtain ty where ty: "rows_type (eh_EventType h) = Some ty" and cap: "captured deps s db t" using c(1) by auto
    obtain ti where ti: "Tables_Get ts db t = Some ti" using assms(4) cap by auto
    have tab: "rows_table deps s1 db t = (s1, ti)" using c(2) assms(2) ti by (simp add: rows_table_def same_setup_def)
    have es: "es = buildChangeEvents (sy_Format deps) now (bs_currentFile s1) ty h ti rows"
      using cap ty ti c(4) by (simp add: es_def)
    show ?thesis
    proof (cases "es = []")
      case empty: True
      then have "handleRowsEvent deps now (\<lambda>_. SendOK) s h db t rows = (s1, None)"
        using s1 True tab ty es by (simp add: handleRowsEvent_def)
      then show ?thesis using c spec1 empty by (auto simp: spec_of_def)
    next
      case full: False
      let ?s2 = "s1\<lparr> bs_position := Some (EventPos (length (bs_sent s1) + length es - 1)), bs_sent := bs_sent s1 @ es \<rparr>"
      have r: "handleRowsEvent deps now (\<lambda>_. SendOK) s h db t rows = (save_position deps ?s2 (ev_Position (last es)), None)"
        using s1 True tab ty es full by (simp add: handleRowsEvent_def send_rows_ok Let_def)
      have nth: "(bs_sent s1 @ es) ! (length (bs_sent s1) + length es - 1) = last es"
        using full by (cases es) (auto simp: nth_append last_conv_nth)
      have "last es \<in> set es" using full by simp
      then have "ev_Position (last es) = header_position (bs_currentFile s) h" using built_position es c(4) by metis
      moreover have "map strip es = es" using built_strip es by metis
      ultimately show ?thesis using r full c spec1 nth
        by (auto simp: spec_of_def syncer_GetPosition_def deref_def ref_ok_def same_setup_def)
    qed
  qed
qed

lemma syncer_step:
  assumes "scope_ok deps (bs_syncScope s)" "bs_tables s = Some ts" "ref_ok s" "plain_body (captured deps s) ts (be_Event ev)"
  shows "\<exists>s'. syncer_processEvent deps now (\<lambda>_. SendOK) s ev = (s', None) \<and> same_setup s s' \<and> scope_ok deps (bs_syncScope s') \<and> ref_ok s'
    \<and> spec_of s' = stream_spec (sy_Format deps) (captured deps s) (\<lambda>db t. the (Tables_Get ts db t)) [(now, ev)] (spec_of s)"
proof (cases "be_Event ev")
  case (QueryEvent db q)
  then show ?thesis using assms by (auto simp: syncer_processEvent_def handleQueryEvent_def spec_of_def)
next
  case (RowsEvent i db t rows)
  then have k: "captured deps s db t \<longrightarrow> Tables_Get ts db t \<noteq> None" using assms(4) by simp
  from rows_step [OF assms(1-3) k, of now "be_Header ev" rows i] RowsEvent show ?thesis
    by (auto simp: syncer_processEvent_def Let_def spec_of_def)
next
  case (GTIDEvent sid gno)
  let ?g = "gtid_text sid gno"
  have len: "\<not> length sid < 16" using assms(4) GTIDEvent by simp
  consider "bs_position s = None" | p where "bs_position s = Some (OwnPos p)" | j where "bs_position s = Some (EventPos j)"
    by (metis option.exhaust posref.exhaust)
  then show ?thesis
  proof cases
    case (3 j)
    then have j: "j < length (bs_sent s)" using assms(3) by (simp add: ref_ok_def)
    have "map strip ((bs_sent s)[j := (bs_sent s ! j)\<lparr> ev_Position := (ev_Position (bs_sent s ! j))\<lparr> pos_TxID := ?g \<rparr> \<rparr>]) = map strip (bs_sent s)"
      using j by (simp add: map_update list_update_same_conv)
    then show ?thesis using 3 len j GTIDEvent assms
      by (auto simp: syncer_processEvent_def handleGTIDEvent_def Let_def spec_of_def syncer_GetPosition_def deref_def ref_ok_def same_setup_def)
  qed (use len GTIDEvent assms in \<open>auto simp: syncer_processEvent_def handleGTIDEvent_def Let_def spec_of_def
      syncer_GetPosition_def deref_def ref_ok_def same_setup_def\<close>)
qed (use assms in \<open>auto simp: syncer_processEvent_def Let_def spec_of_def same_setup_def ref_ok_def syncer_GetPosition_def deref_def
    split: option.splits posref.splits\<close>)


definition wit_syncer :: "unit BinlogSyncer" where
  "wit_syncer = NewBinlogSyncer [] []
     (Some \<lparr> ss_Level = SyncLevelTable, ss_Databases = ss_Databases DefaultSyncScope,
             ss_Tables = \<lparr> tsc_Names = [''db.t''], tsc_EnableDDL = True \<rparr> \<rparr>) []
     (Some [(''db.t'', TableInfo_zero\<lparr> ti_Database := ''db'', ti_Table := ''t'',
        ti_Columns := [\<lparr> ci_Name = ''id'', ci_Type = ''int'', ci_Nullable = False, ci_Length = 0, ci_Scale = 0 \<rparr>] \<rparr>)]) ()"

definition wit_sdeps :: "unit SyncerDeps" where
  "wit_sdeps =
     \<lparr> sy_parser = None, sy_query = (\<lambda>_ _. Inl EOF), sy_store = None, sy_compile = (\<lambda>_. None), sy_matches = (\<lambda>_ _. True),
       sy_Format = (\<lambda>_. []) \<rparr>"

definition wit_stream :: "((nat \<Rightarrow> gotime) \<times> BinlogEvent) list" where
  "wit_stream =
     map (\<lambda>b. (\<lambda>_. 0, \<lparr> be_Header = \<lparr> eh_Timestamp = 1, eh_EventType = WRITE_ROWS, eh_LogPos = 7 \<rparr>, be_Event = b \<rparr>))
       [RotateEvent ''bin.1'' 4, GTIDEvent (replicate 16 0) 5, RowsEvent 1 ''db'' ''t'' [[VInt 1], [VInt 2]],
        RowsEvent 2 ''db'' ''u'' [[VInt 3]], XIDEvent]"


section \<open>Transaction identifiers and failed sends\<close>

text \<open>
  The identifier of a transaction never reaches its own events: a commit replaces the position, and
  the identifier with it, and after a DDL statement, which has no commit event, the identifier of the
  next transaction is written into the event of the statement, which has been sent already.
\<close>

lemma commit_drops_gtid:
  "be_Event ev = XIDEvent \<Longrightarrow> map_option pos_TxID (syncer_GetPosition (fst (syncer_processEvent deps now outs s ev))) = Some []"
  by (simp add: syncer_processEvent_def syncer_GetPosition_def deref_def header_position_def Position_zero_def)

lemma gtid_rewrites_sent:
  assumes "bs_position s = Some (EventPos i)" "i < length (bs_sent s)" "be_Event ev = GTIDEvent sid gno" "length sid = 16"
  shows "pos_TxID (ev_Position (bs_sent (fst (syncer_processEvent deps now outs s ev)) ! i)) = gtid_text sid gno"
  using assms by (simp add: syncer_processEvent_def handleGTIDEvent_def Let_def)

text \<open>
  A send that times out loses the row and those after it in the same event, while the position
  already names the event and the loop goes on.
\<close>

lemma timeout_loses_rows:
  assumes "outs i = SendTimeout"
  shows "bs_sent (fst (send_rows outs i (e # es) s)) = bs_sent s
    \<and> syncer_GetPosition (fst (send_rows outs i (e # es) s)) = Some (ev_Position e)
    \<and> snd (send_rows outs i (e # es) s) = Some (Errorf ''timeout sending change event'')"
  using assms by (simp add: syncer_GetPosition_def deref_def)

lemma run_continues:
  assumes "syncer_processEvent deps now outs s ev = (s', Some (Errorf m))"
  shows "syncer_run deps (Inr (now, outs, ev) # ins) s errs = syncer_run deps ins s' (errs @ [Errorf m])"
  using assms by simp

text \<open>The last row of an update event with an odd number of rows is dropped.\<close>

lemma odd_update_dropped: "update_events mk cols i [row] = []"
  by simp

text \<open>What the cache answers after an update, and after invalidating.\<close>

lemma sc_Get_update: "snd (sc_Get query (sc_Update c db t schema) db t) = Inr schema"
  by (simp add: sc_Get_def sc_Update_def)

lemma sc_Get_invalidated: "snd (sc_Get query (sc_Invalidate c db t) db t) = query db t"
  by (simp add: sc_Get_def sc_Invalidate_def Let_def split: sum.split)

lemma sc_Get_cached: "snd (sc_Get query c db t) = Inr ti \<Longrightarrow> map_of (fst (sc_Get query c db t)) (db @ ''.'' @ t) = Some ti"
  by (auto simp: sc_Get_def Let_def split: option.splits sum.splits)

end
