(* ===== verification/Pgoutput.thy ===== *)
theory Pgoutput
  imports Table_Scope Target_Store
begin

unbundle bit_operations_syntax

section \<open>The PostgreSQL pgoutput handler (internal/source/postgres)\<close>

text \<open>
  The handler of logical replication messages (pgoutput_handler.go) with the parts of the connector it
  uses (connector.go): the configuration, the position, the schema cache, the tables and the current
  LSN. The messages are those of the pglogrepl package, with the fields the handler reads. The DDL
  parser, the schema history and the store are arguments in \<open>deps\<close>; \<open>now i\<close> is the \<open>i\<close>-th value of
  \<^verbatim>\<open>time.Now\<close> in a call. \<open>pg_ctx\<close> is the context of the handler: \<^const>\<open>None\<close> for nil, otherwise the
  error with which it has ended, if it has.
\<close>

subsection \<open>Messages\<close>

record RelationColumn =
  rc_Flags :: byte
  rc_Name :: string
  rc_DataType :: uint32

record RelationMessage =
  rm_RelationID :: uint32
  rm_Namespace :: string
  rm_RelationName :: string
  rm_Columns :: "RelationColumn list"

datatype tuple_type = TupleDataTypeNull | TupleDataTypeToast | TupleDataTypeText | TupleDataTypeBinary

type_synonym TupleData = "(tuple_type \<times> bytes) list"

datatype pg_message =
    BeginMessage uint64 uint32
  | CommitMessage uint64 gotime
  | RelationMsg RelationMessage
  | InsertMessage uint32 TupleData
  | UpdateMessage uint32 "TupleData option" "TupleData option"
  | DeleteMessage uint32 "TupleData option"
  | TruncateMessage "uint32 list"
  | IgnoredMessage

subsection \<open>Types and values\<close>

text \<open>\<^verbatim>\<open>mapPostgresType\<close>: the names of the built-in types by their object identifier.\<close>

definition pg_type_names :: "(int \<times> string) list" where
  "pg_type_names =
     [(16, ''bool''), (17, ''bytea''), (18, ''char''), (19, ''name''), (20, ''int8''), (21, ''int2''), (22, ''int2vector''),
      (23, ''int4''), (24, ''regproc''), (25, ''text''), (26, ''oid''), (700, ''float4''), (701, ''float8''), (702, ''abstime''),
      (703, ''reltime''), (704, ''tinterval''), (790, ''money''), (1042, ''bpchar''), (1043, ''varchar''), (1082, ''date''),
      (1083, ''time''), (1114, ''timestamp''), (1184, ''timestamptz''), (1186, ''interval''), (1700, ''numeric''), (2950, ''uuid''),
      (3802, ''jsonb''), (114, ''json''), (142, ''xml'')]"

definition mapPostgresType :: "int \<Rightarrow> string" where
  "mapPostgresType oid = (case map_of pg_type_names oid of Some n \<Rightarrow> n | None \<Rightarrow> ''unknown'')"

text \<open>\<^verbatim>\<open>binary.BigEndian\<close> of the first two and the first eight bytes.\<close>

fun Uint16 :: "bytes \<Rightarrow> 16 word" where
  "Uint16 (a # b # r) = push_bit 8 (ucast a) OR ucast b"
| "Uint16 _ = 0"

definition Uint64 :: "bytes \<Rightarrow> uint64" where
  "Uint64 bs = push_bit 32 (ucast (Uint32 bs)) OR ucast (Uint32 (drop 4 bs))"

text \<open>
  The conversions of an unsigned integer to a floating-point number (not of its bits): \<open>round_bits k n\<close>
  keeps the \<open>k\<close> leading binary digits and rounds to the nearest, ties to even; \<open>float64_of_nat\<close> gives the
  IEEE bits of the double. A \<^verbatim>\<open>float32\<close> is represented by the double of the same value.
\<close>

function bit_length :: "nat \<Rightarrow> nat" where
  "bit_length n = (if n = 0 then 0 else Suc (bit_length (n div 2)))"
  by auto
termination by (relation "measure id") auto

declare bit_length.simps [simp del]

definition round_bits :: "nat \<Rightarrow> nat \<Rightarrow> nat" where
  "round_bits k n =
     (let l = bit_length n in
      if l \<le> k then n
      else
        let d = 2 ^ (l - k); q = n div d; r = n mod d;
            q = (if 2 * r > d \<or> 2 * r = d \<and> odd q then q + 1 else q)
        in q * d)"

definition float64_of_nat :: "nat \<Rightarrow> uint64" where
  "float64_of_nat n =
     (let n = round_bits 53 n; l = bit_length n in
      if n = 0 then 0
      else of_nat ((l - 1 + 1023) * 2 ^ 52 + (n * 2 ^ 53 div 2 ^ l - 2 ^ 52)))"

definition float32FromBits :: "uint32 \<Rightarrow> uint64" where
  "float32FromBits b = float64_of_nat (round_bits 24 (unat b))"

definition float64FromBits :: "uint64 \<Rightarrow> uint64" where
  "float64FromBits b = float64_of_nat (unat b)"

definition decodeBinaryValue :: "bytes \<Rightarrow> int \<Rightarrow> gval" where
  "decodeBinaryValue data dataType =
     (if dataType = 16 \<and> length data > 0 then VBool (data ! 0 \<noteq> 0)
      else if dataType = 21 \<and> length data \<ge> 2 then VInt (sint (Uint16 data))
      else if dataType = 23 \<and> length data \<ge> 4 then VInt (sint (Uint32 data))
      else if dataType = 20 \<and> length data \<ge> 8 then VInt (sint (Uint64 data))
      else if dataType = 700 \<and> length data \<ge> 4 then VFloat (float32FromBits (Uint32 data))
      else if dataType = 701 \<and> length data \<ge> 8 then VFloat (float64FromBits (Uint64 data))
      else VBytes data)"

definition pg_text :: "bytes \<Rightarrow> string" where "pg_text bs = map (\<lambda>b. char_of (unat b)) bs"

definition pg_value :: "RelationColumn \<Rightarrow> tuple_type \<times> bytes \<Rightarrow> gval" where
  "pg_value col tc =
     (case fst tc of
        TupleDataTypeNull \<Rightarrow> VNil
      | TupleDataTypeText \<Rightarrow> VStr (pg_text (snd tc))
      | TupleDataTypeBinary \<Rightarrow> decodeBinaryValue (snd tc) (sint (rc_DataType col))
      | TupleDataTypeToast \<Rightarrow> VNil)"

definition pg_buildRowData :: "RelationMessage \<Rightarrow> TupleData \<Rightarrow> RowData" where
  "pg_buildRowData relation tuple =
     \<lparr> row_Fields = Some (fold (\<lambda>(col, tc) m. AList.update (rc_Name col)
         \<lparr> fld_Name = rc_Name col, fld_Value = pg_value col tc, fld_Type = mapPostgresType (sint (rc_DataType col)),
           fld_Null = False \<rparr> m)
         (zip (rm_Columns relation) tuple) []) \<rparr>"

definition buildTableInfo :: "string \<Rightarrow> RelationMessage \<Rightarrow> TableInfo" where
  "buildTableInfo database relation =
     TableInfo_zero\<lparr> ti_Database := database, ti_Schema := rm_Namespace relation, ti_Table := rm_RelationName relation,
       ti_Columns := map (\<lambda>col. \<lparr> ci_Name = rc_Name col, ci_Type = mapPostgresType (sint (rc_DataType col)),
                                 ci_Nullable = (rc_Flags col AND 1 = 0), ci_Length = 0, ci_Scale = 0 \<rparr>) (rm_Columns relation),
       ti_PrimaryKeyColumns := map rc_Name (filter (\<lambda>col. rc_Flags col AND 2 \<noteq> 0) (rm_Columns relation)) \<rparr>"

definition tableSchemasEqual :: "TableInfo option \<Rightarrow> TableInfo option \<Rightarrow> bool" where
  "tableSchemasEqual a b =
     (case (a, b) of
        (Some a, Some b) \<Rightarrow>
          length (ti_Columns a) = length (ti_Columns b)
          \<and> length (ti_PrimaryKeyColumns a) = length (ti_PrimaryKeyColumns b)
          \<and> list_all2 (\<lambda>c d. ci_Name c = ci_Name d \<and> ci_Type c = ci_Type d \<and> ci_Nullable c = ci_Nullable d)
               (ti_Columns a) (ti_Columns b)
          \<and> list_all2 (=) (ti_PrimaryKeyColumns a) (ti_PrimaryKeyColumns b)
      | (None, None) \<Rightarrow> True
      | _ \<Rightarrow> False)"

subsection \<open>The handler and its connector\<close>

record ('h, 'st) PGOutputHandler =
  pg_ctx :: "err option option"
  pg_relations :: "(uint32, RelationMessage) gomap"
  pg_tx :: "(uint64 \<times> uint32) option"
  pg_Database :: string
  pg_Schemas :: "string list"
  pg_Tables :: "(string, string) gomap"
  pg_position :: "Position option"
  pg_schemaCache :: "(string, TableInfo) gomap"
  pg_tables :: "Tables option"
  pg_history :: 'h
  pg_store :: 'st
  pg_currentLSN :: uint64
  pg_events :: "ChangeEvent list"

record ('h, 'st) PGDeps =
  pd_applyDDL :: "(TableInfo option \<Rightarrow> string \<Rightarrow> DDLResult option res) option"
  pd_record :: "('h \<Rightarrow> SchemaHistoryRecord \<Rightarrow> 'h \<times> err option) option"
  pd_savePos :: "('st \<Rightarrow> Position \<Rightarrow> 'st \<times> err option) option"
  pd_Format :: "gotime \<Rightarrow> string"

text \<open>\<^verbatim>\<open>NewPGOutputHandler\<close> does not store the context it is given.\<close>

definition NewPGOutputHandler :: "('h, 'st) PGOutputHandler \<Rightarrow> ('h, 'st) PGOutputHandler" where
  "NewPGOutputHandler connector = connector\<lparr> pg_ctx := None, pg_relations := [], pg_tx := None \<rparr>"

definition pg_matchPattern :: "string \<Rightarrow> string \<Rightarrow> bool" where
  "pg_matchPattern pattern s = (if pattern = ''*'' then True else pattern = s)"

definition pg_shouldCapture :: "('h, 'st) PGOutputHandler \<Rightarrow> string \<Rightarrow> string \<Rightarrow> bool" where
  "pg_shouldCapture h schema table =
     (if length (pg_Schemas h) = 0 then True
      else if list_ex (\<lambda>s. s = schema \<or> s = ''*'') (pg_Schemas h) then True
      else list_ex (\<lambda>(s, pattern). (s = schema \<or> s = ''*'')
             \<and> (pattern = ''*'' \<or> pattern = [] \<or> pg_matchPattern pattern table)) (pg_Tables h))"

definition pg_savePosition :: "('h, 'st) PGDeps \<Rightarrow> Position \<Rightarrow> ('h, 'st) PGOutputHandler \<Rightarrow> ('h, 'st) PGOutputHandler" where
  "pg_savePosition deps pos h =
     (case pd_savePos deps of None \<Rightarrow> h | Some save \<Rightarrow> h\<lparr> pg_store := fst (save (pg_store h) pos) \<rparr>)"

definition handleCommit :: "('h, 'st) PGDeps \<Rightarrow> ('h, 'st) PGOutputHandler \<Rightarrow> uint64 \<Rightarrow> gotime \<Rightarrow> ('h, 'st) PGOutputHandler" where
  "handleCommit deps h commitLSN commitTime =
     (let pos = Position_zero\<lparr> pos_LSN := commitLSN, pos_CommitTime := commitTime \<rparr>;
          h = pg_savePosition deps pos (h\<lparr> pg_position := Some pos \<rparr>)
      in h\<lparr> pg_tx := None \<rparr>)"

text \<open>
  Sending an event: with a nil context the method call in the \<^verbatim>\<open>select\<close> panics. Otherwise the outcome is
  one of the three cases.
\<close>

datatype pg_out = PgSent | PgCtxDone err | PgStopped

definition pg_sendEvent :: "pg_out \<Rightarrow> ('h, 'st) PGOutputHandler \<Rightarrow> ChangeEvent \<Rightarrow> ('h, 'st) PGOutputHandler \<times> err option" where
  "pg_sendEvent out h ev =
     (case pg_ctx h of
        None \<Rightarrow> (h, Some (Panic ''nil pointer dereference''))
      | Some _ \<Rightarrow>
          (case out of
             PgSent \<Rightarrow> (h\<lparr> pg_events := pg_events h @ [ev] \<rparr>, None)
           | PgCtxDone e \<Rightarrow> (h, Some e)
           | PgStopped \<Rightarrow> (h, Some (Errorf ''connector stopped''))))"

definition pg_source :: "string \<Rightarrow> SourceInfo" where
  "pg_source database = SourceInfo_zero\<lparr> src_Connector := ''postgres'', src_Database := database \<rparr>"

text \<open>The event of a message: three calls of \<^verbatim>\<open>time.Now\<close>, for the identifier, the time and the position.\<close>

definition pg_event ::
  "(gotime \<Rightarrow> string) \<Rightarrow> (nat \<Rightarrow> gotime) \<Rightarrow> ('h, 'st) PGOutputHandler \<Rightarrow> uint32 \<Rightarrow> EventType \<Rightarrow> TableInfo \<Rightarrow> RowData \<Rightarrow> RowData \<Rightarrow> ChangeEvent" where
  "pg_event Format now h relID typ tableInfo before after =
     \<lparr> ev_ID = GenerateEventID Format (pg_source []) (now 0) (uint relID), ev_Source = pg_source (pg_Database h), ev_Type = typ,
       ev_Position = Position_zero\<lparr> pos_LSN := pg_currentLSN h, pos_CommitTime := now 2 \<rparr>, ev_Table = tableInfo,
       ev_Before = before, ev_After = after, ev_Timestamp = now 1, ev_Transaction = None, ev_Schema = None, ev_Metadata = None \<rparr>"

text \<open>
  \<^verbatim>\<open>applySchemaChange\<close>: the definition that results (the parser's, if it gives one), its entry in the
  tables, in the history and in the store, and the DDL event.
\<close>

definition change_type :: "TableInfo option \<Rightarrow> string" where
  "change_type oldTable = (if oldTable = None then ''CREATE'' else ''ALTER'')"

definition change_text :: "TableInfo option \<Rightarrow> RelationMessage \<Rightarrow> string" where
  "change_text oldTable msg =
     ''-- '' @ change_type oldTable @ '' TABLE detected via relation message: '' @ rm_Namespace msg @ ''.'' @ rm_RelationName msg"

definition change_result :: "DDLResult option res \<Rightarrow> TableInfo \<Rightarrow> TableInfo" where
  "change_result applied newTable =
     (case applied of
        Inr (Some r) \<Rightarrow> (case dres_NewTableInfo r of Some ti \<Rightarrow> ti | None \<Rightarrow> newTable)
      | _ \<Rightarrow> newTable)"

definition record_change ::
  "('h, 'st) PGDeps \<Rightarrow> gotime \<Rightarrow> Position \<Rightarrow> ('h, 'st) PGOutputHandler \<Rightarrow> TableInfo option \<Rightarrow> TableInfo \<Rightarrow> RelationMessage \<Rightarrow> ('h, 'st) PGOutputHandler" where
  "record_change deps now pos h oldTable resultTableInfo msg =
     (let h = h\<lparr> pg_tables := map_option (\<lambda>ts. Tables_Put ts resultTableInfo) (pg_tables h) \<rparr>;
          h = (case pd_record deps of
                 None \<Rightarrow> h
               | Some rec \<Rightarrow> h\<lparr> pg_history := fst (rec (pg_history h)
                   (BuildSchemaHistoryRecord pos (pg_Database h) (rm_Namespace msg) (rm_RelationName msg) (change_text oldTable msg)
                      (Some resultTableInfo) (change_type oldTable) now)) \<rparr>)
      in pg_savePosition deps pos h)"

definition change_event ::
  "(gotime \<Rightarrow> string) \<Rightarrow> gotime \<Rightarrow> gotime \<Rightarrow> Position \<Rightarrow> string \<Rightarrow> TableInfo option \<Rightarrow> RelationMessage \<Rightarrow> ChangeEvent" where
  "change_event Format now1 now2 pos dbName oldTable msg =
     \<lparr> ev_ID = GenerateEventID Format (pg_source []) now1 (uint (rm_RelationID msg)),
       ev_Source = pg_source dbName, ev_Type = EventTypeDDL, ev_Position = pos,
       ev_Table = TableInfo_zero\<lparr> ti_Database := dbName, ti_Schema := rm_Namespace msg, ti_Table := rm_RelationName msg \<rparr>,
       ev_Before = RowData_zero, ev_After = RowData_zero, ev_Timestamp = now2, ev_Transaction = None, ev_Schema = None,
       ev_Metadata = Some [(''ddl'', change_text oldTable msg), (''ddlType'', change_type oldTable), (''ddlDatabase'', dbName),
         (''ddlTable'', rm_RelationName msg), (''ddlStatement'', change_text oldTable msg)] \<rparr>"

definition applySchemaChange ::
  "('h, 'st) PGDeps \<Rightarrow> (nat \<Rightarrow> gotime) \<Rightarrow> pg_out \<Rightarrow> ('h, 'st) PGOutputHandler \<Rightarrow> TableInfo option \<Rightarrow> TableInfo \<Rightarrow> RelationMessage
     \<Rightarrow> ('h, 'st) PGOutputHandler \<times> err option" where
  "applySchemaChange deps now out h oldTable newTable msg =
     (let pos = Position_zero\<lparr> pos_LSN := pg_currentLSN h, pos_CommitTime := now 0 \<rparr>;
          applied = (case pd_applyDDL deps of None \<Rightarrow> Inr None | Some applyDDL \<Rightarrow> applyDDL oldTable (change_text oldTable msg)) in
      case applied of
        Inl (Panic m) \<Rightarrow> (h, Some (Panic m))
      | _ \<Rightarrow>
        let h = record_change deps (now 1) pos h oldTable (change_result applied newTable) msg in
        case pg_ctx h of
          None \<Rightarrow> (h, Some (Panic ''nil pointer dereference''))
        | Some _ \<Rightarrow> (case out of
            PgSent \<Rightarrow> (h\<lparr> pg_events := pg_events h @ [change_event (pd_Format deps) (now 2) (now 3) pos (pg_Database h) oldTable msg] \<rparr>, None)
          | _ \<Rightarrow> (h, None)))"

definition handleRelation ::
  "('h, 'st) PGDeps \<Rightarrow> (nat \<Rightarrow> gotime) \<Rightarrow> pg_out \<Rightarrow> ('h, 'st) PGOutputHandler \<Rightarrow> RelationMessage \<Rightarrow> ('h, 'st) PGOutputHandler \<times> err option" where
  "handleRelation deps now out h msg =
     (let h = h\<lparr> pg_relations := AList.update (rm_RelationID msg) msg (pg_relations h) \<rparr>;
          tableInfo = buildTableInfo (pg_Database h) msg;
          key = rm_Namespace msg @ ''.'' @ rm_RelationName msg;
          h = h\<lparr> pg_schemaCache := AList.update key tableInfo (pg_schemaCache h) \<rparr> in
      case pg_tables h of
        None \<Rightarrow> (h, None)
      | Some ts \<Rightarrow>
          (case Tables_Get ts (pg_Database h) (rm_RelationName msg) of
             Some oldTable \<Rightarrow>
               if \<not> tableSchemasEqual (Some oldTable) (Some tableInfo)
               then applySchemaChange deps now out h (Some oldTable) tableInfo msg
               else (h, None)
           | None \<Rightarrow> applySchemaChange deps now out h None tableInfo msg))"

definition getTableInfo :: "('h, 'st) PGOutputHandler \<Rightarrow> RelationMessage \<Rightarrow> TableInfo" where
  "getTableInfo h relation =
     (case (case pg_tables h of None \<Rightarrow> None | Some ts \<Rightarrow> Tables_Get ts (pg_Database h) (rm_RelationName relation)) of
        Some info \<Rightarrow> info
      | None \<Rightarrow> buildTableInfo (pg_Database h) relation)"

definition unknown_relation :: "uint32 \<Rightarrow> err" where
  "unknown_relation relID = Errorf (''unknown relation ID: '' @ nat_decimal (unat relID))"

definition handleInsert ::
  "('h, 'st) PGDeps \<Rightarrow> (nat \<Rightarrow> gotime) \<Rightarrow> pg_out \<Rightarrow> ('h, 'st) PGOutputHandler \<Rightarrow> uint32 \<Rightarrow> TupleData \<Rightarrow> ('h, 'st) PGOutputHandler \<times> err option" where
  "handleInsert deps now out h relID tuple =
     (case map_of (pg_relations h) relID of
        None \<Rightarrow> (h, Some (unknown_relation relID))
      | Some relation \<Rightarrow>
          if \<not> pg_shouldCapture h (rm_Namespace relation) (rm_RelationName relation) then (h, None)
          else pg_sendEvent out h (pg_event (pd_Format deps) now h relID EventTypeInsert (getTableInfo h relation) RowData_zero
                 (pg_buildRowData relation tuple)))"

definition opt_row :: "RelationMessage \<Rightarrow> TupleData option \<Rightarrow> RowData" where
  "opt_row relation tuple = (case tuple of None \<Rightarrow> RowData_zero | Some t \<Rightarrow> pg_buildRowData relation t)"

definition handleUpdate ::
  "('h, 'st) PGDeps \<Rightarrow> (nat \<Rightarrow> gotime) \<Rightarrow> pg_out \<Rightarrow> ('h, 'st) PGOutputHandler \<Rightarrow> uint32 \<Rightarrow> TupleData option \<Rightarrow> TupleData option
     \<Rightarrow> ('h, 'st) PGOutputHandler \<times> err option" where
  "handleUpdate deps now out h relID oldTuple newTuple =
     (case map_of (pg_relations h) relID of
        None \<Rightarrow> (h, Some (unknown_relation relID))
      | Some relation \<Rightarrow>
          if \<not> pg_shouldCapture h (rm_Namespace relation) (rm_RelationName relation) then (h, None)
          else pg_sendEvent out h (pg_event (pd_Format deps) now h relID EventTypeUpdate (getTableInfo h relation)
                 (opt_row relation oldTuple) (opt_row relation newTuple)))"

definition handleDelete ::
  "('h, 'st) PGDeps \<Rightarrow> (nat \<Rightarrow> gotime) \<Rightarrow> pg_out \<Rightarrow> ('h, 'st) PGOutputHandler \<Rightarrow> uint32 \<Rightarrow> TupleData option
     \<Rightarrow> ('h, 'st) PGOutputHandler \<times> err option" where
  "handleDelete deps now out h relID oldTuple =
     (case map_of (pg_relations h) relID of
        None \<Rightarrow> (h, Some (unknown_relation relID))
      | Some relation \<Rightarrow>
          if \<not> pg_shouldCapture h (rm_Namespace relation) (rm_RelationName relation) then (h, None)
          else pg_sendEvent out h (pg_event (pd_Format deps) now h relID EventTypeDelete (getTableInfo h relation)
                 (opt_row relation oldTuple) RowData_zero))"

fun handleTruncate ::
  "('h, 'st) PGDeps \<Rightarrow> (nat \<Rightarrow> gotime) \<Rightarrow> (nat \<Rightarrow> pg_out) \<Rightarrow> nat \<Rightarrow> ('h, 'st) PGOutputHandler \<Rightarrow> uint32 list
     \<Rightarrow> ('h, 'st) PGOutputHandler \<times> err option" where
  "handleTruncate deps now outs i h [] = (h, None)"
| "handleTruncate deps now outs i h (relID # relIDs) =
     (case map_of (pg_relations h) relID of
        None \<Rightarrow> handleTruncate deps now outs (Suc i) h relIDs
      | Some relation \<Rightarrow>
          if \<not> pg_shouldCapture h (rm_Namespace relation) (rm_RelationName relation) then handleTruncate deps now outs (Suc i) h relIDs
          else case pg_sendEvent (outs i) h (pg_event (pd_Format deps) (\<lambda>k. now (3 * i + k)) h relID EventTypeTruncate
                      (buildTableInfo (pg_Database h) relation) RowData_zero RowData_zero) of
                 (h, Some e) \<Rightarrow> (h, Some e)
               | (h, None) \<Rightarrow> handleTruncate deps now outs (Suc i) h relIDs)"

definition HandleMessage ::
  "('h, 'st) PGDeps \<Rightarrow> (nat \<Rightarrow> gotime) \<Rightarrow> (nat \<Rightarrow> pg_out) \<Rightarrow> ('h, 'st) PGOutputHandler \<Rightarrow> pg_message \<Rightarrow> ('h, 'st) PGOutputHandler \<times> err option" where
  "HandleMessage deps now outs h msg =
     (case msg of
        BeginMessage finalLSN xid \<Rightarrow> (h\<lparr> pg_tx := Some (finalLSN, xid) \<rparr>, None)
      | CommitMessage lsn t \<Rightarrow> (handleCommit deps h lsn t, None)
      | RelationMsg r \<Rightarrow> handleRelation deps now (outs 0) h r
      | InsertMessage relID tuple \<Rightarrow> handleInsert deps now (outs 0) h relID tuple
      | UpdateMessage relID old new \<Rightarrow> handleUpdate deps now (outs 0) h relID old new
      | DeleteMessage relID old \<Rightarrow> handleDelete deps now (outs 0) h relID old
      | TruncateMessage relIDs \<Rightarrow> handleTruncate deps now outs 0 h relIDs
      | IgnoredMessage \<Rightarrow> (h, None))"

text \<open>
  The connector's loop: \<^verbatim>\<open>receiveMessage\<close> sets the current LSN to the end of the data it has received,
  then the message is handled; an error is reported and the loop goes on, a panic ends it.
\<close>

fun pg_run ::
  "('h, 'st) PGDeps \<Rightarrow> (uint64 \<times> (nat \<Rightarrow> gotime) \<times> (nat \<Rightarrow> pg_out) \<times> pg_message) list \<Rightarrow> ('h, 'st) PGOutputHandler \<Rightarrow> err list
     \<Rightarrow> ('h, 'st) PGOutputHandler \<times> err list" where
  "pg_run deps [] h errs = (h, errs)"
| "pg_run deps ((lsn, now, outs, msg) # ins) h errs =
     (case HandleMessage deps now outs (h\<lparr> pg_currentLSN := lsn \<rparr>) msg of
        (h, None) \<Rightarrow> pg_run deps ins h errs
      | (h, Some (Panic m)) \<Rightarrow> (h, errs @ [Panic m])
      | (h, Some e) \<Rightarrow> pg_run deps ins h (errs @ [e]))"

section \<open>Every captured row is streamed\<close>

text \<open>
  What a message should give, from the relations announced so far: the kind, the two row images and
  the LSN of every event, the error that is reported, and the position.
\<close>

type_synonym pg_row = "EventType \<times> RowData \<times> RowData \<times> uint64"

definition pg_row_of :: "ChangeEvent \<Rightarrow> pg_row" where
  "pg_row_of e = (ev_Type e, ev_Before e, ev_After e, pos_LSN (ev_Position e))"

definition data_rows :: "ChangeEvent list \<Rightarrow> pg_row list" where
  "data_rows evs = map pg_row_of (filter (\<lambda>e. \<not> IsDDL e) evs)"

definition for_relation ::
  "(string \<Rightarrow> string \<Rightarrow> bool) \<Rightarrow> (uint32, RelationMessage) gomap \<Rightarrow> uint32 \<Rightarrow> (RelationMessage \<Rightarrow> pg_row) \<Rightarrow> pg_row list" where
  "for_relation cap rels relID mk =
     (case map_of rels relID of
        None \<Rightarrow> []
      | Some r \<Rightarrow> if cap (rm_Namespace r) (rm_RelationName r) then [mk r] else [])"

fun message_rows :: "(string \<Rightarrow> string \<Rightarrow> bool) \<Rightarrow> (uint32, RelationMessage) gomap \<Rightarrow> uint64 \<Rightarrow> pg_message \<Rightarrow> pg_row list" where
  "message_rows cap rels lsn (InsertMessage i t) =
     for_relation cap rels i (\<lambda>r. (EventTypeInsert, RowData_zero, pg_buildRowData r t, lsn))"
| "message_rows cap rels lsn (UpdateMessage i old new) =
     for_relation cap rels i (\<lambda>r. (EventTypeUpdate, opt_row r old, opt_row r new, lsn))"
| "message_rows cap rels lsn (DeleteMessage i old) =
     for_relation cap rels i (\<lambda>r. (EventTypeDelete, opt_row r old, RowData_zero, lsn))"
| "message_rows cap rels lsn (TruncateMessage is) =
     concat (map (\<lambda>i. for_relation cap rels i (\<lambda>r. (EventTypeTruncate, RowData_zero, RowData_zero, lsn))) is)"
| "message_rows cap rels lsn _ = []"

fun message_error :: "(uint32, RelationMessage) gomap \<Rightarrow> pg_message \<Rightarrow> err option" where
  "message_error rels (InsertMessage i _) = (if map_of rels i = None then Some (unknown_relation i) else None)"
| "message_error rels (UpdateMessage i _ _) = (if map_of rels i = None then Some (unknown_relation i) else None)"
| "message_error rels (DeleteMessage i _) = (if map_of rels i = None then Some (unknown_relation i) else None)"
| "message_error rels _ = None"

fun rels_after :: "(uint32, RelationMessage) gomap \<Rightarrow> pg_message \<Rightarrow> (uint32, RelationMessage) gomap" where
  "rels_after rels (RelationMsg r) = AList.update (rm_RelationID r) r rels"
| "rels_after rels _ = rels"

fun pos_after :: "Position option \<Rightarrow> pg_message \<Rightarrow> Position option" where
  "pos_after p (CommitMessage lsn t) = Some (Position_zero\<lparr> pos_LSN := lsn, pos_CommitTime := t \<rparr>)"
| "pos_after p _ = p"

fun pg_spec ::
  "(string \<Rightarrow> string \<Rightarrow> bool) \<Rightarrow> (uint64 \<times> pg_message) list \<Rightarrow> (uint32, RelationMessage) gomap \<times> pg_row list \<times> err list \<times> Position option
     \<Rightarrow> (uint32, RelationMessage) gomap \<times> pg_row list \<times> err list \<times> Position option" where
  "pg_spec cap [] st = st"
| "pg_spec cap ((lsn, msg) # ms) (rels, rows, errs, p) =
     pg_spec cap ms (rels_after rels msg, rows @ message_rows cap rels lsn msg,
       errs @ (case message_error rels msg of None \<Rightarrow> [] | Some e \<Rightarrow> [e]), pos_after p msg)"

text \<open>The parser does not panic.\<close>

definition parser_calm :: "('h, 'st) PGDeps \<Rightarrow> bool" where
  "parser_calm deps = (\<forall>f t q m. pd_applyDDL deps = Some f \<longrightarrow> f t q \<noteq> Inl (Panic m))"

definition same_config :: "('h, 'st) PGOutputHandler \<Rightarrow> ('h, 'st) PGOutputHandler \<Rightarrow> bool" where
  "same_config h h' =
     (pg_ctx h' = pg_ctx h \<and> pg_Database h' = pg_Database h \<and> pg_Schemas h' = pg_Schemas h \<and> pg_Tables h' = pg_Tables h)"

lemma same_config_refl [simp]: "same_config h h" by (simp add: same_config_def)
lemma same_config_trans: "same_config a b \<Longrightarrow> same_config b c \<Longrightarrow> same_config a c" by (simp add: same_config_def)

lemma same_config_capture: "same_config h h' \<Longrightarrow> pg_shouldCapture h' = pg_shouldCapture h"
  by (intro ext) (simp add: same_config_def pg_shouldCapture_def)

lemma pg_savePosition_simps [simp]:
  "pg_ctx (pg_savePosition deps pos h) = pg_ctx h" "pg_relations (pg_savePosition deps pos h) = pg_relations h"
  "pg_Database (pg_savePosition deps pos h) = pg_Database h" "pg_Schemas (pg_savePosition deps pos h) = pg_Schemas h"
  "pg_Tables (pg_savePosition deps pos h) = pg_Tables h" "pg_position (pg_savePosition deps pos h) = pg_position h"
  "pg_events (pg_savePosition deps pos h) = pg_events h" "pg_tables (pg_savePosition deps pos h) = pg_tables h"
  by (auto simp: pg_savePosition_def split: option.split)

lemma data_rows_append [simp]: "data_rows (a @ b) = data_rows a @ data_rows b"
  by (simp add: data_rows_def)

lemma data_rows_event:
  "typ \<noteq> EventTypeDDL \<Longrightarrow> data_rows [pg_event F now h i typ ti b a] = [(typ, b, a, pg_currentLSN h)]"
  by (simp add: data_rows_def pg_row_of_def IsDDL_def pg_event_def)

text \<open>A detected change of a schema sends at most one DDL event and touches neither rows nor relations.\<close>

lemma record_change_simps [simp]:
  "pg_ctx (record_change deps now pos h old ti msg) = pg_ctx h" "pg_relations (record_change deps now pos h old ti msg) = pg_relations h"
  "same_config h' (record_change deps now pos h old ti msg) = same_config h' h"
  "pg_position (record_change deps now pos h old ti msg) = pg_position h"
  "pg_events (record_change deps now pos h old ti msg) = pg_events h"
  "pg_tables (record_change deps now pos h old ti msg) = map_option (\<lambda>ts. Tables_Put ts ti) (pg_tables h)"
  "pg_Database (record_change deps now pos h old ti msg) = pg_Database h"
  by (auto simp: record_change_def Let_def same_config_def split: option.split)

lemma applySchemaChange_calm:
  assumes "pg_ctx h = Some c" "parser_calm deps"
  shows "\<exists>pos applied. applied = (case pd_applyDDL deps of None \<Rightarrow> Inr None | Some f \<Rightarrow> f old (change_text old msg))
    \<and> applySchemaChange deps now PgSent h old new msg
      = ((record_change deps (now 1) pos h old (change_result applied new) msg)\<lparr> pg_events := pg_events h
           @ [change_event (pd_Format deps) (now 2) (now 3) pos (pg_Database h) old msg] \<rparr>, None)"
proof -
  define applied where "applied = (case pd_applyDDL deps of None \<Rightarrow> Inr None | Some f \<Rightarrow> f old (change_text old msg))"
  have calm: "applied \<noteq> Inl (Panic m)" for m
    using assms(2) by (auto simp: parser_calm_def applied_def split: option.split)
  show ?thesis unfolding applySchemaChange_def applied_def [symmetric] Let_def using calm assms(1)
    by (cases applied) (auto split: err.split)
qed

lemma applySchemaChange_frame:
  assumes "pg_ctx h = Some c" "parser_calm deps"
  shows "\<exists>h'. applySchemaChange deps now PgSent h old new msg = (h', None) \<and> same_config h h' \<and> pg_relations h' = pg_relations h
    \<and> pg_position h' = pg_position h \<and> data_rows (pg_events h') = data_rows (pg_events h)"
proof -
  have ddl: "data_rows [change_event F n1 n2 pos db old msg] = []" for F n1 n2 pos db
    by (simp add: data_rows_def IsDDL_def change_event_def)
  obtain pos ti where "applySchemaChange deps now PgSent h old new msg
    = ((record_change deps (now 1) pos h old ti msg)\<lparr> pg_events := pg_events h
           @ [change_event (pd_Format deps) (now 2) (now 3) pos (pg_Database h) old msg] \<rparr>, None)"
    using applySchemaChange_calm [OF assms] by blast
  moreover have "same_config h ((record_change deps (now 1) pos h old ti msg)\<lparr> pg_events := evs \<rparr>)" for evs
    using record_change_simps(3) [of h deps "now 1" pos h old ti msg] by (simp add: same_config_def)
  ultimately show ?thesis by (simp add: ddl)
qed

lemma handleRelation_frame:
  assumes "pg_ctx h = Some c" "parser_calm deps"
  shows "\<exists>h'. handleRelation deps now PgSent h r = (h', None) \<and> same_config h h'
    \<and> pg_relations h' = AList.update (rm_RelationID r) r (pg_relations h)
    \<and> pg_position h' = pg_position h \<and> data_rows (pg_events h') = data_rows (pg_events h)"
proof -
  let ?h = "h\<lparr> pg_relations := AList.update (rm_RelationID r) r (pg_relations h),
    pg_schemaCache := AList.update (rm_Namespace r @ ''.'' @ rm_RelationName r) (buildTableInfo (pg_Database h) r) (pg_schemaCache h) \<rparr>"
  have ctx: "pg_ctx ?h = Some c" using assms(1) by simp
  have "handleRelation deps now PgSent h r = (?h, None)
    \<or> (\<exists>old. handleRelation deps now PgSent h r = applySchemaChange deps now PgSent ?h old (buildTableInfo (pg_Database h) r) r)"
    by (auto simp: handleRelation_def Let_def split: option.split)
  then show ?thesis
  proof (elim disjE exE)
    assume "handleRelation deps now PgSent h r = (?h, None)"
    then show ?thesis by (simp add: same_config_def)
  next
    fix old
    assume e: "handleRelation deps now PgSent h r = applySchemaChange deps now PgSent ?h old (buildTableInfo (pg_Database h) r) r"
    from applySchemaChange_frame [OF ctx assms(2), of now old "buildTableInfo (pg_Database h) r" r] e show ?thesis
      by (auto simp: same_config_def)
  qed
qed

lemma handleTruncate_frame:
  assumes "pg_ctx h = Some c"
  shows "\<exists>h'. handleTruncate deps now (\<lambda>_. PgSent) i h is = (h', None) \<and> same_config h h' \<and> pg_relations h' = pg_relations h
    \<and> pg_position h' = pg_position h \<and> pg_currentLSN h' = pg_currentLSN h
    \<and> data_rows (pg_events h') = data_rows (pg_events h) @ message_rows (pg_shouldCapture h) (pg_relations h) (pg_currentLSN h) (TruncateMessage is)"
  using assms
proof (induction "is" arbitrary: i h)
  case (Cons relID ids)
  show ?case
  proof (cases "\<exists>r. map_of (pg_relations h) relID = Some r \<and> pg_shouldCapture h (rm_Namespace r) (rm_RelationName r)")
    case False
    then have "handleTruncate deps now (\<lambda>_. PgSent) i h (relID # ids) = handleTruncate deps now (\<lambda>_. PgSent) (Suc i) h ids"
      "for_relation (pg_shouldCapture h) (pg_relations h) relID (\<lambda>r. (EventTypeTruncate, RowData_zero, RowData_zero, pg_currentLSN h)) = []"
      by (auto simp: for_relation_def split: option.split)
    then show ?thesis using Cons.IH [OF Cons.prems, of "Suc i"] by simp
  next
    case True
    then obtain r where r: "map_of (pg_relations h) relID = Some r" "pg_shouldCapture h (rm_Namespace r) (rm_RelationName r)" by blast
    define e where "e = pg_event (pd_Format deps) (\<lambda>k. now (3 * i + k)) h relID EventTypeTruncate (buildTableInfo (pg_Database h) r) RowData_zero RowData_zero"
    let ?h = "h\<lparr> pg_events := pg_events h @ [e] \<rparr>"
    have step: "handleTruncate deps now (\<lambda>_. PgSent) i h (relID # ids) = handleTruncate deps now (\<lambda>_. PgSent) (Suc i) ?h ids"
      using r Cons.prems by (simp add: pg_sendEvent_def e_def)
    have cfg: "same_config h ?h" by (simp add: same_config_def)
    have "data_rows [e] = [(EventTypeTruncate, RowData_zero, RowData_zero, pg_currentLSN h)]" by (simp add: e_def data_rows_event)
    moreover have "pg_ctx ?h = Some c" using Cons.prems by simp
    from Cons.IH [OF this, of "Suc i"] same_config_capture [OF cfg]
    have "\<exists>h'. handleTruncate deps now (\<lambda>_. PgSent) (Suc i) ?h ids = (h', None) \<and> same_config ?h h' \<and> pg_relations h' = pg_relations h
      \<and> pg_position h' = pg_position h \<and> pg_currentLSN h' = pg_currentLSN h
      \<and> data_rows (pg_events h') = data_rows (pg_events ?h) @ message_rows (pg_shouldCapture h) (pg_relations h) (pg_currentLSN h) (TruncateMessage ids)"
      by simp
    ultimately show ?thesis using step r cfg by (auto simp: for_relation_def intro: same_config_trans)
  qed
qed simp

lemma send_frame:
  assumes "pg_ctx h = Some c" "typ \<noteq> EventTypeDDL"
  shows "\<exists>h'. pg_sendEvent PgSent h (pg_event F now h i typ ti b a) = (h', None) \<and> same_config h h' \<and> pg_relations h' = pg_relations h
    \<and> pg_position h' = pg_position h \<and> data_rows (pg_events h') = data_rows (pg_events h) @ [(typ, b, a, pg_currentLSN h)]"
  using assms by (simp add: pg_sendEvent_def same_config_def data_rows_event)

lemma HandleMessage_frame:
  assumes "pg_ctx h = Some c" "parser_calm deps"
  shows "\<exists>h'. HandleMessage deps now (\<lambda>_. PgSent) h msg = (h', message_error (pg_relations h) msg) \<and> same_config h h'
    \<and> pg_relations h' = rels_after (pg_relations h) msg \<and> pg_position h' = pos_after (pg_position h) msg
    \<and> data_rows (pg_events h') = data_rows (pg_events h) @ message_rows (pg_shouldCapture h) (pg_relations h) (pg_currentLSN h) msg"
proof (cases msg)
  case (RelationMsg r)
  then show ?thesis using handleRelation_frame [OF assms, of now r] by (auto simp: HandleMessage_def)
next
  case (TruncateMessage ids)
  then show ?thesis using handleTruncate_frame [OF assms(1), of deps now 0 ids] by (auto simp: HandleMessage_def)
next
  case (InsertMessage i t)
  show ?thesis using send_frame [OF assms(1), of EventTypeInsert] InsertMessage
    by (cases "map_of (pg_relations h) i") (auto simp: HandleMessage_def handleInsert_def for_relation_def)
next
  case (UpdateMessage i old new)
  show ?thesis using send_frame [OF assms(1), of EventTypeUpdate] UpdateMessage
    by (cases "map_of (pg_relations h) i") (auto simp: HandleMessage_def handleUpdate_def for_relation_def)
next
  case (DeleteMessage i old)
  show ?thesis using send_frame [OF assms(1), of EventTypeDelete] DeleteMessage
    by (cases "map_of (pg_relations h) i") (auto simp: HandleMessage_def handleDelete_def for_relation_def)
qed (auto simp: HandleMessage_def handleCommit_def same_config_def Let_def)


definition wit_conn :: "(unit, unit) PGOutputHandler" where
  "wit_conn =
     \<lparr> pg_ctx = Some None, pg_relations = [], pg_tx = None, pg_Database = ''db'', pg_Schemas = [''public''], pg_Tables = [],
       pg_position = None, pg_schemaCache = [], pg_tables = Some [], pg_history = (), pg_store = (), pg_currentLSN = 0,
       pg_events = [] \<rparr>"

definition wit_pdeps :: "(unit, unit) PGDeps" where
  "wit_pdeps = \<lparr> pd_applyDDL = None, pd_record = None, pd_savePos = None, pd_Format = (\<lambda>_. []) \<rparr>"

definition wit_rel :: RelationMessage where
  "wit_rel = \<lparr> rm_RelationID = 9, rm_Namespace = ''public'', rm_RelationName = ''t'',
     rm_Columns = [\<lparr> rc_Flags = 1, rc_Name = ''id'', rc_DataType = 25 \<rparr>] \<rparr>"


section \<open>What the handler loses\<close>



text \<open>
  The handler that the connector makes panics at the first captured row. \<^verbatim>\<open>NewPGOutputHandler\<close> leaves
  the context nil, and sending an event asks it for its channel: an insert, update or delete of a
  captured relation, and a relation message about a new table, all end in a nil dereference, and the
  loop of the connector with them.
\<close>

theorem pg_new_handler_panics:
  assumes "h = (NewPGOutputHandler connector)\<lparr> pg_relations := rels \<rparr>"
    and "map_of rels i = Some r" "pg_shouldCapture h (rm_Namespace r) (rm_RelationName r)"
    and "msg = InsertMessage i t \<or> msg = UpdateMessage i old new \<or> msg = DeleteMessage i old"
  shows "pg_run deps ((lsn, now, outs, msg) # ins) h errs = (h\<lparr> pg_currentLSN := lsn \<rparr>, errs @ [Panic ''nil pointer dereference''])"
proof -
  have cap: "pg_shouldCapture (h\<lparr> pg_currentLSN := lsn \<rparr>) (rm_Namespace r) (rm_RelationName r)"
    using assms(3) by (simp add: pg_shouldCapture_def)
  have ctx: "pg_ctx (h\<lparr> pg_currentLSN := lsn \<rparr>) = None" "map_of (pg_relations (h\<lparr> pg_currentLSN := lsn \<rparr>)) i = Some r"
    using assms(1,2) by (simp_all add: NewPGOutputHandler_def)
  have "HandleMessage deps now outs (h\<lparr> pg_currentLSN := lsn \<rparr>) msg = (h\<lparr> pg_currentLSN := lsn \<rparr>, Some (Panic ''nil pointer dereference''))"
    using assms(4) cap ctx by (auto simp: HandleMessage_def handleInsert_def handleUpdate_def handleDelete_def pg_sendEvent_def)
  then show ?thesis by simp
qed

theorem pg_new_handler_panics_witness:
  "snd (pg_run wit_pdeps [(1, \<lambda>_. 0, \<lambda>_. PgSent, InsertMessage 9 [])] ((NewPGOutputHandler wit_conn)\<lparr> pg_relations := [(9, wit_rel)] \<rparr>) [])
     = [Panic ''nil pointer dereference'']"
  using pg_new_handler_panics [OF refl, of "[(9, wit_rel)]" 9 wit_rel wit_conn "InsertMessage 9 []" "[]" None None wit_pdeps 1 "\<lambda>_. 0" "\<lambda>_. PgSent" "[]" "[]"]
  by (simp add: pg_shouldCapture_def NewPGOutputHandler_def wit_conn_def wit_rel_def)

text \<open>
  In the protocol a column's flags are 0, or 1 for a column of the key. The handler takes that bit
  for the absence of nulls and looks for the key in another one, so no table has a primary key, and
  the columns of the key are those that may not be null.
\<close>

lemma pg_keys_never_found:
  assumes "list_all (\<lambda>c. rc_Flags c = 0 \<or> rc_Flags c = 1) (rm_Columns r)"
  shows "ti_PrimaryKeyColumns (buildTableInfo db r) = []
    \<and> map ci_Nullable (ti_Columns (buildTableInfo db r)) = map (\<lambda>c. rc_Flags c = 0) (rm_Columns r)"
  using assms by (auto simp: buildTableInfo_def list_all_iff filter_empty_conv)

text \<open>A double is converted as an integer: the eight bytes of 1.5 give another number.\<close>

lemma float8_wrong: "decodeBinaryValue [0x3F, 0xF8, 0, 0, 0, 0, 0, 0] 701 \<noteq> VFloat 0x3FF8000000000000"
proof -
  have "Uint64 [0x3F, 0xF8, 0, 0, 0, 0, 0, 0] = 0x3FF8000000000000" by (simp add: Uint64_def)
  moreover have "bit_length 4609434218613702656 = 62" by (simp add: bit_length.simps)
  ultimately show ?thesis by (simp add: decodeBinaryValue_def float64FromBits_def float64_of_nat_def round_bits_def Let_def)
qed

text \<open>
  The tables are kept by database and table name: relations of the same name in two schemas share one
  entry, and the rows of one are sent with the definition of the other.
\<close>

lemma same_name_shares_table:
  assumes "rm_RelationName r = rm_RelationName r'" "pg_tables h = Some ts" "Tables_Get ts (pg_Database h) (rm_RelationName r) = Some ti"
  shows "getTableInfo h r' = ti"
  using assms by (simp add: getTableInfo_def)

text \<open>An unchanged large value is sent as nil.\<close>

lemma toast_is_nil: "pg_value col (TupleDataTypeToast, d) = VNil"
  by (simp add: pg_value_def)

end
