(* ===== verification/Filter_Router.thy ===== *)
theory Filter_Router
  imports Pipelines
begin

section \<open>Filters and routers (internal/filter, internal/router)\<close>

text \<open>
  The filters (filter.go, rule.go, expression.go) and the routers (table.go, partition.go). The
  closures that the expression parser builds are functions from events to results. What depends on the
  dynamic Go type of a value or on floating-point arithmetic is a field of the environment \<open>env\<close>:
  \<^verbatim>\<open>reflect.DeepEqual\<close> (which tells integers of different types apart), the conversion to \<^verbatim>\<open>float64\<close> with
  its error, the scanning of a \<^verbatim>\<open>%f\<close>, the comparison of two numbers and the verb \<^verbatim>\<open>%v\<close>. Regular expressions
  are its fields too: \<open>fe_compile\<close> gives the error of a pattern, \<open>fe_match\<close> is \<^verbatim>\<open>MatchString\<close>.
\<close>

record FilterEnv =
  fe_deepEqual :: "gval \<Rightarrow> gval \<Rightarrow> bool"
  fe_toFloat64 :: "gval \<Rightarrow> uint64 res"
  fe_scanFloat :: "string \<Rightarrow> uint64 res"
  fe_less :: "uint64 \<Rightarrow> uint64 \<Rightarrow> bool"
  fe_feq :: "uint64 \<Rightarrow> uint64 \<Rightarrow> bool"
  fe_Sprint :: "gval \<Rightarrow> string"
  fe_compile :: "string \<Rightarrow> err option"
  fe_match :: "string \<Rightarrow> string \<Rightarrow> bool"

fun EventType_text :: "EventType \<Rightarrow> string" where
  "EventType_text EventTypeInsert = ''insert''"
| "EventType_text EventTypeUpdate = ''update''"
| "EventType_text EventTypeDelete = ''delete''"
| "EventType_text EventTypeTruncate = ''truncate''"
| "EventType_text EventTypeDDL = ''ddl''"
| "EventType_text EventTypeHeartbeat = ''heartbeat''"
| "EventType_text EventTypeTombstone = ''tombstone''"

subsection \<open>Filter chains (filter.go)\<close>

type_synonym Filter = "ChangeEvent \<Rightarrow> bool res"

fun FilterChain_Filter :: "Filter list \<Rightarrow> Filter" where
  "FilterChain_Filter [] e = Inr True"
| "FilterChain_Filter (f # fs) e =
     (case f e of
        Inl er \<Rightarrow> Inl er
      | Inr pass \<Rightarrow> if \<not> pass then Inr False else FilterChain_Filter fs e)"

definition FilterChain_Add :: "Filter list \<Rightarrow> Filter \<Rightarrow> Filter list" where
  "FilterChain_Add fs f = fs @ [f]"

definition PassAllFilter :: Filter where "PassAllFilter e = Inr True"
definition BlockAllFilter :: Filter where "BlockAllFilter e = Inr False"

subsection \<open>Rules (rule.go)\<close>

record RuleConfig =
  rcf_IncludeTables :: "string list"
  rcf_ExcludeTables :: "string list"
  rcf_IncludeDatabases :: "string list"
  rcf_ExcludeDatabases :: "string list"
  rcf_IncludeTypes :: "EventType list"
  rcf_ExcludeTypes :: "EventType list"

record RuleFilter =
  rf_includeTables :: "string list"
  rf_excludeTables :: "string list"
  rf_includeDatabases :: "string list"
  rf_excludeDatabases :: "string list"
  rf_includeTypes :: "(EventType, bool) gomap"
  rf_excludeTypes :: "(EventType, bool) gomap"

fun compile_all :: "(string \<Rightarrow> err option) \<Rightarrow> string list \<Rightarrow> string list res" where
  "compile_all compile [] = Inr []"
| "compile_all compile (p # ps) =
     (case compile p of
        Some e \<Rightarrow> Inl e
      | None \<Rightarrow> (case compile_all compile ps of Inl e \<Rightarrow> Inl e | Inr qs \<Rightarrow> Inr (p # qs)))"

definition NewRuleFilter :: "FilterEnv \<Rightarrow> RuleConfig \<Rightarrow> RuleFilter res" where
  "NewRuleFilter env cfg =
     (case compile_all (fe_compile env) (rcf_IncludeTables cfg) of
        Inl e \<Rightarrow> Inl e
      | Inr it \<Rightarrow>
        (case compile_all (fe_compile env) (rcf_ExcludeTables cfg) of
           Inl e \<Rightarrow> Inl e
         | Inr et \<Rightarrow>
           (case compile_all (fe_compile env) (rcf_IncludeDatabases cfg) of
              Inl e \<Rightarrow> Inl e
            | Inr idb \<Rightarrow>
              (case compile_all (fe_compile env) (rcf_ExcludeDatabases cfg) of
                 Inl e \<Rightarrow> Inl e
               | Inr edb \<Rightarrow>
                   Inr \<lparr> rf_includeTables = it, rf_excludeTables = et, rf_includeDatabases = idb, rf_excludeDatabases = edb,
                         rf_includeTypes = fold (\<lambda>t m. AList.update t True m) (rcf_IncludeTypes cfg) [],
                         rf_excludeTypes = fold (\<lambda>t m. AList.update t True m) (rcf_ExcludeTypes cfg) [] \<rparr>))))"

text \<open>Indexing a Go map that has no entry gives the zero value, here false.\<close>

definition type_in :: "(EventType, bool) gomap \<Rightarrow> EventType \<Rightarrow> bool" where
  "type_in m t = (case map_of m t of None \<Rightarrow> False | Some b \<Rightarrow> b)"

definition RuleFilter_Filter :: "FilterEnv \<Rightarrow> RuleFilter \<Rightarrow> Filter" where
  "RuleFilter_Filter env rf e =
     (let db = ti_Database (ev_Table e); tableName = db @ ''.'' @ ti_Table (ev_Table e); m = fe_match env in
      if length (rf_excludeTypes rf) > 0 \<and> type_in (rf_excludeTypes rf) (ev_Type e) then Inr False
      else if length (rf_includeTypes rf) > 0 \<and> \<not> type_in (rf_includeTypes rf) (ev_Type e) then Inr False
      else if length (rf_excludeDatabases rf) > 0 \<and> list_ex (\<lambda>re. m re db) (rf_excludeDatabases rf) then Inr False
      else if length (rf_includeDatabases rf) > 0 \<and> \<not> list_ex (\<lambda>re. m re db) (rf_includeDatabases rf) then Inr False
      else if length (rf_excludeTables rf) > 0 \<and> list_ex (\<lambda>re. m re tableName) (rf_excludeTables rf) then Inr False
      else if length (rf_includeTables rf) > 0 \<and> \<not> list_ex (\<lambda>re. m re tableName) (rf_includeTables rf) then Inr False
      else Inr True)"

definition AddIncludeTable :: "FilterEnv \<Rightarrow> RuleFilter \<Rightarrow> string \<Rightarrow> RuleFilter \<times> err option" where
  "AddIncludeTable env rf pattern =
     (case fe_compile env pattern of
        Some e \<Rightarrow> (rf, Some e)
      | None \<Rightarrow> (rf\<lparr> rf_includeTables := rf_includeTables rf @ [pattern] \<rparr>, None))"

definition AddExcludeTable :: "FilterEnv \<Rightarrow> RuleFilter \<Rightarrow> string \<Rightarrow> RuleFilter \<times> err option" where
  "AddExcludeTable env rf pattern =
     (case fe_compile env pattern of
        Some e \<Rightarrow> (rf, Some e)
      | None \<Rightarrow> (rf\<lparr> rf_excludeTables := rf_excludeTables rf @ [pattern] \<rparr>, None))"

definition AddIncludeType :: "RuleFilter \<Rightarrow> EventType \<Rightarrow> RuleFilter" where
  "AddIncludeType rf t = rf\<lparr> rf_includeTypes := AList.update t True (rf_includeTypes rf) \<rparr>"

definition AddExcludeType :: "RuleFilter \<Rightarrow> EventType \<Rightarrow> RuleFilter" where
  "AddExcludeType rf t = rf\<lparr> rf_excludeTypes := AList.update t True (rf_excludeTypes rf) \<rparr>"

subsection \<open>Expressions (expression.go)\<close>

text \<open>\<^verbatim>\<open>strings.Split\<close> and \<^verbatim>\<open>strings.SplitN\<close> (with the limit 2) for a non-empty separator.\<close>

function Split_sep :: "string \<Rightarrow> string \<Rightarrow> string list" where
  "Split_sep sep s =
     (if sep = [] then [s]
      else case strings_Index s sep of
        None \<Rightarrow> [s]
      | Some i \<Rightarrow> take i s # Split_sep sep (drop (i + length sep) s))"
  by auto

lemma strings_Index_bound: "strings_Index s p = Some i \<Longrightarrow> i + length p \<le> length s"
proof (induction s arbitrary: i)
  case (Cons c s)
  show ?case
  proof (cases "HasPrefix (c # s) p")
    case True
    then have "length p \<le> length (c # s)" unfolding HasPrefix_def by (metis length_take min.cobounded1)
    then show ?thesis using Cons.prems True by simp
  next
    case False
    then obtain j where "strings_Index s p = Some j" "i = Suc j" using Cons.prems by auto
    then show ?thesis using Cons.IH by fastforce
  qed
qed (auto split: if_splits)

lemma strings_Index_less: "sep \<noteq> [] \<Longrightarrow> strings_Index s sep = Some i \<Longrightarrow> length s - (i + length sep) < length s"
  using strings_Index_bound [of s sep i] by (cases sep) auto

termination Split_sep
  by (relation "measure (\<lambda>(sep, s). length s)") (auto simp: strings_Index_less)

declare Split_sep.simps [simp del]

definition SplitN2_sep :: "string \<Rightarrow> string \<Rightarrow> string list" where
  "SplitN2_sep sep s =
     (case strings_Index s sep of
        None \<Rightarrow> [s]
      | Some i \<Rightarrow> [take i s, drop (i + length sep) s])"

text \<open>\<^verbatim>\<open>fmt.Sscanf(s, "%d", &i)\<close>: the number, or an error when there is no digit or it is out of range.\<close>

definition scan_d :: "string \<Rightarrow> int option" where
  "scan_d s =
     (let sign = (case s of [] \<Rightarrow> [] | c # _ \<Rightarrow> if c = CHR ''-'' \<or> c = CHR ''+'' then [c] else []);
          ds = takeWhile is_digit (drop (length sign) s); r = ParseInt (sign @ ds)
      in if ds = [] \<or> snd r then None else Some (fst r))"

definition parseValue :: "FilterEnv \<Rightarrow> string \<Rightarrow> gval res" where
  "parseValue env str =
     (let s = TrimSpace str in
      if length s \<ge> 2 \<and> (s ! 0 = CHR 0x27 \<or> s ! 0 = CHR 0x22) then Inr (VStr (take (length s - 2) (drop 1 s)))
      else if s = ''true'' then Inr (VBool True)
      else if s = ''false'' then Inr (VBool False)
      else if s = ''null'' \<or> s = ''nil'' then Inr VNil
      else if Contains s ''.'' then (case fe_scanFloat env s of Inl e \<Rightarrow> Inl e | Inr f \<Rightarrow> Inr (VFloat f))
      else case scan_d s of Some i \<Rightarrow> Inr (VInt i) | None \<Rightarrow> Inr (VStr s))"

definition row_field :: "RowData \<Rightarrow> string \<Rightarrow> gval" where
  "row_field r name =
     (if RowData_IsEmpty (Some r) then VNil
      else case map_of (fields_of r) name of None \<Rightarrow> VNil | Some f \<Rightarrow> fld_Value f)"

definition getFieldValue :: "ChangeEvent \<Rightarrow> string \<Rightarrow> gval res" where
  "getFieldValue e field =
     (let parts = Split_char CHR ''.'' field; p0 = parts ! 0 in
      if p0 = ''table'' then Inr (VStr (ti_Table (ev_Table e)))
      else if p0 = ''database'' then Inr (VStr (ti_Database (ev_Table e)))
      else if p0 = ''schema'' then Inr (VStr (ti_Schema (ev_Table e)))
      else if p0 = ''operation'' \<or> p0 = ''op'' then Inr (VStr (EventType_text (ev_Type e)))
      else if p0 = ''before'' then
        (if length parts < 2 then Inl (Errorf ''before.* requires a field name'') else Inr (row_field (ev_Before e) (parts ! 1)))
      else if p0 = ''after'' then
        (if length parts < 2 then Inl (Errorf ''after.* requires a field name'') else Inr (row_field (ev_After e) (parts ! 1)))
      else case map_of (fields_of (ev_After e)) p0 of
        Some f \<Rightarrow> Inr (fld_Value f)
      | None \<Rightarrow>
          (case map_of (fields_of (ev_Before e)) p0 of
             Some f \<Rightarrow> Inr (fld_Value f)
           | None \<Rightarrow> Inl (Errorf (''unknown field: '' @ field))))"

definition compareNumbers :: "FilterEnv \<Rightarrow> gval \<Rightarrow> string \<Rightarrow> gval \<Rightarrow> bool res" where
  "compareNumbers env left op right =
     (case fe_toFloat64 env left of
        Inl e \<Rightarrow> Inl e
      | Inr l \<Rightarrow>
          (case fe_toFloat64 env right of
             Inl e \<Rightarrow> Inl e
           | Inr r \<Rightarrow>
               if op = ''>='' then Inr (fe_less env r l \<or> fe_feq env l r)
               else if op = ''<='' then Inr (fe_less env l r \<or> fe_feq env l r)
               else if op = ''>'' then Inr (fe_less env r l)
               else if op = ''<'' then Inr (fe_less env l r)
               else Inl (Errorf (''unknown operator: '' @ op))))"

text \<open>\<^verbatim>\<open>%T\<close> of a value that is no string; the text of the error does not matter to the callers.\<close>

definition regex_match :: "FilterEnv \<Rightarrow> gval \<Rightarrow> gval \<Rightarrow> bool res" where
  "regex_match env left right =
     (case right of
        VStr pattern \<Rightarrow>
          (case fe_compile env pattern of
             Some e \<Rightarrow> Inl (Wrapf ''invalid regex'' e)
           | None \<Rightarrow> Inr (fe_match env pattern (fe_Sprint env left)))
      | _ \<Rightarrow> Inl (Errorf ''regex pattern must be string''))"

definition compareValues :: "FilterEnv \<Rightarrow> gval \<Rightarrow> string \<Rightarrow> gval \<Rightarrow> bool res" where
  "compareValues env left op right =
     (if op = ''=='' then Inr (fe_deepEqual env left right)
      else if op = ''!='' then Inr (\<not> fe_deepEqual env left right)
      else if op \<in> {''>='', ''<='', ''>'', ''<''} then compareNumbers env left op right
      else if op = ''=~'' then regex_match env left right
      else if op = ''!~'' then (case regex_match env left right of Inl e \<Rightarrow> Inl e | Inr b \<Rightarrow> Inr (\<not> b))
      else Inl (Errorf (''unknown operator: '' @ op)))"

definition createComparisonEvaluator :: "FilterEnv \<Rightarrow> string \<Rightarrow> string \<Rightarrow> string \<Rightarrow> Filter res" where
  "createComparisonEvaluator env left op right =
     (case parseValue env right of
        Inl e \<Rightarrow> Inl e
      | Inr rightValue \<Rightarrow>
          Inr (\<lambda>e. case getFieldValue e left of Inl er \<Rightarrow> Inl er | Inr leftVal \<Rightarrow> compareValues env leftVal op rightValue))"

definition filter_operators :: "string list" where
  "filter_operators = [''=='', ''!='', ''>='', ''<='', ''>'', ''<'', ''=~'', ''!~'']"

text \<open>The first operator of the list that occurs decides; \<^verbatim>\<open>SplitN\<close> then has two parts.\<close>

definition parseComparison :: "FilterEnv \<Rightarrow> string \<Rightarrow> Filter res" where
  "parseComparison env expr =
     (case find (\<lambda>op. Contains expr op) filter_operators of
        None \<Rightarrow> Inl (Errorf (''no valid operator found in expression: '' @ expr))
      | Some op \<Rightarrow>
          let parts = SplitN2_sep op expr
          in createComparisonEvaluator env (TrimSpace (parts ! 0)) op (TrimSpace (parts ! 1)))"

fun collect :: "'a res list \<Rightarrow> 'a list res" where
  "collect [] = Inr []"
| "collect (r # rs) =
     (case r of Inl e \<Rightarrow> Inl e | Inr x \<Rightarrow> (case collect rs of Inl e \<Rightarrow> Inl e | Inr xs \<Rightarrow> Inr (x # xs)))"

text \<open>The evaluators of the two connectives: they stop at the first part that decides.\<close>

fun eval_and :: "Filter list \<Rightarrow> Filter" where
  "eval_and [] e = Inr True"
| "eval_and (f # fs) e = (case f e of Inl er \<Rightarrow> Inl er | Inr r \<Rightarrow> if \<not> r then Inr False else eval_and fs e)"

fun eval_or :: "Filter list \<Rightarrow> Filter" where
  "eval_or [] e = Inr False"
| "eval_or (f # fs) e = (case f e of Inl er \<Rightarrow> Inl er | Inr r \<Rightarrow> if r then Inr True else eval_or fs e)"

lemma TrimSpace_length: "length (TrimSpace s) \<le> length s"
proof -
  have "length (TrimSpace s) \<le> length (dropWhile is_space s)" unfolding TrimSpace_def by (metis length_dropWhile_le length_rev)
  also have "\<dots> \<le> length s" by (rule length_dropWhile_le)
  finally show ?thesis .
qed

lemma Split_sep_shorter:
  "sep \<noteq> [] \<Longrightarrow> p \<in> set (Split_sep sep s) \<Longrightarrow> length p \<le> length s \<and> (Contains s sep \<longrightarrow> length p < length s)"
proof (induction sep s rule: Split_sep.induct)
  case (1 sep s)
  show ?case
  proof (cases "strings_Index s sep")
    case None
    then have "Split_sep sep s = [s]" by (subst Split_sep.simps) simp
    then show ?thesis using 1(3) None by (simp add: Contains_def)
  next
    case (Some i)
    have "Split_sep sep s = take i s # Split_sep sep (drop (i + length sep) s)" using 1(2) Some by (subst Split_sep.simps) simp
    then consider "p = take i s" | "p \<in> set (Split_sep sep (drop (i + length sep) s))" using 1(3) by auto
    then show ?thesis
    proof cases
      case 1
      then show ?thesis using strings_Index_bound [OF Some] \<open>sep \<noteq> []\<close> by (cases sep) auto
    next
      case 2
      then have "length p \<le> length (drop (i + length sep) s)" using 1(1) [OF \<open>sep \<noteq> []\<close> Some] \<open>sep \<noteq> []\<close> by blast
      then show ?thesis using strings_Index_bound [OF Some] \<open>sep \<noteq> []\<close> by (cases sep) auto
    qed
  qed
qed

function parseExpression :: "FilterEnv \<Rightarrow> string \<Rightarrow> Filter res" where
  "parseExpression env str =
     (let expr = TrimSpace str in
      if expr = [] then Inr (\<lambda>_. Inr True)
      else if Contains expr ''&&'' then
        (case collect (map (\<lambda>p. parseExpression env (TrimSpace p)) (Split_sep ''&&'' expr)) of
           Inl e \<Rightarrow> Inl e
         | Inr evaluators \<Rightarrow> Inr (eval_and evaluators))
      else if Contains expr ''||'' then
        (case collect (map (\<lambda>p. parseExpression env (TrimSpace p)) (Split_sep ''||'' expr)) of
           Inl e \<Rightarrow> Inl e
         | Inr evaluators \<Rightarrow> Inr (eval_or evaluators))
      else parseComparison env expr)"
  by auto

lemma parse_part_shorter:
  assumes "p \<in> set (Split_sep sep (TrimSpace str))" "Contains (TrimSpace str) sep" "sep \<noteq> []"
  shows "length (TrimSpace p) < length str"
  using Split_sep_shorter [OF assms(3,1)] assms(2) TrimSpace_length [of p] TrimSpace_length [of str] by linarith

termination parseExpression
  by (relation "measure (\<lambda>(env, s). length s)") (auto intro: parse_part_shorter)

declare parseExpression.simps [simp del]

definition NewExpressionFilter :: "FilterEnv \<Rightarrow> string \<Rightarrow> Filter res" where
  "NewExpressionFilter env expr =
     (case parseExpression env expr of Inl e \<Rightarrow> Inl (Wrapf ''failed to parse expression'' e) | Inr f \<Rightarrow> Inr f)"

subsection \<open>Routers (table.go, partition.go)\<close>

record RouterConfig =
  rtc_TableMapping :: "(string, string) gomap"
  rtc_DefaultSink :: string
  rtc_PartitionStrategy :: string
  rtc_PartitionCount :: int
  rtc_PartitionKey :: "string list"

definition TableRouter_Route :: "RouterConfig \<Rightarrow> ChangeEvent \<Rightarrow> string res" where
  "TableRouter_Route cfg e =
     (case map_of (rtc_TableMapping cfg) (ti_Database (ev_Table e) @ ''.'' @ ti_Table (ev_Table e)) of
        Some sinkID \<Rightarrow> Inr sinkID
      | None \<Rightarrow> Inr (rtc_DefaultSink cfg))"

definition key_fields :: "(gval \<Rightarrow> string) \<Rightarrow> ChangeEvent \<Rightarrow> string list \<Rightarrow> string" where
  "key_fields Sprint e cols =
     fold (\<lambda>f key. case RowData_Get (Some (ev_After e)) f of (v, True) \<Rightarrow> key @ Sprint v @ ''|'' | (_, False) \<Rightarrow> key) cols []"

text \<open>
  \<^verbatim>\<open>uint32\<close> of a negative or too large count wraps, and dividing by zero panics; \<open>rnd\<close> is what \<^verbatim>\<open>rand.Intn\<close>
  gives, which panics for a count that is not positive.
\<close>

definition PartitionRouter_Route :: "(gval \<Rightarrow> string) \<Rightarrow> nat \<Rightarrow> RouterConfig \<Rightarrow> ChangeEvent \<Rightarrow> string res" where
  "PartitionRouter_Route Sprint rnd cfg e =
     (let strategy = rtc_PartitionStrategy cfg; n = rtc_PartitionCount cfg in
      if strategy = ''random'' then
        (if n \<le> 0 then Inl (Panic ''invalid argument to Intn'') else Inr (nat_decimal (rnd mod nat n)))
      else
        let key = (if strategy = ''table'' then ti_Database (ev_Table e) @ ''.'' @ ti_Table (ev_Table e)
                   else if strategy = ''pk'' then key_fields Sprint e (ti_PrimaryKeyColumns (ev_Table e))
                   else if strategy = ''field'' then key_fields Sprint e (rtc_PartitionKey cfg)
                   else [])
        in if (of_int n :: uint32) = 0 then Inl (Panic ''integer divide by zero'')
           else Inr (nat_decimal (unat (FNV32 key mod of_int n))))"

section \<open>What they promise\<close>

text \<open>A chain passes an event when every filter does, and fails with the first error before a refusal.\<close>

lemma chain_passes: "FilterChain_Filter fs e = Inr True \<longleftrightarrow> list_all (\<lambda>f. f e = Inr True) fs"
  by (induction fs) (auto split: sum.split)

lemma chain_error:
  "FilterChain_Filter fs e = Inl er \<longleftrightarrow> (\<exists>pre f post. fs = pre @ f # post \<and> list_all (\<lambda>f. f e = Inr True) pre \<and> f e = Inl er)"
proof (induction fs)
  case (Cons g fs)
  show ?case
  proof (cases "g e = Inr True")
    case True
    have "(\<exists>pre f post. g # fs = pre @ f # post \<and> list_all (\<lambda>f. f e = Inr True) pre \<and> f e = Inl er)
      \<longleftrightarrow> (\<exists>pre f post. fs = pre @ f # post \<and> list_all (\<lambda>f. f e = Inr True) pre \<and> f e = Inl er)" (is "?L \<longleftrightarrow> ?R")
    proof
      assume ?L
      then obtain pre f post where *: "g # fs = pre @ f # post" "list_all (\<lambda>f. f e = Inr True) pre" "f e = Inl er" by blast
      with True obtain pre' where "pre = g # pre'" by (cases pre) auto
      with * show ?R by auto
    next
      assume ?R
      then obtain pre f post where "fs = pre @ f # post" "list_all (\<lambda>f. f e = Inr True) pre" "f e = Inl er" by blast
      then show ?L using True by (intro exI [of _ "g # pre"]) auto
    qed
    then show ?thesis using Cons.IH True by simp
  next
    case False
    show ?thesis
    proof (cases "g e")
      case (Inl x)
      then have "\<exists>pre f post. g # fs = pre @ f # post \<and> list_all (\<lambda>f. f e = Inr True) pre \<and> f e = Inl x"
        by (intro exI [of _ "[]"]) simp
      moreover have "er' = x" if "g # fs = pre @ f # post" "list_all (\<lambda>f. f e = Inr True) pre" "f e = Inl er'" for pre f post er'
        using that Inl by (cases pre) auto
      ultimately show ?thesis using Inl by auto
    next
      case (Inr b)
      then show ?thesis using False by (auto simp: Cons_eq_append_conv)
    qed
  qed
qed simp

text \<open>A chain of the two constant filters.\<close>

lemma chain_block: "BlockAllFilter \<in> set fs \<Longrightarrow> FilterChain_Filter fs e \<noteq> Inr True"
  unfolding chain_passes list_all_iff by (metis BlockAllFilter_def Inr_inject)

lemma compile_all_spec: "compile_all compile ps = Inr qs \<longleftrightarrow> qs = ps \<and> list_all (\<lambda>p. compile p = None) ps"
proof (induction ps arbitrary: qs)
  case (Cons p ps)
  show ?case
  proof (cases "compile p")
    case None
    have "compile_all compile ps = Inr ps" if "list_all (\<lambda>p. compile p = None) ps" using Cons.IH [of ps] that by simp
    moreover have "list_all (\<lambda>p. compile p = None) ps \<and> q = ps" if "compile_all compile ps = Inr q" for q using Cons.IH [of q] that by simp
    ultimately show ?thesis using None by (cases "compile_all compile ps") auto
  qed simp
qed auto

lemma fold_types: "type_in (fold (\<lambda>t m. AList.update t True m) ts m) x \<longleftrightarrow> x \<in> set ts \<or> type_in m x"
  by (induction ts arbitrary: m) (auto simp: type_in_def)

lemma fold_types_empty: "fold (\<lambda>t m. AList.update t True m) ts [] = [] \<longleftrightarrow> ts = []"
proof -
  have "fold (\<lambda>t m. AList.update t True m) ts m = [] \<Longrightarrow> m = []" for ts and m :: "('a, bool) gomap"
  proof (induction ts arbitrary: m)
    case (Cons t ts)
    have "AList.update t True m \<noteq> []" by (cases m) auto
    then show ?case using Cons by fastforce
  qed simp
  from this [of "tl ts" "AList.update (hd ts) True []"] show ?thesis by (cases ts) auto
qed

text \<open>A rule filter that could be made passes exactly the events that its configuration names.\<close>

lemma rule_filter_spec:
  assumes "NewRuleFilter env cfg = Inr rf"
  defines "names ps s \<equiv> list_ex (\<lambda>p. fe_match env p s) ps"
  shows "RuleFilter_Filter env rf e = Inr
    (ev_Type e \<notin> set (rcf_ExcludeTypes cfg) \<and> (rcf_IncludeTypes cfg = [] \<or> ev_Type e \<in> set (rcf_IncludeTypes cfg))
     \<and> \<not> names (rcf_ExcludeDatabases cfg) (ti_Database (ev_Table e))
     \<and> (rcf_IncludeDatabases cfg = [] \<or> names (rcf_IncludeDatabases cfg) (ti_Database (ev_Table e)))
     \<and> \<not> names (rcf_ExcludeTables cfg) (ti_Database (ev_Table e) @ ''.'' @ ti_Table (ev_Table e))
     \<and> (rcf_IncludeTables cfg = [] \<or> names (rcf_IncludeTables cfg) (ti_Database (ev_Table e) @ ''.'' @ ti_Table (ev_Table e))))"
proof -
  have rf: "rf_includeTables rf = rcf_IncludeTables cfg" "rf_excludeTables rf = rcf_ExcludeTables cfg"
    "rf_includeDatabases rf = rcf_IncludeDatabases cfg" "rf_excludeDatabases rf = rcf_ExcludeDatabases cfg"
    "rf_includeTypes rf = fold (\<lambda>t m. AList.update t True m) (rcf_IncludeTypes cfg) []"
    "rf_excludeTypes rf = fold (\<lambda>t m. AList.update t True m) (rcf_ExcludeTypes cfg) []"
    using assms(1) by (auto simp: NewRuleFilter_def compile_all_spec split: sum.splits)
  have in_t: "type_in (rf_includeTypes rf) x \<longleftrightarrow> x \<in> set (rcf_IncludeTypes cfg)"
    "type_in (rf_excludeTypes rf) x \<longleftrightarrow> x \<in> set (rcf_ExcludeTypes cfg)" for x
    unfolding rf fold_types by (simp_all add: type_in_def)
  have e_t: "rf_includeTypes rf = [] \<longleftrightarrow> rcf_IncludeTypes cfg = []" "rf_excludeTypes rf = [] \<longleftrightarrow> rcf_ExcludeTypes cfg = []"
    unfolding rf fold_types_empty by simp_all
  show ?thesis unfolding RuleFilter_Filter_def Let_def in_t length_greater_0_conv e_t rf(1-4) names_def by auto
qed

text \<open>
  The parser splits at \<^verbatim>\<open>&&\<close> first: in \<^verbatim>\<open>a || b && c\<close> the disjunction binds tighter than the conjunction.
\<close>

lemma eval_and_spec: "eval_and fs e = FilterChain_Filter fs e"
  by (induction fs) (simp_all split: sum.split)

lemma eval_or_passes:
  "list_all (\<lambda>f. \<exists>b. f e = Inr b) fs \<Longrightarrow> eval_or fs e = Inr (list_ex (\<lambda>f. f e = Inr True) fs)"
  by (induction fs) auto

lemma and_before_or:
  assumes "TrimSpace expr = expr" "Split_sep ''&&'' expr = [l, r]" "Contains expr ''&&''"
    and "parseExpression env (TrimSpace l) = Inr f" "parseExpression env (TrimSpace r) = Inr g"
  shows "parseExpression env expr = Inr (eval_and [f, g])"
proof -
  have "expr \<noteq> []" using assms(3) by (auto simp: Contains_def)
  then show ?thesis using assms by (subst parseExpression.simps) (simp add: Let_def)
qed

text \<open>A text that starts with a quote loses its last character, whatever that is.\<close>

lemma unclosed_quote: "parseValue env (CHR 0x27 # ''ab'') = Inr (VStr ''a'')"
  by (simp add: parseValue_def TrimSpace_def is_space_def)

text \<open>The same table goes to the same partition, and a partition number is in range.\<close>

lemma partition_in_range:
  assumes "PartitionRouter_Route Sprint rnd cfg e = Inr p" "0 < rtc_PartitionCount cfg" "rtc_PartitionCount cfg < 2 ^ 32"
  shows "\<exists>k. p = nat_decimal k \<and> int k < rtc_PartitionCount cfg"
proof (cases "rtc_PartitionStrategy cfg = ''random''")
  case True
  have "rnd mod nat (rtc_PartitionCount cfg) < nat (rtc_PartitionCount cfg)" using assms(2) by simp
  then have "int (rnd mod nat (rtc_PartitionCount cfg)) < rtc_PartitionCount cfg" by linarith
  then show ?thesis using True assms(1,2) by (auto simp: PartitionRouter_Route_def Let_def)
next
  case False
  then obtain key where p: "p = nat_decimal (unat (FNV32 key mod of_int (rtc_PartitionCount cfg)))"
    using assms(1) by (auto simp: PartitionRouter_Route_def Let_def split: if_splits)
  define n where "n = nat (rtc_PartitionCount cfg)"
  have n: "rtc_PartitionCount cfg = int n" "0 < n" "n < 2 ^ 32" using assms(2,3) by (auto simp: n_def)
  have "unat (FNV32 key mod of_nat n) < n" by (rule word_mod_nat) (use n in auto)
  then show ?thesis using p n by auto
qed

lemma table_partition_stable:
  assumes "rtc_PartitionStrategy cfg = ''table''" "ti_Database (ev_Table e) = ti_Database (ev_Table e')" "ti_Table (ev_Table e) = ti_Table (ev_Table e')"
  shows "PartitionRouter_Route Sprint rnd cfg e = PartitionRouter_Route Sprint rnd' cfg e'"
  using assms by (simp add: PartitionRouter_Route_def)

text \<open>A delete has no new row, so the strategies by key send every delete to the same partition.\<close>

lemma delete_partition:
  assumes "row_Fields (ev_After e) = None" "rtc_PartitionStrategy cfg = ''pk''"
  shows "PartitionRouter_Route Sprint rnd cfg e
    = (if (of_int (rtc_PartitionCount cfg) :: uint32) = 0 then Inl (Panic ''integer divide by zero'')
       else Inr (nat_decimal (unat (FNV32 [] mod of_int (rtc_PartitionCount cfg)))))"
proof -
  have "key_fields Sprint e fs = []" for fs
  proof -
    have "fold (\<lambda>f key. case RowData_Get (Some (ev_After e)) f of (v, True) \<Rightarrow> key @ Sprint v @ ''|'' | (_, False) \<Rightarrow> key) fs [] = []"
      using assms(1) by (induction fs) (simp_all add: RowData_Get_def fields_of_def)
    then show ?thesis by (simp add: key_fields_def)
  qed
  then show ?thesis using assms(2) by (simp add: PartitionRouter_Route_def)
qed

end
