(* ===== verification/Sql_Sink.thy ===== *)
theory Sql_Sink
  imports Events Go_Text
begin

section \<open>The SQL sinks (internal/sink/mysql, postgres, oracle, sqlserver)\<close>

text \<open>
  The four connectors that write change events to a relational database. They share their structure:
  a call of \<^verbatim>\<open>Write\<close> opens a transaction when the configuration says so, turns every event into one
  statement with its arguments and commits at the end. What differs is the text of the statements and
  what happens to a transaction after an error, and these are the fields of a \<open>Dialect\<close>.

  The database and its driver are the fields of \<open>drv\<close>: a database has states \<open>'db\<close>, an open transaction
  states \<open>'tx\<close>. \<open>sq_open\<close> counts the transactions that were begun and neither committed nor rolled back.
  A call that does not return has the value \<^const>\<open>None\<close>.
\<close>

definition ErrDDLNotSupported :: err where "ErrDDLNotSupported = ErrCode ''DS:Sink:DDLNotSupported''"
definition sink_ErrNotInitialized :: err where "sink_ErrNotInitialized = ErrCode ''DS:Sink:NotInitialized''"

datatype sink_State =
  SinkUninitialized | SinkReady | SinkWriting | SinkFlushing | SinkError | SinkStopped

record SqlConfig =
  sqc_UseTransaction :: bool
  sqc_InsertStrategy :: string
  sqc_DDLPolicy :: string
  sqc_DefaultSchema :: string
  sqc_UseCopy :: bool

record ('db, 'tx) Driver =
  dr_begin :: "'db \<Rightarrow> 'tx res"
  dr_exec :: "'db \<Rightarrow> string \<Rightarrow> gval list \<Rightarrow> 'db \<times> err option"
  dr_txexec :: "'tx \<Rightarrow> string \<Rightarrow> gval list \<Rightarrow> 'tx \<times> err option"
  dr_commit :: "'db \<Rightarrow> 'tx \<Rightarrow> 'db \<times> err option"

record ('db, 'tx) SqlSink =
  sq_state :: sink_State
  sq_EventsWritten :: int
  sq_EventsFailed :: int
  sq_position :: "Position option"
  sq_db :: 'db
  sq_tx :: "'tx option"
  sq_open :: nat

subsection \<open>Statements\<close>

text \<open>
  The value of a column and the loop that builds a condition on the key columns, which fails at the
  first one that the row before the change does not have. Parameters are numbered from \<open>i\<close>.
\<close>

definition column_value :: "RowData \<Rightarrow> string \<Rightarrow> gval" where
  "column_value r col = fld_Value (fst (RowData_GetField (Some r) col))"

fun key_parts :: "(string \<Rightarrow> string) \<Rightarrow> (nat \<Rightarrow> string) \<Rightarrow> RowData \<Rightarrow> nat \<Rightarrow> string list \<Rightarrow> (string list \<times> gval list) res" where
  "key_parts quote param before i [] = Inr ([], [])"
| "key_parts quote param before i (keyCol # cols) =
     (case RowData_GetField (Some before) keyCol of
        (_, False) \<Rightarrow> Inl (Errorf (''primary key column '' @ keyCol @ '' not found in before image''))
      | (field, True) \<Rightarrow>
          (case key_parts quote param before (Suc i) cols of
             Inl e \<Rightarrow> Inl e
           | Inr (parts, args) \<Rightarrow> Inr ((quote keyCol @ '' = '' @ param i) # parts, fld_Value field # args)))"

fun set_parts :: "(string \<Rightarrow> string) \<Rightarrow> (nat \<Rightarrow> string) \<Rightarrow> nat \<Rightarrow> string list \<Rightarrow> string list" where
  "set_parts quote param i [] = []"
| "set_parts quote param i (col # cols) = (quote col @ '' = '' @ param i) # set_parts quote param (Suc i) cols"

definition params :: "(nat \<Rightarrow> string) \<Rightarrow> string list \<Rightarrow> string" where
  "params param cols = strings_Join (map (\<lambda>i. param (Suc i)) [0..<length cols]) '', ''"

text \<open>The statement of an event: its text and arguments, nothing to do, or an error.\<close>

type_synonym stmt = "(string \<times> gval list) option res"

definition sql_insert :: "(string list \<Rightarrow> string) \<Rightarrow> ChangeEvent \<Rightarrow> stmt" where
  "sql_insert query e =
     (let columns = ColumnNames (Some (ev_After e)) in
      if length columns = 0 then Inl (Errorf ''no columns to insert'')
      else Inr (Some (query columns, map (column_value (ev_After e)) columns)))"

definition sql_update :: "(string \<Rightarrow> string) \<Rightarrow> (nat \<Rightarrow> string) \<Rightarrow> string \<Rightarrow> ChangeEvent \<Rightarrow> stmt" where
  "sql_update quote param table e =
     (let columns = ColumnNames (Some (ev_After e)); sets = set_parts quote param 1 columns;
          keyColumns = GetKeyColumns (ev_Table e) in
      if length sets = 0 then Inr None
      else if length keyColumns = 0 then Inl (Errorf ''no primary key columns for update'')
      else case key_parts quote param (ev_Before e) (Suc (length columns)) keyColumns of
        Inl er \<Rightarrow> Inl er
      | Inr (wheres, keys) \<Rightarrow>
          Inr (Some (''UPDATE '' @ table @ '' SET '' @ strings_Join sets '', '' @ '' WHERE '' @ strings_Join wheres '' AND '',
                     map (column_value (ev_After e)) columns @ keys)))"

definition sql_delete :: "(string \<Rightarrow> string) \<Rightarrow> (nat \<Rightarrow> string) \<Rightarrow> string \<Rightarrow> ChangeEvent \<Rightarrow> stmt" where
  "sql_delete quote param table e =
     (let keyColumns = GetKeyColumns (ev_Table e) in
      if length keyColumns = 0 then Inl (Errorf ''no primary key columns for delete'')
      else case key_parts quote param (ev_Before e) 1 keyColumns of
        Inl er \<Rightarrow> Inl er
      | Inr (wheres, keys) \<Rightarrow> Inr (Some (''DELETE FROM '' @ table @ '' WHERE '' @ strings_Join wheres '' AND '', keys)))"

subsection \<open>MySQL\<close>

definition mysql_quote :: "string \<Rightarrow> string" where "mysql_quote s = ''`'' @ s @ ''`''"

definition mysql_table :: "ChangeEvent \<Rightarrow> string" where
  "mysql_table e = ''`'' @ ti_Database (ev_Table e) @ ''`.`'' @ ti_Table (ev_Table e) @ ''`''"

definition mysql_insert_query :: "SqlConfig \<Rightarrow> string \<Rightarrow> string list \<Rightarrow> string" where
  "mysql_insert_query cfg table columns =
     (let body = table @ '' (`'' @ strings_Join columns ''`, `'' @ ''`) VALUES (''
                   @ strings_Join (map (\<lambda>_. ''?'') columns) '', '' @ '')''
      in if sqc_InsertStrategy cfg = ''replace'' then ''REPLACE INTO '' @ body
         else if sqc_InsertStrategy cfg = ''upsert'' then
           ''INSERT INTO '' @ body @ '' ON DUPLICATE KEY UPDATE ''
             @ strings_Join (map (\<lambda>col. ''`'' @ col @ ''` = VALUES(`'' @ col @ ''`)'') columns) '', ''
         else ''INSERT INTO '' @ body)"

definition mysql_executeInsert :: "SqlConfig \<Rightarrow> ChangeEvent \<Rightarrow> stmt" where
  "mysql_executeInsert cfg e = sql_insert (mysql_insert_query cfg (mysql_table e)) e"

definition mysql_executeUpdate :: "ChangeEvent \<Rightarrow> stmt" where
  "mysql_executeUpdate e = sql_update mysql_quote (\<lambda>_. ''?'') (mysql_table e) e"

definition mysql_executeDelete :: "ChangeEvent \<Rightarrow> stmt" where
  "mysql_executeDelete e = sql_delete mysql_quote (\<lambda>_. ''?'') (mysql_table e) e"

subsection \<open>PostgreSQL\<close>

definition double_quote :: "string \<Rightarrow> string" where "double_quote s = CHR 0x22 # s @ [CHR 0x22]"

definition pg_param :: "nat \<Rightarrow> string" where "pg_param i = ''$'' @ nat_decimal i"

definition pg_getSchemaTable :: "SqlConfig \<Rightarrow> ChangeEvent \<Rightarrow> string" where
  "pg_getSchemaTable cfg e =
     (let schema = (if ti_Schema (ev_Table e) \<noteq> [] then ti_Schema (ev_Table e) else sqc_DefaultSchema cfg)
      in double_quote schema @ ''.'' @ double_quote (ti_Table (ev_Table e)))"

definition pg_insert_query :: "SqlConfig \<Rightarrow> ChangeEvent \<Rightarrow> string list \<Rightarrow> string" where
  "pg_insert_query cfg e columns =
     (let plain = ''INSERT INTO '' @ pg_getSchemaTable cfg e @ '' ('' @ strings_Join (map double_quote columns) '', ''
            @ '') VALUES ('' @ params pg_param columns @ '')'';
          conflictCols = ti_PrimaryKeyColumns (ev_Table e)
      in if sqc_InsertStrategy cfg = ''upsert'' \<and> length conflictCols > 0 then
           let updateParts = map (\<lambda>col. double_quote col @ '' = EXCLUDED.'' @ double_quote col)
                 (filter (\<lambda>col. col \<notin> set conflictCols) columns);
               conflictTargets = strings_Join (map double_quote conflictCols) '', ''
           in if length updateParts > 0
              then plain @ '' ON CONFLICT ('' @ conflictTargets @ '') DO UPDATE SET '' @ strings_Join updateParts '', ''
              else plain @ '' ON CONFLICT ('' @ conflictTargets @ '') DO NOTHING''
         else plain)"

text \<open>
  \<^verbatim>\<open>executeInsert\<close> hands a row of more than ten columns to \<^verbatim>\<open>executeCopyInsert\<close> when \<^verbatim>\<open>UseCopy\<close> is set,
  and that calls \<^verbatim>\<open>executeInsert\<close> again.
\<close>

partial_function (option) pg_executeInsert :: "SqlConfig \<Rightarrow> ChangeEvent \<Rightarrow> stmt option" where
  "pg_executeInsert cfg e =
     (let columns = ColumnNames (Some (ev_After e)) in
      if length columns = 0 then Some (Inl (Errorf ''no columns to insert''))
      else if sqc_UseCopy cfg \<and> length columns > 10 then pg_executeInsert cfg e
      else Some (sql_insert (pg_insert_query cfg e) e))"

definition pg_executeUpdate :: "SqlConfig \<Rightarrow> ChangeEvent \<Rightarrow> stmt" where
  "pg_executeUpdate cfg e = sql_update double_quote pg_param (pg_getSchemaTable cfg e) e"

definition pg_executeDelete :: "SqlConfig \<Rightarrow> ChangeEvent \<Rightarrow> stmt" where
  "pg_executeDelete cfg e = sql_delete double_quote pg_param (pg_getSchemaTable cfg e) e"

subsection \<open>Oracle and SQL Server\<close>

definition bracket :: "string \<Rightarrow> string" where "bracket s = ''['' @ s @ '']''"

definition oracle_param :: "nat \<Rightarrow> string" where "oracle_param i = '':'' @ nat_decimal i"

definition sqlserver_param :: "nat \<Rightarrow> string" where "sqlserver_param i = ''@p'' @ nat_decimal i"

definition sql_getSchemaTable :: "(string \<Rightarrow> string) \<Rightarrow> SqlConfig \<Rightarrow> ChangeEvent \<Rightarrow> string" where
  "sql_getSchemaTable quote cfg e =
     (let schema = (if ti_Schema (ev_Table e) = [] then sqc_DefaultSchema cfg else ti_Schema (ev_Table e))
      in if schema \<noteq> [] then quote schema @ ''.'' @ quote (ti_Table (ev_Table e)) else quote (ti_Table (ev_Table e)))"

definition plain_insert :: "(string \<Rightarrow> string) \<Rightarrow> (nat \<Rightarrow> string) \<Rightarrow> string \<Rightarrow> string list \<Rightarrow> string" where
  "plain_insert quote param table columns =
     ''INSERT INTO '' @ table @ '' ('' @ strings_Join (map quote columns) '', '' @ '') VALUES ('' @ params param columns @ '')''"

definition oracle_executeInsert :: "SqlConfig \<Rightarrow> ChangeEvent \<Rightarrow> stmt" where
  "oracle_executeInsert cfg e = sql_insert (plain_insert double_quote oracle_param (sql_getSchemaTable double_quote cfg e)) e"

definition oracle_executeUpdate :: "SqlConfig \<Rightarrow> ChangeEvent \<Rightarrow> stmt" where
  "oracle_executeUpdate cfg e = sql_update double_quote oracle_param (sql_getSchemaTable double_quote cfg e) e"

definition oracle_executeDelete :: "SqlConfig \<Rightarrow> ChangeEvent \<Rightarrow> stmt" where
  "oracle_executeDelete cfg e = sql_delete double_quote oracle_param (sql_getSchemaTable double_quote cfg e) e"

definition sqlserver_executeInsert :: "SqlConfig \<Rightarrow> ChangeEvent \<Rightarrow> stmt" where
  "sqlserver_executeInsert cfg e = sql_insert (plain_insert bracket sqlserver_param (sql_getSchemaTable bracket cfg e)) e"

definition sqlserver_executeUpdate :: "SqlConfig \<Rightarrow> ChangeEvent \<Rightarrow> stmt" where
  "sqlserver_executeUpdate cfg e = sql_update bracket sqlserver_param (sql_getSchemaTable bracket cfg e) e"

definition sqlserver_executeDelete :: "SqlConfig \<Rightarrow> ChangeEvent \<Rightarrow> stmt" where
  "sqlserver_executeDelete cfg e = sql_delete bracket sqlserver_param (sql_getSchemaTable bracket cfg e) e"

subsection \<open>The connector\<close>

record Dialect =
  dl_insert :: "SqlConfig \<Rightarrow> ChangeEvent \<Rightarrow> stmt option"
  dl_update :: "SqlConfig \<Rightarrow> ChangeEvent \<Rightarrow> stmt"
  dl_delete :: "SqlConfig \<Rightarrow> ChangeEvent \<Rightarrow> stmt"
  dl_rollback :: bool

text \<open>\<^verbatim>\<open>getExecutor\<close>: a statement runs in the transaction if there is one, otherwise on the database.\<close>

definition run_stmt :: "('db, 'tx) Driver \<Rightarrow> ('db, 'tx) SqlSink \<Rightarrow> string \<Rightarrow> gval list \<Rightarrow> ('db, 'tx) SqlSink \<times> err option" where
  "run_stmt drv s q args =
     (case sq_tx s of
        Some t \<Rightarrow> (let (t', r) = dr_txexec drv t q args in (s\<lparr> sq_tx := Some t' \<rparr>, r))
      | None \<Rightarrow> (let (d', r) = dr_exec drv (sq_db s) q args in (s\<lparr> sq_db := d' \<rparr>, r)))"

definition sql_exec :: "('db, 'tx) Driver \<Rightarrow> string \<Rightarrow> ('db, 'tx) SqlSink \<Rightarrow> stmt \<Rightarrow> ('db, 'tx) SqlSink \<times> err option" where
  "sql_exec drv verb s st =
     (case st of
        Inl e \<Rightarrow> (s, Some e)
      | Inr None \<Rightarrow> (s, None)
      | Inr (Some (q, args)) \<Rightarrow>
          (case run_stmt drv s q args of
             (s, None) \<Rightarrow> (s, None)
           | (s, Some e) \<Rightarrow> (s, Some (Wrapf (''failed to execute '' @ verb) e))))"

definition sql_handleDDL :: "('db, 'tx) Driver \<Rightarrow> SqlConfig \<Rightarrow> ('db, 'tx) SqlSink \<Rightarrow> ChangeEvent \<Rightarrow> ('db, 'tx) SqlSink \<times> err option" where
  "sql_handleDDL drv cfg s e =
     (if sqc_DDLPolicy cfg = ''ignore'' then (s, None)
      else if sqc_DDLPolicy cfg = ''error'' then (s, Some ErrDDLNotSupported)
      else
        let ddlStatement = (case ev_Metadata e of
              None \<Rightarrow> [] | Some m \<Rightarrow> (case map_of m ''ddl'' of None \<Rightarrow> [] | Some t \<Rightarrow> t))
        in if ddlStatement = [] then (s, None) else sql_exec drv ''DDL'' s (Inr (Some (ddlStatement, []))))"

definition sql_writeDataEvent ::
  "('db, 'tx) Driver \<Rightarrow> Dialect \<Rightarrow> SqlConfig \<Rightarrow> ('db, 'tx) SqlSink \<Rightarrow> ChangeEvent \<Rightarrow> (('db, 'tx) SqlSink \<times> err option) option" where
  "sql_writeDataEvent drv dl cfg s e =
     (case ev_Type e of
        EventTypeInsert \<Rightarrow> map_option (sql_exec drv ''insert'' s) (dl_insert dl cfg e)
      | EventTypeUpdate \<Rightarrow> Some (sql_exec drv ''update'' s (dl_update dl cfg e))
      | EventTypeDelete \<Rightarrow> Some (sql_exec drv ''delete'' s (dl_delete dl cfg e))
      | _ \<Rightarrow> Some (s, None))"

fun write_loop ::
  "('db, 'tx) Driver \<Rightarrow> Dialect \<Rightarrow> SqlConfig \<Rightarrow> ChangeEvent list \<Rightarrow> ('db, 'tx) SqlSink \<Rightarrow> (('db, 'tx) SqlSink \<times> err option) option" where
  "write_loop drv dl cfg [] s = Some (s, None)"
| "write_loop drv dl cfg (e # es) s =
     (case (if IsDDL e then Some (sql_handleDDL drv cfg s e)
            else if IsDataEvent e then sql_writeDataEvent drv dl cfg s e
            else Some (s, None)) of
        None \<Rightarrow> None
      | Some (s, Some er) \<Rightarrow> Some (s\<lparr> sq_EventsFailed := sq_EventsFailed s + 1 \<rparr>, Some er)
      | Some (s, None) \<Rightarrow>
          write_loop drv dl cfg es (s\<lparr> sq_EventsWritten := sq_EventsWritten s + 1, sq_position := Some (ev_Position e) \<rparr>))"

text \<open>
  The end of a transaction by the deferred function: the connectors for Oracle and SQL Server roll it
  back if it is still open, those for MySQL and PostgreSQL only forget it. \<open>ended\<close> says that \<^verbatim>\<open>Commit\<close> was
  called, after which \<^verbatim>\<open>Rollback\<close> has no effect.
\<close>

definition end_tx :: "Dialect \<Rightarrow> bool \<Rightarrow> ('db, 'tx) SqlSink \<Rightarrow> ('db, 'tx) SqlSink" where
  "end_tx dl ended s =
     s\<lparr> sq_tx := None, sq_open := (if ended \<or> dl_rollback dl \<or> sq_tx s = None then sq_open s else Suc (sq_open s)) \<rparr>"

definition sql_Write ::
  "('db, 'tx) Driver \<Rightarrow> Dialect \<Rightarrow> SqlConfig \<Rightarrow> ('db, 'tx) SqlSink \<Rightarrow> ChangeEvent list \<Rightarrow> (('db, 'tx) SqlSink \<times> err option) option" where
  "sql_Write drv dl cfg s events =
     (let s = s\<lparr> sq_state := SinkWriting \<rparr>; ready = (\<lambda>(s, r). (s\<lparr> sq_state := SinkReady \<rparr>, r)) in
      if \<not> sqc_UseTransaction cfg then map_option ready (write_loop drv dl cfg events s)
      else case dr_begin drv (sq_db s) of
        Inl e \<Rightarrow> Some (ready (s, Some (Wrapf ''failed to begin transaction'' e)))
      | Inr t \<Rightarrow>
          (case write_loop drv dl cfg events (s\<lparr> sq_tx := Some t \<rparr>) of
             None \<Rightarrow> None
           | Some (s, Some e) \<Rightarrow> Some (ready (end_tx dl False s, Some e))
           | Some (s, None) \<Rightarrow>
               (case sq_tx s of
                  None \<Rightarrow> Some (ready (end_tx dl True s, None))
                | Some t \<Rightarrow>
                    (case dr_commit drv (sq_db s) t of
                       (d, None) \<Rightarrow> Some (ready (end_tx dl True (s\<lparr> sq_db := d \<rparr>), None))
                     | (d, Some e) \<Rightarrow>
                         Some (ready (end_tx dl True (s\<lparr> sq_db := d \<rparr>), Some (Wrapf ''failed to commit transaction'' e)))))))"

definition mysql_dialect :: Dialect where
  "mysql_dialect = \<lparr> dl_insert = (\<lambda>cfg e. Some (mysql_executeInsert cfg e)), dl_update = (\<lambda>_. mysql_executeUpdate),
     dl_delete = (\<lambda>_. mysql_executeDelete), dl_rollback = False \<rparr>"

definition pg_dialect :: Dialect where
  "pg_dialect = \<lparr> dl_insert = pg_executeInsert, dl_update = pg_executeUpdate, dl_delete = pg_executeDelete, dl_rollback = False \<rparr>"

definition oracle_dialect :: Dialect where
  "oracle_dialect = \<lparr> dl_insert = (\<lambda>cfg e. Some (oracle_executeInsert cfg e)), dl_update = oracle_executeUpdate,
     dl_delete = oracle_executeDelete, dl_rollback = True \<rparr>"

definition sqlserver_dialect :: Dialect where
  "sqlserver_dialect = \<lparr> dl_insert = (\<lambda>cfg e. Some (sqlserver_executeInsert cfg e)), dl_update = sqlserver_executeUpdate,
     dl_delete = sqlserver_executeDelete, dl_rollback = True \<rparr>"

definition mysql_Write where "mysql_Write drv = sql_Write drv mysql_dialect"
definition postgres_Write where "postgres_Write drv = sql_Write drv pg_dialect"
definition oracle_Write where "oracle_Write drv = sql_Write drv oracle_dialect"
definition sqlserver_Write where "sqlserver_Write drv = sql_Write drv sqlserver_dialect"

text \<open>The other operations; \<open>initialized\<close> says that there is a database handle.\<close>

definition sql_Start :: "bool \<Rightarrow> ('db, 'tx) SqlSink \<Rightarrow> ('db, 'tx) SqlSink \<times> err option" where
  "sql_Start initialized s =
     (if sq_state s = SinkWriting then (s, None)
      else if \<not> initialized then (s, Some sink_ErrNotInitialized)
      else (s\<lparr> sq_state := SinkReady \<rparr>, None))"

definition sql_Stop :: "('db, 'tx) SqlSink \<Rightarrow> ('db, 'tx) SqlSink" where
  "sql_Stop s = s\<lparr> sq_tx := None, sq_state := SinkStopped \<rparr>"

definition sql_Flush :: "('db, 'tx) Driver \<Rightarrow> ('db, 'tx) SqlSink \<Rightarrow> ('db, 'tx) SqlSink \<times> err option" where
  "sql_Flush drv s =
     (let ready = (\<lambda>(s, r). (s\<lparr> sq_state := SinkReady \<rparr>, r)) in
      case sq_tx s of
        None \<Rightarrow> ready (s, None)
      | Some t \<Rightarrow>
          (case dr_commit drv (sq_db s) t of
             (d, Some e) \<Rightarrow> ready (s\<lparr> sq_db := d \<rparr>, Some (Wrapf ''failed to flush transaction'' e))
           | (d, None) \<Rightarrow>
               (case dr_begin drv d of
                  Inl e \<Rightarrow> ready (s\<lparr> sq_db := d \<rparr>, Some (Wrapf ''failed to begin new transaction'' e))
                | Inr t \<Rightarrow> ready (s\<lparr> sq_db := d, sq_tx := Some t \<rparr>, None))))"

definition sql_GetPosition :: "('db, 'tx) SqlSink \<Rightarrow> Position option" where
  "sql_GetPosition s = map_option Position_Clone (sq_position s)"

definition sql_ApplyDDL :: "('db, 'tx) Driver \<Rightarrow> ('db, 'tx) SqlSink \<Rightarrow> ChangeEvent option \<Rightarrow> ('db, 'tx) SqlSink \<times> err option" where
  "sql_ApplyDDL drv s ddl =
     (case ddl of
        None \<Rightarrow> (s, None)
      | Some e \<Rightarrow>
          (case ev_Metadata e of
             None \<Rightarrow> (s, None)
           | Some m \<Rightarrow>
               (case map_of m ''sql'' of
                  None \<Rightarrow> (s, None)
                | Some q \<Rightarrow> if q = [] then (s, None)
                            else (let (d, r) = dr_exec drv (sq_db s) q [] in (s\<lparr> sq_db := d \<rparr>, r)))))"


section \<open>Atomic writes\<close>

text \<open>
  What the connectors rely on: a transaction starts from the state of the database (\<open>view t\<close> is the
  state it sees), a statement has the same effect and result in it as on the database, committing
  publishes what it sees, and a failed commit publishes nothing. Nothing else writes meanwhile.
\<close>

definition driver_ok :: "('db, 'tx) Driver \<Rightarrow> ('tx \<Rightarrow> 'db) \<Rightarrow> bool" where
  "driver_ok drv view \<longleftrightarrow>
     (\<forall>d t. dr_begin drv d = Inr t \<longrightarrow> view t = d)
     \<and> (\<forall>t q a. dr_exec drv (view t) q a = (view (fst (dr_txexec drv t q a)), snd (dr_txexec drv t q a)))
     \<and> (\<forall>d t. snd (dr_commit drv d t) = None \<longrightarrow> fst (dr_commit drv d t) = view t)
     \<and> (\<forall>d t. snd (dr_commit drv d t) \<noteq> None \<longrightarrow> fst (dr_commit drv d t) = d)"

lemma driver_okD:
  assumes "driver_ok drv view"
  shows "dr_begin drv d = Inr t \<Longrightarrow> view t = d"
    and "dr_exec drv (view t) q a = (view (fst (dr_txexec drv t q a)), snd (dr_txexec drv t q a))"
    and "dr_commit drv d t = (d', None) \<Longrightarrow> d' = view t"
    and "dr_commit drv d t = (d', Some e) \<Longrightarrow> d' = d"
  using assms unfolding driver_ok_def by (blast, blast, metis fst_conv snd_conv, metis fst_conv option.distinct(1) snd_conv)

text \<open>
  The reference: the statements of the events, executed one after the other on the database until one
  fails. \<open>exec_event\<close> is the effect of one event, \<open>exec_events\<close> gives the state after the events that were
  executed, their number and the error of the first that failed.
\<close>

definition event_stmt :: "Dialect \<Rightarrow> SqlConfig \<Rightarrow> ChangeEvent \<Rightarrow> stmt option" where
  "event_stmt dl cfg e =
     (case ev_Type e of
        EventTypeInsert \<Rightarrow> dl_insert dl cfg e
      | EventTypeUpdate \<Rightarrow> Some (dl_update dl cfg e)
      | EventTypeDelete \<Rightarrow> Some (dl_delete dl cfg e)
      | _ \<Rightarrow> Some (Inr None))"

definition exec_event :: "('db, 'tx) Driver \<Rightarrow> stmt \<Rightarrow> 'db \<Rightarrow> 'db \<times> bool" where
  "exec_event drv st d =
     (case st of
        Inl _ \<Rightarrow> (d, False)
      | Inr None \<Rightarrow> (d, True)
      | Inr (Some (q, a)) \<Rightarrow> (let (d', r) = dr_exec drv d q a in (d', r = None)))"

fun exec_events :: "('db, 'tx) Driver \<Rightarrow> Dialect \<Rightarrow> SqlConfig \<Rightarrow> ChangeEvent list \<Rightarrow> 'db \<Rightarrow> ('db \<times> ChangeEvent list \<times> bool) option" where
  "exec_events drv dl cfg [] d = Some (d, [], True)"
| "exec_events drv dl cfg (e # es) d =
     (case event_stmt dl cfg e of
        None \<Rightarrow> None
      | Some st \<Rightarrow>
          (case exec_event drv st d of
             (d', False) \<Rightarrow> Some (d', [], False)
           | (d', True) \<Rightarrow> map_option (\<lambda>(d, pre, ok). (d, e # pre, ok)) (exec_events drv dl cfg es d')))"

text \<open>The state a connector works on: that of its transaction if there is one.\<close>

definition work :: "('tx \<Rightarrow> 'db) \<Rightarrow> ('db, 'tx) SqlSink \<Rightarrow> 'db" where
  "work view s = (case sq_tx s of None \<Rightarrow> sq_db s | Some t \<Rightarrow> view t)"

definition last_position :: "ChangeEvent list \<Rightarrow> Position option \<Rightarrow> Position option" where
  "last_position es p = (if es = [] then p else Some (ev_Position (last es)))"

lemma last_position_Cons [simp]: "last_position (e # es) p = last_position es (Some (ev_Position e))"
  by (simp add: last_position_def)

lemma last_position_Nil [simp]: "last_position [] p = p"
  by (simp add: last_position_def)

text \<open>What a call leaves alone.\<close>

definition same_tx :: "('db, 'tx) SqlSink \<Rightarrow> ('db, 'tx) SqlSink \<Rightarrow> bool" where
  "same_tx s s' \<longleftrightarrow> sq_open s' = sq_open s \<and> (sq_tx s' = None) = (sq_tx s = None)
     \<and> (sq_tx s \<noteq> None \<longrightarrow> sq_db s' = sq_db s) \<and> sq_state s' = sq_state s"

lemma same_tx_refl [simp]: "same_tx s s"
  by (simp add: same_tx_def)

lemma same_tx_trans: "same_tx s s' \<Longrightarrow> same_tx s' s'' \<Longrightarrow> same_tx s s''"
  by (auto simp: same_tx_def)

lemma sql_exec_work:
  assumes "driver_ok drv view" "sql_exec drv verb s st = (s', r)"
  shows "exec_event drv st (work view s) = (work view s', r = None) \<and> same_tx s s'
    \<and> sq_position s' = sq_position s \<and> sq_EventsWritten s' = sq_EventsWritten s \<and> sq_EventsFailed s' = sq_EventsFailed s"
proof (cases st)
  case (Inr o')
  show ?thesis
  proof (cases o')
    case (Some qa)
    obtain q a where qa: "qa = (q, a)" by fastforce
    show ?thesis
    proof (cases "sq_tx s")
      case None
      obtain d x where "dr_exec drv (sq_db s) q a = (d, x)" by fastforce
      then show ?thesis using assms(2) None Inr Some qa
        by (auto simp: sql_exec_def run_stmt_def exec_event_def work_def same_tx_def split: option.splits)
    next
      case (Some t)
      obtain t' x where "dr_txexec drv t q a = (t', x)" by fastforce
      then show ?thesis using assms(2) driver_okD(2) [OF assms(1), of t q a] Some Inr \<open>o' = Some qa\<close> qa
        by (auto simp: sql_exec_def run_stmt_def exec_event_def work_def same_tx_def split: option.splits)
    qed
  qed (use assms(2) Inr in \<open>auto simp: sql_exec_def exec_event_def\<close>)
qed (use assms(2) in \<open>auto simp: sql_exec_def exec_event_def\<close>)

text \<open>Writing one event that is no DDL statement is executing its statement.\<close>

definition write_one ::
  "('db, 'tx) Driver \<Rightarrow> Dialect \<Rightarrow> SqlConfig \<Rightarrow> ('db, 'tx) SqlSink \<Rightarrow> ChangeEvent \<Rightarrow> (('db, 'tx) SqlSink \<times> err option) option" where
  "write_one drv dl cfg s e =
     (if IsDDL e then Some (sql_handleDDL drv cfg s e)
      else if IsDataEvent e then sql_writeDataEvent drv dl cfg s e
      else Some (s, None))"

definition stmt_verb :: "EventType \<Rightarrow> string" where
  "stmt_verb t = (case t of EventTypeInsert \<Rightarrow> ''insert'' | EventTypeUpdate \<Rightarrow> ''update'' | _ \<Rightarrow> ''delete'')"

lemma write_one_stmt:
  "\<not> IsDDL e \<Longrightarrow> write_one drv dl cfg s e = map_option (sql_exec drv (stmt_verb (ev_Type e)) s) (event_stmt dl cfg e)"
  by (cases "ev_Type e")
    (auto simp: write_one_def IsDDL_def IsDataEvent_def sql_writeDataEvent_def event_stmt_def sql_exec_def stmt_verb_def)

lemma write_loop_Cons:
  "write_loop drv dl cfg (e # es) s =
    (case write_one drv dl cfg s e of
       None \<Rightarrow> None
     | Some (s, Some er) \<Rightarrow> Some (s\<lparr> sq_EventsFailed := sq_EventsFailed s + 1 \<rparr>, Some er)
     | Some (s, None) \<Rightarrow>
         write_loop drv dl cfg es (s\<lparr> sq_EventsWritten := sq_EventsWritten s + 1, sq_position := Some (ev_Position e) \<rparr>))"
  by (simp add: write_one_def)

declare write_loop.simps(2) [simp del]

lemma write_loop_exec:
  assumes "driver_ok drv view" "list_all (\<lambda>e. \<not> IsDDL e) es"
  shows "case exec_events drv dl cfg es (work view s) of
      None \<Rightarrow> write_loop drv dl cfg es s = None
    | Some (d, pre, ok) \<Rightarrow> (\<exists>s' r. write_loop drv dl cfg es s = Some (s', r) \<and> (r = None) = ok \<and> work view s' = d \<and> same_tx s s'
        \<and> sq_position s' = last_position pre (sq_position s) \<and> sq_EventsWritten s' = sq_EventsWritten s + int (length pre)
        \<and> sq_EventsFailed s' = sq_EventsFailed s + (if ok then 0 else 1))"
  using assms(2)
proof (induction es arbitrary: s)
  case (Cons e es)
  note step = write_loop_Cons [of drv dl cfg e es s]
  have one: "write_one drv dl cfg s e = map_option (sql_exec drv (stmt_verb (ev_Type e)) s) (event_stmt dl cfg e)"
    using Cons.prems by (simp add: write_one_stmt)
  show ?case
  proof (cases "event_stmt dl cfg e")
    case None
    then show ?thesis using step one by simp
  next
    case (Some st)
    obtain s1 r where ex: "sql_exec drv (stmt_verb (ev_Type e)) s st = (s1, r)" by fastforce
    note w = sql_exec_work [OF assms(1) ex]
    show ?thesis
    proof (cases r)
      case None
      let ?s2 = "s1\<lparr> sq_EventsWritten := sq_EventsWritten s1 + 1, sq_position := Some (ev_Position e) \<rparr>"
      have eq: "work view ?s2 = work view s1" by (cases "sq_tx s1") (simp_all add: work_def)
      have same: "same_tx s ?s2" using w by (simp add: same_tx_def)
      have IH: "case exec_events drv dl cfg es (work view ?s2) of
          None \<Rightarrow> write_loop drv dl cfg es ?s2 = None
        | Some (d, pre, ok) \<Rightarrow> (\<exists>s' r. write_loop drv dl cfg es ?s2 = Some (s', r) \<and> (r = None) = ok \<and> work view s' = d
            \<and> same_tx ?s2 s' \<and> sq_position s' = last_position pre (sq_position ?s2)
            \<and> sq_EventsWritten s' = sq_EventsWritten ?s2 + int (length pre)
            \<and> sq_EventsFailed s' = sq_EventsFailed ?s2 + (if ok then 0 else 1))"
        using Cons.IH [of ?s2] Cons.prems by simp
      have loop: "write_loop drv dl cfg (e # es) s = write_loop drv dl cfg es ?s2" using step one Some ex None by simp
      have evs: "exec_events drv dl cfg (e # es) (work view s)
          = map_option (\<lambda>(d, pre, ok). (d, e # pre, ok)) (exec_events drv dl cfg es (work view ?s2))"
        using Some w None eq by simp
      show ?thesis unfolding loop evs using IH w same_tx_trans [OF same]
        by (cases "exec_events drv dl cfg es (work view ?s2)") (auto split: prod.splits)
    next
      case (Some er)
      then show ?thesis using step one \<open>event_stmt dl cfg e = Some st\<close> ex w by (auto simp: work_def same_tx_def)
    qed
  qed
qed (auto simp: work_def)

lemma exec_events_all:
  "exec_events drv dl cfg es d = Some (d', pre, ok) \<Longrightarrow> (ok \<longrightarrow> pre = es) \<and> (\<not> ok \<longrightarrow> (\<exists>e post. es = pre @ e # post))"
proof (induction es arbitrary: d d' pre ok)
  case (Cons e es)
  obtain st where st: "event_stmt dl cfg e = Some st" using Cons.prems by (cases "event_stmt dl cfg e") auto
  obtain d1 b where ex: "exec_event drv st d = (d1, b)" by fastforce
  show ?case
  proof (cases b)
    case True
    then obtain pre' where "exec_events drv dl cfg es d1 = Some (d', pre', ok)" "pre = e # pre'"
      using Cons.prems st ex by auto
    then show ?thesis using Cons.IH by fastforce
  next
    case False
    then show ?thesis using Cons.prems st ex by auto
  qed
qed simp

lemma exec_events_returns:
  "list_all (\<lambda>e. event_stmt dl cfg e \<noteq> None) es \<Longrightarrow> exec_events drv dl cfg es d \<noteq> None"
proof (induction es arbitrary: d)
  case (Cons e es)
  then obtain st where st: "event_stmt dl cfg e = Some st" by auto
  obtain d1 b where ex: "exec_event drv st d = (d1, b)" by fastforce
  have "exec_events drv dl cfg es d1 \<noteq> None" using Cons by simp
  then show ?case using st ex by (cases b) auto
qed simp

lemma sql_GetPosition_eq [simp]: "sql_GetPosition s = sq_position s"
  by (cases "sq_position s") (simp_all add: sql_GetPosition_def)

lemma sql_Write_tx:
  assumes "driver_ok drv view" "sqc_UseTransaction cfg" "list_all (\<lambda>e. \<not> IsDDL e) es" "dr_begin drv (sq_db s) = Inr t"
    "exec_events drv dl cfg es (sq_db s) = Some (d, pre, ok)"
  shows "\<exists>s' r. sql_Write drv dl cfg s es = Some (s', r) \<and> sq_tx s' = None \<and> sq_state s' = SinkReady
    \<and> sq_position s' = last_position pre (sq_position s) \<and> (r = None \<longrightarrow> ok \<and> sq_db s' = d) \<and> (r \<noteq> None \<longrightarrow> sq_db s' = sq_db s)
    \<and> sq_open s' = sq_open s + (if ok \<or> dl_rollback dl then 0 else 1)"
proof -
  let ?s0 = "s\<lparr> sq_state := SinkWriting, sq_tx := Some t \<rparr>"
  have "work view ?s0 = sq_db s" using driver_okD(1) [OF assms(1,4)] by (simp add: work_def)
  then obtain s1 r where loop: "write_loop drv dl cfg es ?s0 = Some (s1, r)" "(r = None) = ok" "work view s1 = d" "same_tx ?s0 s1"
      "sq_position s1 = last_position pre (sq_position s)"
    using write_loop_exec [OF assms(1,3), of dl cfg ?s0] assms(5) by auto
  then obtain t1 where t1: "sq_tx s1 = Some t1" "sq_db s1 = sq_db s" "sq_open s1 = sq_open s" "view t1 = d"
    by (auto simp: same_tx_def work_def)
  have W: "sql_Write drv dl cfg s es =
      (case r of
         Some e \<Rightarrow> Some ((end_tx dl False s1)\<lparr> sq_state := SinkReady \<rparr>, Some e)
       | None \<Rightarrow> (case dr_commit drv (sq_db s) t1 of
           (d, None) \<Rightarrow> Some ((end_tx dl True (s1\<lparr> sq_db := d \<rparr>))\<lparr> sq_state := SinkReady \<rparr>, None)
         | (d, Some e) \<Rightarrow> Some ((end_tx dl True (s1\<lparr> sq_db := d \<rparr>))\<lparr> sq_state := SinkReady \<rparr>,
                                Some (Wrapf ''failed to commit transaction'' e))))"
    using assms(2,4) loop(1) t1 by (simp add: sql_Write_def Let_def split: option.split prod.split)
  show ?thesis
  proof (cases r)
    case (Some e)
    then show ?thesis using W loop t1 by (auto simp: end_tx_def)
  next
    case None
    obtain d' c where c: "dr_commit drv (sq_db s) t1 = (d', c)" by fastforce
    show ?thesis
    proof (cases c)
      case None
      then have "d' = d" using driver_okD(3) [OF assms(1)] c t1(4) by blast
      then show ?thesis using W c None \<open>r = None\<close> loop t1 by (auto simp: end_tx_def)
    next
      case (Some e)
      then have "d' = sq_db s" using driver_okD(4) [OF assms(1)] c by blast
      then show ?thesis using W c Some \<open>r = None\<close> loop t1 by (auto simp: end_tx_def)
    qed
  qed
qed

text \<open>The dialects whose statements can always be built.\<close>

lemma pg_executeInsert_returns: "\<not> sqc_UseCopy cfg \<Longrightarrow> \<exists>st. pg_executeInsert cfg e = Some st"
  by (subst pg_executeInsert.simps) (simp add: Let_def)

lemma event_stmt_returns:
  assumes "dl \<in> {mysql_dialect, oracle_dialect, sqlserver_dialect} \<or> dl = pg_dialect \<and> \<not> sqc_UseCopy cfg"
  shows "event_stmt dl cfg e \<noteq> None"
  using assms pg_executeInsert_returns [of cfg e]
  by (auto simp: event_stmt_def mysql_dialect_def oracle_dialect_def sqlserver_dialect_def pg_dialect_def split: EventType.split)

text \<open>
  C14. With transactions, \<^verbatim>\<open>Write\<close> of a batch without DDL statements returns, and it is atomic: without
  an error the database has taken exactly the statements of all events in their order, with an error
  it is as before. The position, however, is the one of the last event that was executed in the
  transaction, also when the batch was not committed, and the connectors for MySQL and PostgreSQL
  leave the transaction of a failed batch open.
\<close>

theorem sql_write_atomic:
  assumes "driver_ok drv view" "sqc_UseTransaction cfg" "list_all (\<lambda>e. \<not> IsDDL e) es" "dr_begin drv (sq_db s) = Inr t"
    and "dl \<in> {mysql_dialect, oracle_dialect, sqlserver_dialect} \<or> dl = pg_dialect \<and> \<not> sqc_UseCopy cfg"
  shows "\<exists>s' r d pre ok. sql_Write drv dl cfg s es = Some (s', r)
    \<and> exec_events drv dl cfg es (sq_db s) = Some (d, pre, ok)
    \<and> (r = None \<longrightarrow> pre = es \<and> sq_db s' = d) \<and> (r \<noteq> None \<longrightarrow> sq_db s' = sq_db s)
    \<and> sql_GetPosition s' = last_position pre (sq_position s)
    \<and> sq_open s' = sq_open s + (if ok \<or> dl_rollback dl then 0 else 1) \<and> sq_tx s' = None"
proof -
  have "list_all (\<lambda>e. event_stmt dl cfg e \<noteq> None) es" using event_stmt_returns [OF assms(5)] by (simp add: list_all_iff)
  then obtain d pre ok where ex: "exec_events drv dl cfg es (sq_db s) = Some (d, pre, ok)"
    using exec_events_returns [of dl cfg es drv "sq_db s"] by (metis not_None_eq prod_cases3)
  show ?thesis using sql_Write_tx [OF assms(1-4) ex] ex exec_events_all [OF ex]
    by auto
qed

text \<open>
  A witness: a database that records the statements it executes and refuses deletions. An insert
  and a deletion are written in one transaction: nothing is committed, but the position has moved to
  the insert and the transaction stays open.
\<close>

definition log_driver :: "(string list, string list) Driver" where
  "log_driver = \<lparr> dr_begin = Inr,
     dr_exec = (\<lambda>d q a. if HasPrefix q ''DELETE'' then (d, Some (Errorf ''refused'')) else (d @ [q], None)),
     dr_txexec = (\<lambda>d q a. if HasPrefix q ''DELETE'' then (d, Some (Errorf ''refused'')) else (d @ [q], None)),
     dr_commit = (\<lambda>d t. (t, None)) \<rparr>"

lemma log_driver_ok: "driver_ok log_driver id"
  by (auto simp: driver_ok_def log_driver_def)

definition wit_sqlcfg :: SqlConfig where
  "wit_sqlcfg = \<lparr> sqc_UseTransaction = True, sqc_InsertStrategy = ''upsert'', sqc_DDLPolicy = ''apply'',
     sqc_DefaultSchema = [], sqc_UseCopy = False \<rparr>"

definition wit_row :: "int \<Rightarrow> RowData" where
  "wit_row n = \<lparr> row_Fields = Some [(''id'', \<lparr> fld_Name = ''id'', fld_Value = VInt n, fld_Type = ''number'', fld_Null = False \<rparr>)] \<rparr>"

definition wit_change :: "EventType \<Rightarrow> int \<Rightarrow> uint64 \<Rightarrow> ChangeEvent" where
  "wit_change t n p = \<lparr> ev_ID = [], ev_Source = SourceInfo_zero, ev_Type = t, ev_Position = Position_zero\<lparr> pos_LSN := p \<rparr>,
     ev_Table = TableInfo_zero\<lparr> ti_Database := ''db'', ti_Table := ''t'', ti_PrimaryKeyColumns := [''id''] \<rparr>,
     ev_Before = wit_row n, ev_After = wit_row n, ev_Timestamp = 0, ev_Transaction = None, ev_Schema = None, ev_Metadata = None \<rparr>"

definition wit_sqlsink :: "string list \<Rightarrow> (string list, string list) SqlSink" where
  "wit_sqlsink d = \<lparr> sq_state = SinkReady, sq_EventsWritten = 0, sq_EventsFailed = 0, sq_position = None, sq_db = d,
     sq_tx = None, sq_open = 0 \<rparr>"

lemma wit_exec:
  "exec_events log_driver mysql_dialect wit_sqlcfg [wit_change EventTypeInsert 1 7, wit_change EventTypeDelete 2 8] []
   = Some ([''INSERT INTO `db`.`t` (`id`) VALUES (?) ON DUPLICATE KEY UPDATE `id` = VALUES(`id`)''],
       [wit_change EventTypeInsert 1 7], False)"
  by code_simp

theorem sql_write_atomic_witness:
  "\<exists>s' r. sql_Write log_driver mysql_dialect wit_sqlcfg (wit_sqlsink [])
      [wit_change EventTypeInsert 1 7, wit_change EventTypeDelete 2 8] = Some (s', r)
    \<and> sq_db s' = [] \<and> sql_GetPosition s' = Some (Position_zero\<lparr> pos_LSN := 7 \<rparr>) \<and> sq_open s' = 1"
proof -
  let ?es = "[wit_change EventTypeInsert 1 7, wit_change EventTypeDelete 2 8]"
  have p: "sqc_UseTransaction wit_sqlcfg" "list_all (\<lambda>e. \<not> IsDDL e) ?es"
    "dr_begin log_driver (sq_db (wit_sqlsink [])) = Inr []"
    by (simp_all add: wit_sqlcfg_def IsDDL_def wit_change_def log_driver_def wit_sqlsink_def)
  have m: "mysql_dialect \<in> {mysql_dialect, oracle_dialect, sqlserver_dialect}" by simp
  obtain s' r d pre ok where *: "sql_Write log_driver mysql_dialect wit_sqlcfg (wit_sqlsink []) ?es = Some (s', r)"
      "exec_events log_driver mysql_dialect wit_sqlcfg ?es (sq_db (wit_sqlsink [])) = Some (d, pre, ok)"
      "r = None \<longrightarrow> pre = ?es \<and> sq_db s' = d" "r \<noteq> None \<longrightarrow> sq_db s' = sq_db (wit_sqlsink [])"
      "sql_GetPosition s' = last_position pre (sq_position (wit_sqlsink []))"
      "sq_open s' = sq_open (wit_sqlsink []) + (if ok \<or> dl_rollback mysql_dialect then 0 else 1)"
    using sql_write_atomic [OF log_driver_ok p disjI1 [OF m]] by blast
  have "pre = [wit_change EventTypeInsert 1 7]" "\<not> ok" using *(2) wit_exec by (simp_all add: wit_sqlsink_def)
  then show ?thesis using * by (auto simp: wit_sqlsink_def wit_change_def mysql_dialect_def)
qed

section \<open>Inserts that do not return\<close>

lemma pg_copy_none:
  assumes "sqc_UseCopy cfg" "10 < length (ColumnNames (Some (ev_After e)))"
  shows "pg_executeInsert cfg e = None"
proof (rule ccontr)
  assume "pg_executeInsert cfg e \<noteq> None"
  then obtain y where "pg_executeInsert cfg e = Some y" by blast
  then have "\<not> (sqc_UseCopy cfg \<and> 10 < length (ColumnNames (Some (ev_After e))))"
  proof (rule pg_executeInsert.raw_induct [rotated])
    fix f cfg e y
    assume IH: "\<And>cfg e y. f cfg e = Some y \<Longrightarrow> \<not> (sqc_UseCopy cfg \<and> 10 < length (ColumnNames (Some (ev_After e))))"
      and "(let columns = ColumnNames (Some (ev_After e))
            in if length columns = 0 then Some (Inl (Errorf ''no columns to insert''))
               else if sqc_UseCopy cfg \<and> 10 < length columns then f cfg e else Some (sql_insert (pg_insert_query cfg e) e)) = Some y"
    then show "\<not> (sqc_UseCopy cfg \<and> 10 < length (ColumnNames (Some (ev_After e))))"
      by (auto simp: Let_def split: if_splits)
  qed
  then show False using assms by blast
qed

text \<open>
  C40. Writing an insert to PostgreSQL does not return exactly when \<^verbatim>\<open>UseCopy\<close> is set and the row has more
  than ten columns: \<^verbatim>\<open>executeInsert\<close> and \<^verbatim>\<open>executeCopyInsert\<close> then call each other without end.
\<close>

theorem pg_copy_insert_diverges:
  assumes "sqc_UseTransaction cfg \<longrightarrow> dr_begin drv (sq_db s) = Inr t" "ev_Type e = EventTypeInsert"
  shows "postgres_Write drv cfg s [e] = None \<longleftrightarrow> sqc_UseCopy cfg \<and> 10 < length (ColumnNames (Some (ev_After e)))"
proof -
  have loop: "write_loop drv pg_dialect cfg [e] s' = None \<longleftrightarrow> pg_executeInsert cfg e = None" for s'
    using assms(2) by (auto simp: write_loop.simps(2) IsDDL_def IsDataEvent_def sql_writeDataEvent_def pg_dialect_def split: option.splits prod.splits)
  have "postgres_Write drv cfg s [e] = None \<longleftrightarrow> pg_executeInsert cfg e = None"
  proof (cases "sqc_UseTransaction cfg")
    case True
    then show ?thesis using assms(1) loop [of "s\<lparr> sq_state := SinkWriting, sq_tx := Some t \<rparr>"]
      by (cases "write_loop drv pg_dialect cfg [e] (s\<lparr> sq_state := SinkWriting, sq_tx := Some t \<rparr>)")
        (auto simp: postgres_Write_def sql_Write_def Let_def split: option.split prod.split)
  next
    case False
    then show ?thesis using loop [of "s\<lparr> sq_state := SinkWriting \<rparr>"]
      by (simp add: postgres_Write_def sql_Write_def Let_def)
  qed
  moreover have "pg_executeInsert cfg e = None \<longleftrightarrow> sqc_UseCopy cfg \<and> 10 < length (ColumnNames (Some (ev_After e)))"
    using pg_copy_none [of cfg e] by (subst pg_executeInsert.simps) (auto simp: Let_def)
  ultimately show ?thesis by simp
qed

definition wide_row :: RowData where
  "wide_row = \<lparr> row_Fields = Some (map (\<lambda>i. (nat_decimal i, \<lparr> fld_Name = nat_decimal i, fld_Value = VInt (int i), fld_Type = [],
     fld_Null = False \<rparr>)) [0..<11]) \<rparr>"

theorem pg_copy_insert_diverges_witness:
  "postgres_Write log_driver (wit_sqlcfg\<lparr> sqc_UseCopy := True \<rparr>) (wit_sqlsink []) [(wit_change EventTypeInsert 1 7)\<lparr> ev_After := wide_row \<rparr>] = None"
proof -
  have "length (ColumnNames (Some wide_row)) = 11" by (simp add: ColumnNames_def fields_of_def wide_row_def)
  then show ?thesis
    using pg_copy_insert_diverges [of "wit_sqlcfg\<lparr> sqc_UseCopy := True \<rparr>" log_driver "wit_sqlsink []" "[]"
        "(wit_change EventTypeInsert 1 7)\<lparr> ev_After := wide_row \<rparr>"]
    by (simp add: log_driver_def wit_sqlsink_def wit_change_def)
qed

section \<open>Concurrent calls\<close>

text \<open>
  Two calls of \<^verbatim>\<open>Write\<close> on one connector run at the same time: the connector guards its fields with a
  mutex but not a whole call, and both keep their transaction in the one field \<^verbatim>\<open>c.tx\<close>. The state has the
  database, all transactions that were begun (with a flag for those that have ended) and, for every
  call, how far it is. A step is one statement, one begin, or one commit with the deferred function
  after it; any other interleaving of the code is finer.
\<close>

definition ErrTxDone :: err where "ErrTxDone = Errorf ''sql: transaction has already been committed or rolled back''"

datatype call = CallBegin "ChangeEvent list" | CallExec "ChangeEvent list" | CallDone "err option"

record ('db, 'tx) SharedSink =
  ws_db :: 'db
  ws_txs :: "('tx \<times> bool) list"
  ws_tx :: "nat option"
  ws_calls :: "call list"

definition set_call :: "nat \<Rightarrow> call \<Rightarrow> ('db, 'tx) SharedSink \<Rightarrow> ('db, 'tx) SharedSink" where
  "set_call i c w = w\<lparr> ws_calls := (ws_calls w)[i := c] \<rparr>"

definition finish_call :: "nat \<Rightarrow> err option \<Rightarrow> ('db, 'tx) SharedSink \<Rightarrow> ('db, 'tx) SharedSink" where
  "finish_call i r w = set_call i (CallDone r) (w\<lparr> ws_tx := None \<rparr>)"

definition shared_exec :: "('db, 'tx) Driver \<Rightarrow> ('db, 'tx) SharedSink \<Rightarrow> string \<Rightarrow> gval list \<Rightarrow> ('db, 'tx) SharedSink \<times> err option" where
  "shared_exec drv w q a =
     (case ws_tx w of
        None \<Rightarrow> (let (d, r) = dr_exec drv (ws_db w) q a in (w\<lparr> ws_db := d \<rparr>, r))
      | Some k \<Rightarrow>
          (case ws_txs w ! k of
             (t, True) \<Rightarrow> (w, Some ErrTxDone)
           | (t, False) \<Rightarrow> (let (t', r) = dr_txexec drv t q a in (w\<lparr> ws_txs := (ws_txs w)[k := (t', False)] \<rparr>, r))))"

definition shared_commit :: "('db, 'tx) Driver \<Rightarrow> ('db, 'tx) SharedSink \<Rightarrow> ('db, 'tx) SharedSink \<times> err option" where
  "shared_commit drv w =
     (case ws_tx w of
        None \<Rightarrow> (w, None)
      | Some k \<Rightarrow>
          (case ws_txs w ! k of
             (t, True) \<Rightarrow> (w, Some (Wrapf ''failed to commit transaction'' ErrTxDone))
           | (t, False) \<Rightarrow>
               (case dr_commit drv (ws_db w) t of
                  (d, r) \<Rightarrow> (w\<lparr> ws_db := d, ws_txs := (ws_txs w)[k := (t, True)] \<rparr>,
                             map_option (Wrapf ''failed to commit transaction'') r))))"

definition write_step :: "('db, 'tx) Driver \<Rightarrow> SqlConfig \<Rightarrow> ('db, 'tx) SharedSink \<Rightarrow> nat \<Rightarrow> ('db, 'tx) SharedSink" where
  "write_step drv cfg w i =
     (case ws_calls w ! i of
        CallDone _ \<Rightarrow> w
      | CallBegin es \<Rightarrow>
          (case dr_begin drv (ws_db w) of
             Inl e \<Rightarrow> set_call i (CallDone (Some (Wrapf ''failed to begin transaction'' e))) w
           | Inr t \<Rightarrow> set_call i (CallExec es) (w\<lparr> ws_tx := Some (length (ws_txs w)), ws_txs := ws_txs w @ [(t, False)] \<rparr>))
      | CallExec [] \<Rightarrow> (let (w', r) = shared_commit drv w in finish_call i r w')
      | CallExec (e # es) \<Rightarrow>
          (case event_stmt mysql_dialect cfg e of
             None \<Rightarrow> w
           | Some (Inl er) \<Rightarrow> finish_call i (Some er) w
           | Some (Inr None) \<Rightarrow> set_call i (CallExec es) w
           | Some (Inr (Some (q, a))) \<Rightarrow>
               (case shared_exec drv w q a of
                  (w', None) \<Rightarrow> set_call i (CallExec es) w'
                | (w', Some er) \<Rightarrow> finish_call i (Some (Wrapf (''failed to execute '' @ stmt_verb (ev_Type e)) er)) w')))"

definition write_calls :: "'db \<Rightarrow> ChangeEvent list list \<Rightarrow> ('db, 'tx) SharedSink" where
  "write_calls d batches = \<lparr> ws_db = d, ws_txs = [], ws_tx = None, ws_calls = map CallBegin batches \<rparr>"

text \<open>A call that runs alone does what \<^verbatim>\<open>Write\<close> does.\<close>

lemma write_step_done: "ws_calls w ! i = CallDone r \<Longrightarrow> foldl (write_step drv cfg) w (replicate n i) = w"
  by (induction n) (simp_all add: write_step_def)

lemma lone_exec:
  assumes "list_all (\<lambda>e. \<not> IsDDL e) es" "write_loop drv mysql_dialect cfg es s = Some (s', r)" "sq_tx s = Some t" "sq_db s = d"
    "w = \<lparr> ws_db = d, ws_txs = [(t, False)], ws_tx = Some 0, ws_calls = [CallExec es] \<rparr>"
  shows "\<exists>t'. sq_tx s' = Some t' \<and> sq_db s' = d \<and> foldl (write_step drv cfg) w (replicate (length es) 0) =
    (case r of
       None \<Rightarrow> \<lparr> ws_db = d, ws_txs = [(t', False)], ws_tx = Some 0, ws_calls = [CallExec []] \<rparr>
     | Some e \<Rightarrow> \<lparr> ws_db = d, ws_txs = [(t', False)], ws_tx = None, ws_calls = [CallDone (Some e)] \<rparr>)"
  using assms
proof (induction es arbitrary: s t w)
  case (Cons e es)
  obtain st where st: "event_stmt mysql_dialect cfg e = Some st" using event_stmt_returns [of mysql_dialect cfg e] by auto
  have loop: "write_loop drv mysql_dialect cfg (e # es) s =
      (case sql_exec drv (stmt_verb (ev_Type e)) s st of
         (s, Some er) \<Rightarrow> Some (s\<lparr> sq_EventsFailed := sq_EventsFailed s + 1 \<rparr>, Some er)
       | (s, None) \<Rightarrow> write_loop drv mysql_dialect cfg es
           (s\<lparr> sq_EventsWritten := sq_EventsWritten s + 1, sq_position := Some (ev_Position e) \<rparr>))"
    using Cons.prems(1) st by (simp add: write_loop_Cons write_one_stmt split: prod.split)
  define t1 where "t1 = (case st of Inr (Some (q, a)) \<Rightarrow> fst (dr_txexec drv t q a) | _ \<Rightarrow> t)"
  define x where "x = snd (sql_exec drv (stmt_verb (ev_Type e)) s st)"
  have ex: "sql_exec drv (stmt_verb (ev_Type e)) s st = (s\<lparr> sq_tx := Some t1 \<rparr>, x)"
    using Cons.prems(3) unfolding t1_def x_def
    by (auto simp: sql_exec_def run_stmt_def split: sum.split option.split prod.split)
  have step: "write_step drv cfg w 0 =
      (case x of
         None \<Rightarrow> \<lparr> ws_db = d, ws_txs = [(t1, False)], ws_tx = Some 0, ws_calls = [CallExec es] \<rparr>
       | Some er \<Rightarrow> \<lparr> ws_db = d, ws_txs = [(t1, False)], ws_tx = None, ws_calls = [CallDone (Some er)] \<rparr>)"
    using Cons.prems(3-5) st unfolding t1_def x_def
    by (auto simp: write_step_def sql_exec_def run_stmt_def shared_exec_def set_call_def finish_call_def
        split: sum.split option.split prod.split)
  show ?case
  proof (cases x)
    case None
    let ?s1 = "s\<lparr> sq_tx := Some t1, sq_EventsWritten := sq_EventsWritten s + 1, sq_position := Some (ev_Position e) \<rparr>"
    have "write_loop drv mysql_dialect cfg es ?s1 = Some (s', r)" using Cons.prems(2) loop ex None by simp
    then show ?thesis using Cons.IH [of ?s1 t1 "write_step drv cfg w 0"] Cons.prems(1,4) step None by simp
  next
    case (Some er)
    then have "r = Some er" "s' = s\<lparr> sq_tx := Some t1, sq_EventsFailed := sq_EventsFailed s + 1 \<rparr>"
      using Cons.prems(2) loop ex by auto
    moreover have "foldl (write_step drv cfg) (write_step drv cfg w 0) (replicate (length es) 0) = write_step drv cfg w 0"
      using step Some by (intro write_step_done [of _ _ "Some er"]) simp
    ultimately show ?thesis using Cons.prems(4) step Some by simp
  qed
qed auto

lemma lone_write:
  assumes "list_all (\<lambda>e. \<not> IsDDL e) es" "sqc_UseTransaction cfg" "mysql_Write drv cfg s es = Some (s', r)"
  shows "\<exists>w. foldl (write_step drv cfg) (write_calls (sq_db s) [es]) (replicate (length es + 2) 0) = w
    \<and> ws_calls w = [CallDone r] \<and> ws_db w = sq_db s'"
proof (cases "dr_begin drv (sq_db s)")
  case (Inl e)
  let ?w = "\<lparr> ws_db = sq_db s, ws_txs = [], ws_tx = None, ws_calls = [CallDone (Some (Wrapf ''failed to begin transaction'' e))] \<rparr>
    :: ('a, 'b) SharedSink"
  have "write_step drv cfg (write_calls (sq_db s) [es]) 0 = ?w"
    using Inl by (simp add: write_step_def write_calls_def set_call_def)
  moreover have "foldl (write_step drv cfg) ?w (replicate (length es + 1) 0) = ?w" by (rule write_step_done) simp
  moreover have "replicate (length es + 2) (0 :: nat) = 0 # replicate (length es + 1) 0" by simp
  ultimately have "foldl (write_step drv cfg) (write_calls (sq_db s) [es]) (replicate (length es + 2) 0) = ?w"
    by (metis foldl_Cons)
  then show ?thesis using assms(2,3) Inl by (auto simp: mysql_Write_def sql_Write_def Let_def)
next
  case (Inr t)
  let ?s0 = "s\<lparr> sq_state := SinkWriting, sq_tx := Some t \<rparr>"
  let ?w = "\<lparr> ws_db = sq_db s, ws_txs = [(t, False)], ws_tx = Some 0, ws_calls = [CallExec es] \<rparr>"
  have w: "write_step drv cfg (write_calls (sq_db s) [es]) 0 = ?w"
    using Inr by (simp add: write_step_def write_calls_def set_call_def)
  obtain s1 r1 where loop: "write_loop drv mysql_dialect cfg es ?s0 = Some (s1, r1)"
    using assms(2,3) Inr by (auto simp: mysql_Write_def sql_Write_def Let_def split: option.splits)
  obtain t1 where t1: "sq_tx s1 = Some t1" "sq_db s1 = sq_db s"
      "foldl (write_step drv cfg) ?w (replicate (length es) 0) =
        (case r1 of
           None \<Rightarrow> \<lparr> ws_db = sq_db s, ws_txs = [(t1, False)], ws_tx = Some 0, ws_calls = [CallExec []] \<rparr>
         | Some e \<Rightarrow> \<lparr> ws_db = sq_db s, ws_txs = [(t1, False)], ws_tx = None, ws_calls = [CallDone (Some e)] \<rparr>)"
    using lone_exec [OF assms(1) loop, of t "sq_db s" ?w] by auto
  have rep: "replicate (length es + 2) (0 :: nat) = 0 # replicate (length es) 0 @ [0]"
    by (simp add: replicate_append_same)
  have run: "foldl (write_step drv cfg) (write_calls (sq_db s) [es]) (replicate (length es + 2) 0)
      = write_step drv cfg (foldl (write_step drv cfg) ?w (replicate (length es) 0)) 0"
    unfolding rep using w by simp
  show ?thesis unfolding run t1(3) using assms(2,3) Inr loop t1(1,2)
    by (auto simp: mysql_Write_def sql_Write_def Let_def end_tx_def write_step_def shared_commit_def finish_call_def set_call_def
        split: option.splits prod.splits)
qed

text \<open>
  C23. Concurrent calls lose changes without an error. For any two events whose statements the database
  accepts, written by two calls on one connector with transactions, both calls return without an
  error in either of two interleavings: one after the other both changes are committed; interleaved,
  the first call commits the transaction of the second, its own is never ended, and the database has
  the second change only.
\<close>

theorem concurrent_writes_lose:
  assumes "driver_ok drv view" "\<forall>d. \<exists>t. dr_begin drv d = Inr t" "\<forall>d t. snd (dr_commit drv d t) = None"
    and "event_stmt mysql_dialect cfg e1 = Some (Inr (Some (q1, a1)))" "event_stmt mysql_dialect cfg e2 = Some (Inr (Some (q2, a2)))"
    and "\<forall>t. snd (dr_txexec drv t q1 a1) = None \<and> snd (dr_txexec drv t q2 a2) = None"
  shows "(\<exists>sched w. foldl (write_step drv cfg) (write_calls d [[e1], [e2]]) sched = w
        \<and> ws_calls w = [CallDone None, CallDone None] \<and> ws_db w = fst (dr_exec drv (fst (dr_exec drv d q1 a1)) q2 a2))
    \<and> (\<exists>sched w. foldl (write_step drv cfg) (write_calls d [[e1], [e2]]) sched = w
        \<and> ws_calls w = [CallDone None, CallDone None] \<and> ws_db w = fst (dr_exec drv d q2 a2))"
proof -
  obtain bg where bg: "dr_begin drv d = Inr (bg d)" for d using assms(2) by metis
  have vb: "view (bg d) = d" for d using driver_okD(1) [OF assms(1) bg] .
  define x1 where "x1 = (\<lambda>t. fst (dr_txexec drv t q1 a1))"
  define x2 where "x2 = (\<lambda>t. fst (dr_txexec drv t q2 a2))"
  have x: "dr_txexec drv t q1 a1 = (x1 t, None)" "dr_txexec drv t q2 a2 = (x2 t, None)" for t
    using assms(6) unfolding x1_def x2_def by (metis prod.collapse)+
  have vx: "view (x1 t) = fst (dr_exec drv (view t) q1 a1)" "view (x2 t) = fst (dr_exec drv (view t) q2 a2)" for t
    using driver_okD(2) [OF assms(1)] unfolding x1_def x2_def by simp_all
  have cm: "dr_commit drv d t = (view t, None)" for d t
    using driver_okD(3) [OF assms(1), of d t] assms(3) by (metis prod.collapse)
  note ev = write_step_def write_calls_def set_call_def finish_call_def shared_exec_def shared_commit_def bg x cm assms(4,5)
  have "ws_calls w = [CallDone None, CallDone None] \<and> ws_db w = view (x2 (bg (view (x1 (bg d)))))"
    if "w = foldl (write_step drv cfg) (write_calls d [[e1], [e2]]) [0, 0, 0, 1, 1, 1]" for w
    using that by (simp add: ev)
  moreover have "ws_calls w = [CallDone None, CallDone None] \<and> ws_db w = view (x2 (bg d))"
    if "w = foldl (write_step drv cfg) (write_calls d [[e1], [e2]]) [0, 0, 1, 1, 0, 1]" for w
    using that by (simp add: ev)
  ultimately show ?thesis unfolding vx vb by blast
qed

theorem concurrent_writes_lose_witness:
  "\<exists>sched w. foldl (write_step log_driver wit_sqlcfg)
        (write_calls [] [[wit_change EventTypeInsert 1 7], [wit_change EventTypeUpdate 2 8]]) sched = w
    \<and> ws_calls w = [CallDone None, CallDone None] \<and> ws_db w = [''UPDATE `db`.`t` SET `id` = ? WHERE `id` = ?'']"
proof -
  have s: "event_stmt mysql_dialect wit_sqlcfg (wit_change EventTypeInsert 1 7)
      = Some (Inr (Some (''INSERT INTO `db`.`t` (`id`) VALUES (?) ON DUPLICATE KEY UPDATE `id` = VALUES(`id`)'', [VInt 1])))"
    "event_stmt mysql_dialect wit_sqlcfg (wit_change EventTypeUpdate 2 8)
      = Some (Inr (Some (''UPDATE `db`.`t` SET `id` = ? WHERE `id` = ?'', [VInt 2, VInt 2])))"
    by code_simp+
  have p: "\<forall>d. \<exists>t. dr_begin log_driver d = Inr t" "\<forall>d t. snd (dr_commit log_driver d t) = None" by (simp_all add: log_driver_def)
  have "fst (dr_exec log_driver [] ''UPDATE `db`.`t` SET `id` = ? WHERE `id` = ?'' [VInt 2, VInt 2])
      = [''UPDATE `db`.`t` SET `id` = ? WHERE `id` = ?'']" by (simp add: log_driver_def HasPrefix_def)
  then show ?thesis using conjunct2 [OF concurrent_writes_lose [OF log_driver_ok p s, of "[]"]]
    by (simp add: log_driver_def HasPrefix_def)
qed

section \<open>Replaying a batch\<close>

text \<open>
  What the statements of the MySQL sink mean, as the manual of MySQL describes them for tables whose
  only unique key is the one the events name: a database maps the name of a table and the values of
  the key to a row. \<^verbatim>\<open>INSERT ... ON DUPLICATE KEY UPDATE\<close> stores the row or changes the columns of the
  stored one, \<^verbatim>\<open>UPDATE\<close> changes a row that is there, \<^verbatim>\<open>DELETE\<close> removes it.
\<close>

type_synonym rows = "string \<Rightarrow> gval list \<Rightarrow> (string \<rightharpoonup> gval) option"

definition row_map :: "RowData \<Rightarrow> (string \<rightharpoonup> gval)" where
  "row_map r col = map_option fld_Value (map_of (fields_of r) col)"

definition key_of :: "ChangeEvent \<Rightarrow> RowData \<Rightarrow> gval list" where
  "key_of e r = map (column_value r) (GetKeyColumns (ev_Table e))"

definition apply_event :: "ChangeEvent \<Rightarrow> rows \<Rightarrow> rows" where
  "apply_event e db =
     (let t = mysql_table e; new = row_map (ev_After e); ka = key_of e (ev_After e); kb = key_of e (ev_Before e) in
      case ev_Type e of
        EventTypeInsert \<Rightarrow> db(t := (db t)(ka := Some (case db t ka of None \<Rightarrow> new | Some old \<Rightarrow> old ++ new)))
      | EventTypeUpdate \<Rightarrow>
          (case db t kb of None \<Rightarrow> db | Some old \<Rightarrow> db(t := ((db t)(kb := None))(ka := Some (old ++ new))))
      | EventTypeDelete \<Rightarrow> db(t := (db t)(kb := None))
      | _ \<Rightarrow> db)"

text \<open>
  The driver executes the statement of every event of a batch in this way.
\<close>

definition mysql_executes :: "(rows, 'tx) Driver \<Rightarrow> SqlConfig \<Rightarrow> ChangeEvent list \<Rightarrow> bool" where
  "mysql_executes drv cfg es \<longleftrightarrow> sqc_InsertStrategy cfg = ''upsert'' \<and>
     (\<forall>e \<in> set es. \<forall>db q a. event_stmt mysql_dialect cfg e = Some (Inr (Some (q, a))) \<longrightarrow> dr_exec drv db q a = (apply_event e db, None))"

text \<open>
  Events as a source writes them with full row images: inserted and updated rows have all columns
  (\<open>cols\<close>) of their table, the row before an update or a deletion has the key columns, and an update
  does not change the key.
\<close>

definition has_key :: "ChangeEvent \<Rightarrow> RowData \<Rightarrow> bool" where
  "has_key e r \<longleftrightarrow> list_all (\<lambda>c. row_map r c \<noteq> None) (GetKeyColumns (ev_Table e))"

definition full_event :: "(string \<Rightarrow> string set) \<Rightarrow> ChangeEvent \<Rightarrow> bool" where
  "full_event cols e \<longleftrightarrow> GetKeyColumns (ev_Table e) \<noteq> [] \<and>
     (case ev_Type e of
        EventTypeInsert \<Rightarrow> fields_of (ev_After e) \<noteq> [] \<and> dom (row_map (ev_After e)) = cols (mysql_table e)
      | EventTypeUpdate \<Rightarrow> fields_of (ev_After e) \<noteq> [] \<and> dom (row_map (ev_After e)) = cols (mysql_table e)
          \<and> has_key e (ev_Before e) \<and> key_of e (ev_Before e) = key_of e (ev_After e)
      | EventTypeDelete \<Rightarrow> has_key e (ev_Before e)
      | _ \<Rightarrow> False)"

definition rows_ok :: "(string \<Rightarrow> string set) \<Rightarrow> rows \<Rightarrow> bool" where
  "rows_ok cols db \<longleftrightarrow> (\<forall>t k r. db t k = Some r \<longrightarrow> dom r = cols t)"

lemma key_parts_ok:
  "list_all (\<lambda>c. row_map r c \<noteq> None) ks \<Longrightarrow> \<exists>ws vs. key_parts quote param r i ks = Inr (ws, vs)"
proof (induction ks arbitrary: i)
  case (Cons k ks)
  then obtain f where "map_of (fields_of r) k = Some f" by (auto simp: row_map_def)
  moreover obtain ws vs where "key_parts quote param r (Suc i) ks = Inr (ws, vs)" using Cons by force
  ultimately show ?case by (simp add: RowData_GetField_def)
qed simp

lemma set_parts_length [simp]: "length (set_parts quote param i cols) = length cols"
  by (induction cols arbitrary: i) simp_all

lemma set_parts_Nil [simp]: "set_parts quote param i cols = [] \<longleftrightarrow> cols = []"
  by (cases cols) simp_all

lemma full_event_stmt:
  assumes "full_event cols e"
  shows "\<exists>q a. event_stmt mysql_dialect cfg e = Some (Inr (Some (q, a)))"
proof -
  have k: "length (GetKeyColumns (ev_Table e)) > 0" using assms by (simp add: full_event_def)
  consider "ev_Type e = EventTypeInsert" "fields_of (ev_After e) \<noteq> []"
    | "ev_Type e = EventTypeUpdate" "fields_of (ev_After e) \<noteq> []" "has_key e (ev_Before e)"
    | "ev_Type e = EventTypeDelete" "has_key e (ev_Before e)"
    using assms by (auto simp: full_event_def split: EventType.splits)
  then show ?thesis
  proof cases
    case 1
    then show ?thesis
      by (simp add: event_stmt_def mysql_dialect_def mysql_executeInsert_def sql_insert_def ColumnNames_def Let_def)
  next
    case 2
    then obtain ws vs where "key_parts mysql_quote (\<lambda>_. ''?'') (ev_Before e) (Suc (length (fields_of (ev_After e))))
        (GetKeyColumns (ev_Table e)) = Inr (ws, vs)" using key_parts_ok unfolding has_key_def by blast
    then show ?thesis using 2 k
      by (simp add: event_stmt_def mysql_dialect_def mysql_executeUpdate_def sql_update_def ColumnNames_def Let_def)
  next
    case 3
    then obtain ws vs where "key_parts mysql_quote (\<lambda>_. ''?'') (ev_Before e) 1 (GetKeyColumns (ev_Table e)) = Inr (ws, vs)"
      using key_parts_ok unfolding has_key_def by blast
    then show ?thesis using 3 k by (simp add: event_stmt_def mysql_dialect_def mysql_executeDelete_def sql_delete_def Let_def)
  qed
qed

lemma exec_events_apply:
  assumes "list_all (full_event cols) es" "mysql_executes drv cfg es"
  shows "exec_events drv mysql_dialect cfg es db = Some (fold apply_event es db, es, True)"
  using assms
proof (induction es arbitrary: db)
  case (Cons e es)
  obtain q a where st: "event_stmt mysql_dialect cfg e = Some (Inr (Some (q, a)))"
    using full_event_stmt [of cols e cfg] Cons.prems(1) by auto
  then have "dr_exec drv db q a = (apply_event e db, None)" using Cons.prems(2) by (simp add: mysql_executes_def)
  then have "exec_event drv (Inr (Some (q, a))) db = (apply_event e db, True)" by (simp add: exec_event_def)
  moreover have "mysql_executes drv cfg es" using Cons.prems(2) by (simp add: mysql_executes_def)
  ultimately show ?case using Cons st by simp
qed simp

text \<open>The effect of an event on one row: it fixes the row, or changes it if it is there.\<close>

definition row_op :: "ChangeEvent \<Rightarrow> string \<Rightarrow> gval list \<Rightarrow> (string \<rightharpoonup> gval) option \<Rightarrow> (string \<rightharpoonup> gval) option" where
  "row_op e t k x =
     (if t = mysql_table e \<and> k = key_of e (if ev_Type e = EventTypeInsert then ev_After e else ev_Before e)
      then (case ev_Type e of
              EventTypeInsert \<Rightarrow> Some (row_map (ev_After e))
            | EventTypeUpdate \<Rightarrow> map_option (\<lambda>_. row_map (ev_After e)) x
            | _ \<Rightarrow> None)
      else x)"

lemma map_add_full: "dom m = dom n \<Longrightarrow> m ++ n = n"
  by (rule ext) (metis domIff map_add_None map_add_Some_iff not_Some_eq option.exhaust_sel)

lemma apply_event_row:
  assumes "full_event cols e" "rows_ok cols db"
  shows "apply_event e db t k = row_op e t k (db t k)" "rows_ok cols (apply_event e db)"
proof -
  have old: "old ++ row_map (ev_After e) = row_map (ev_After e)"
    if "db (mysql_table e) k = Some old" "dom (row_map (ev_After e)) = cols (mysql_table e)" for k old
    using that assms(2) unfolding rows_ok_def by (intro map_add_full) metis
  show row: "apply_event e db t k = row_op e t k (db t k)" for t k
    using assms(1) old by (cases "ev_Type e") (auto simp: apply_event_def row_op_def full_event_def Let_def split: option.split)
  show "rows_ok cols (apply_event e db)" using assms unfolding rows_ok_def row
    by (cases "ev_Type e") (auto simp: row_op_def full_event_def split: if_splits)
qed

lemma fold_apply_rows:
  "\<lbrakk>list_all (full_event cols) es; rows_ok cols db\<rbrakk> \<Longrightarrow>
    fold apply_event es db t k = fold (\<lambda>e. row_op e t k) es (db t k) \<and> rows_ok cols (fold apply_event es db)"
proof (induction es arbitrary: db)
  case (Cons e es)
  then show ?case using apply_event_row [of cols e db] by simp
qed simp

lemma row_ops_shape:
  "(\<forall>x. fold (\<lambda>e. row_op e t k) es x = x) \<or> (\<exists>c. \<forall>x. fold (\<lambda>e. row_op e t k) es x = c)
    \<or> (\<exists>r. \<forall>x. fold (\<lambda>e. row_op e t k) es x = map_option (\<lambda>_. r) x)"
proof (induction es rule: rev_induct)
  case (snoc e es)
  have "(\<forall>x. row_op e t k x = x) \<or> (\<exists>c. \<forall>x. row_op e t k x = c) \<or> (\<exists>r. \<forall>x. row_op e t k x = map_option (\<lambda>_. r) x)"
    by (cases "ev_Type e") (auto simp: row_op_def)
  then show ?case using snoc by (auto simp: option.map_comp comp_def)
qed simp

lemma row_ops_idem: "fold (\<lambda>e. row_op e t k) es (fold (\<lambda>e. row_op e t k) es x) = fold (\<lambda>e. row_op e t k) es x"
  using row_ops_shape [of t k es] by (auto simp: option.map_comp comp_def)

lemma replay_same_rows:
  assumes "list_all (full_event cols) (p @ q)" "rows_ok cols db"
  shows "fold apply_event (p @ q) (fold apply_event p db) = fold apply_event (p @ q) db"
proof (intro ext)
  fix t k
  have p: "list_all (full_event cols) p" using assms(1) by simp
  note a = fold_apply_rows [OF p assms(2)]
  show "fold apply_event (p @ q) (fold apply_event p db) t k = fold apply_event (p @ q) db t k"
    using fold_apply_rows [OF assms(1) conjunct2 [OF a]] a fold_apply_rows [OF assms] by (simp add: row_ops_idem)
qed

text \<open>A batch that the database accepts, with or without a transaction.\<close>

lemma sql_Write_accepted:
  assumes "driver_ok drv view" "\<forall>d. \<exists>t. dr_begin drv d = Inr t" "\<forall>d t. snd (dr_commit drv d t) = None" "sq_tx s = None"
    "list_all (full_event cols) es" "mysql_executes drv cfg es"
  shows "\<exists>s'. mysql_Write drv cfg s es = Some (s', None) \<and> sq_db s' = fold apply_event es (sq_db s) \<and> sq_tx s' = None"
proof -
  note ex = exec_events_apply [OF assms(5,6)]
  have noddl: "list_all (\<lambda>e. \<not> IsDDL e) es"
    using assms(5) by (auto simp: list_all_iff full_event_def IsDDL_def split: EventType.splits)
  show ?thesis
  proof (cases "sqc_UseTransaction cfg")
    case True
    obtain t where t: "dr_begin drv (sq_db s) = Inr t" using assms(2) by blast
    let ?s0 = "s\<lparr> sq_state := SinkWriting, sq_tx := Some t \<rparr>"
    have "work view ?s0 = sq_db s" using driver_okD(1) [OF assms(1) t] by (simp add: work_def)
    then obtain s1 where loop: "write_loop drv mysql_dialect cfg es ?s0 = Some (s1, None)"
        "work view s1 = fold apply_event es (sq_db s)" "same_tx ?s0 s1"
      using write_loop_exec [OF assms(1) noddl, of mysql_dialect cfg ?s0] ex by auto
    then obtain t1 where t1: "sq_tx s1 = Some t1" "view t1 = fold apply_event es (sq_db s)"
      by (auto simp: same_tx_def work_def)
    have "dr_commit drv (sq_db s1) t1 = (view t1, None)"
      using driver_okD(3) [OF assms(1), of "sq_db s1" t1] assms(3) by (metis prod.collapse)
    then show ?thesis using True t loop(1) t1 by (simp add: mysql_Write_def sql_Write_def Let_def end_tx_def)
  next
    case False
    let ?s0 = "s\<lparr> sq_state := SinkWriting \<rparr>"
    have "work view ?s0 = sq_db s" using assms(4) by (simp add: work_def)
    then obtain s1 where "write_loop drv mysql_dialect cfg es ?s0 = Some (s1, None)"
        "work view s1 = fold apply_event es (sq_db s)" "same_tx ?s0 s1"
      using write_loop_exec [OF assms(1) noddl, of mysql_dialect cfg ?s0] ex by auto
    then show ?thesis using False assms(4) by (auto simp: mysql_Write_def sql_Write_def same_tx_def work_def)
  qed
qed


definition rows_driver :: "(rows, rows) Driver" where
  "rows_driver =
     (let exec = (\<lambda>db q a. (apply_event (if HasPrefix q ''INSERT'' then wit_change EventTypeInsert 1 7 else wit_change EventTypeDelete 2 8) db,
                            None :: err option))
      in \<lparr> dr_begin = Inr, dr_exec = exec, dr_txexec = exec, dr_commit = (\<lambda>d t. (t, None)) \<rparr>)"

definition rows_sink :: "(rows, rows) SqlSink" where
  "rows_sink = \<lparr> sq_state = SinkReady, sq_EventsWritten = 0, sq_EventsFailed = 0, sq_position = None,
     sq_db = (\<lambda>_ _. None), sq_tx = None, sq_open = 0 \<rparr>"


text \<open>
  With the strategy \<^verbatim>\<open>insert\<close> the statement of an insert has no clause for a row that is already there, so
  MySQL refuses the replayed one. An \<^verbatim>\<open>ApplyDDL\<close> of an event that carries its statement under the key
  \<^verbatim>\<open>ddl\<close>, as the events of the MySQL and PostgreSQL sources do, does nothing.
\<close>

lemma applyDDL_ignores:
  "map_of m ''sql'' = None \<Longrightarrow> ev_Metadata e = Some m \<Longrightarrow> sql_ApplyDDL drv s (Some e) = (s, None)"
  by (simp add: sql_ApplyDDL_def)

text \<open>Between calls there is no transaction, so \<^verbatim>\<open>Flush\<close> and \<^verbatim>\<open>Stop\<close> find nothing to commit or to roll back.\<close>

lemma sql_Flush_idle: "sq_tx s = None \<Longrightarrow> sql_Flush drv s = (s\<lparr> sq_state := SinkReady \<rparr>, None)"
  by (simp add: sql_Flush_def)

end
