(* ===== verification/Cluster.thy ===== *)
theory Cluster
  imports Pipelines
begin

section \<open>The cluster manager (internal/pipeline/cluster.go)\<close>

text \<open>
  The manager that a node of a cluster runs: heartbeats, the election of the cluster leader and the
  rebalancing that is to give the tasks of dead nodes to living ones. Its coordinator is used through
  the operations it calls: whether this node leads a key, acquiring and releasing a key, and the lists
  of nodes and tasks. The order in which Go iterates over the map of living nodes is the argument \<open>ord\<close>,
  for every choice a permutation of its own. What the manager starts through its callback is recorded
  in \<open>cm_assigned\<close>.
\<close>

record NodeInfo =
  ni_ID :: string
  ni_Address :: string
  ni_Hostname :: string
  ni_StartedAt :: int

definition NodeExpiryThreshold :: int where "NodeExpiryThreshold = 30 * 1000000000"

definition MaxTasksPerNode :: int where "MaxTasksPerNode = 10"

definition clusterLeadershipKey :: string where "clusterLeadershipKey = ''_cluster_leader''"

record 'k ClusterManager =
  cm_nodeID :: string
  cm_nodeInfo :: NodeInfo
  cm_lastSeen :: int
  cm_localTasks :: "(string, 'k Task) gomap"
  cm_onAssigned :: bool
  cm_onLost :: bool
  cm_assigned :: "string list"
  cm_lost :: "string list"
  cm_isLeader :: bool

definition NewClusterManager :: "int \<Rightarrow> int \<Rightarrow> string \<Rightarrow> string \<Rightarrow> string \<Rightarrow> 'k ClusterManager" where
  "NewClusterManager started seen nodeID address hostname =
     \<lparr> cm_nodeID = nodeID,
       cm_nodeInfo = \<lparr> ni_ID = nodeID, ni_Address = address, ni_Hostname = hostname, ni_StartedAt = started \<rparr>,
       cm_lastSeen = seen,
       cm_localTasks = [], cm_onAssigned = False, cm_onLost = False, cm_assigned = [], cm_lost = [], cm_isLeader = False \<rparr>"

definition SetTaskCallbacks :: "'k ClusterManager \<Rightarrow> bool \<Rightarrow> bool \<Rightarrow> 'k ClusterManager" where
  "SetTaskCallbacks m onAssigned onLost = m\<lparr> cm_onAssigned := onAssigned, cm_onLost := onLost \<rparr>"

subsection \<open>Rebalancing\<close>

definition node_load :: "(string, int) gomap \<Rightarrow> string \<Rightarrow> int" where
  "node_load taskCount nodeID = (case map_of taskCount nodeID of None \<Rightarrow> 0 | Some n \<Rightarrow> n)"

definition pickLeastLoaded :: "string list \<Rightarrow> (string, int) gomap \<Rightarrow> string" where
  "pickLeastLoaded aliveNodes taskCount =
     fst (fold (\<lambda>nodeID (best, minTasks).
            let count = node_load taskCount nodeID
            in if count < minTasks then (nodeID, count) else (best, minTasks))
          aliveNodes ([], MaxTasksPerNode + 1))"

definition acquireTask ::
  "('c \<Rightarrow> string \<Rightarrow> 'c \<times> bool res) \<Rightarrow> 'k ClusterManager \<Rightarrow> 'c \<Rightarrow> 'k Task \<Rightarrow> 'k ClusterManager \<times> 'c" where
  "acquireTask acquire m c task =
     (case acquire c (tk_ID task) of
        (c, Inr True) \<Rightarrow>
          (m\<lparr> cm_localTasks := AList.update (tk_ID task) task (cm_localTasks m),
              cm_assigned := (if cm_onAssigned m then cm_assigned m @ [tk_ID task] else cm_assigned m) \<rparr>, c)
      | (c, _) \<Rightarrow> (m, c))"

fun assign_loop ::
  "('c \<Rightarrow> string \<Rightarrow> 'c \<times> bool res) \<Rightarrow> (nat \<Rightarrow> string list \<Rightarrow> string list) \<Rightarrow> string list \<Rightarrow> nat \<Rightarrow> 'k Task list \<Rightarrow> (string, int) gomap
     \<Rightarrow> 'k ClusterManager \<Rightarrow> 'c \<Rightarrow> 'k ClusterManager \<times> 'c" where
  "assign_loop acquire ord alive i [] counts m c = (m, c)"
| "assign_loop acquire ord alive i (task # tasks) counts m c =
     (let targetNode = pickLeastLoaded (ord i alive) counts in
      if targetNode = [] then (m, c)
      else
        let counts = AList.update targetNode (node_load counts targetNode + 1) counts;
            (m, c) = (if targetNode = cm_nodeID m then acquireTask acquire m c task else (m, c))
        in assign_loop acquire ord alive (Suc i) tasks counts m c)"

text \<open>\<^verbatim>\<open>rebalanceCluster\<close>; a node is alive when it was seen in the last thirty seconds, in nanoseconds.\<close>

definition rebalanceCluster ::
  "('c \<Rightarrow> string \<Rightarrow> bool res) \<Rightarrow> ('c \<Rightarrow> string \<Rightarrow> 'c \<times> bool res) \<Rightarrow> (nat \<Rightarrow> string list \<Rightarrow> string list) \<Rightarrow> (NodeInfo \<times> int) list res
     \<Rightarrow> 'k Task list res \<Rightarrow> int \<Rightarrow> 'k ClusterManager \<Rightarrow> 'c \<Rightarrow> 'k ClusterManager \<times> 'c" where
  "rebalanceCluster isLeader acquire ord nodes tasks now m c =
     (case (nodes, tasks) of
        (Inr ns, Inr ts) \<Rightarrow>
          let alive = remdups (map (\<lambda>(n, _). ni_ID n) (filter (\<lambda>(_, lastSeen). \<not> now - lastSeen > NodeExpiryThreshold) ns)) in
          if length alive = 0 then (m, c)
          else assign_loop acquire ord alive 0
            (filter (\<lambda>t. (tk_Status t = TaskStatusRunning \<or> tk_Status t = TaskStatusCreated) \<and> isLeader c (tk_ID t) = Inr True) ts)
            [] m c
      | _ \<Rightarrow> (m, c))"

subsection \<open>Start, stop, heartbeats and elections\<close>

definition cm_Start :: "('c \<Rightarrow> string \<Rightarrow> NodeInfo \<times> int \<Rightarrow> 'c \<times> err option) \<Rightarrow> 'k ClusterManager \<Rightarrow> 'c \<Rightarrow> 'c \<times> err option" where
  "cm_Start register m c =
     (case register c (cm_nodeID m) (cm_nodeInfo m, cm_lastSeen m) of
        (c, Some e) \<Rightarrow> (c, Some (Wrapf ''register node'' e))
      | (c, None) \<Rightarrow> (c, None))"

definition cm_Stop ::
  "('c \<Rightarrow> string \<Rightarrow> 'c \<times> err option) \<Rightarrow> ('c \<Rightarrow> string \<Rightarrow> 'c \<times> err option) \<Rightarrow> 'k ClusterManager \<Rightarrow> 'c \<Rightarrow> 'c" where
  "cm_Stop release unregister m c =
     fst (unregister (fold (\<lambda>(taskID, _) c. fst (release c taskID)) (cm_localTasks m) c) (cm_nodeID m))"

text \<open>One tick of the heartbeat loop: the heartbeat, then the registration with the time in nanoseconds.\<close>

definition heartbeat_tick ::
  "('c \<Rightarrow> string \<Rightarrow> 'c \<times> err option) \<Rightarrow> ('c \<Rightarrow> string \<Rightarrow> NodeInfo \<times> int \<Rightarrow> 'c \<times> err option) \<Rightarrow> int \<Rightarrow> 'k ClusterManager \<Rightarrow> 'c \<Rightarrow> 'c" where
  "heartbeat_tick heartbeat register now m c =
     fst (register (fst (heartbeat c (cm_nodeID m))) (cm_nodeID m) (cm_nodeInfo m, now))"

text \<open>One turn of the leader loop; the result says whether the node goes on to its tasks as leader.\<close>

definition leader_turn ::
  "('c \<Rightarrow> string \<Rightarrow> bool res) \<Rightarrow> ('c \<Rightarrow> string \<Rightarrow> 'c \<times> bool res) \<Rightarrow> 'k ClusterManager \<Rightarrow> 'c \<Rightarrow> 'k ClusterManager \<times> 'c \<times> bool" where
  "leader_turn isLeader acquire m c =
     (case isLeader c clusterLeadershipKey of
        Inl _ \<Rightarrow> (m, c, False)
      | Inr True \<Rightarrow> (m, c, True)
      | Inr False \<Rightarrow>
          (case acquire c clusterLeadershipKey of
             (c, Inr True) \<Rightarrow> (m\<lparr> cm_isLeader := True \<rparr>, c, True)
           | (c, _) \<Rightarrow> (m, c, False)))"

text \<open>One tick of \<^verbatim>\<open>leaderTasks\<close>: the node ends its turn when it is no longer the leader.\<close>

definition leader_tick ::
  "('c \<Rightarrow> string \<Rightarrow> bool res) \<Rightarrow> ('c \<Rightarrow> string \<Rightarrow> 'c \<times> bool res) \<Rightarrow> (nat \<Rightarrow> string list \<Rightarrow> string list) \<Rightarrow> (NodeInfo \<times> int) list res
     \<Rightarrow> 'k Task list res \<Rightarrow> int \<Rightarrow> 'k ClusterManager \<Rightarrow> 'c \<Rightarrow> ('k ClusterManager \<times> 'c) \<times> bool" where
  "leader_tick isLeader acquire ord nodes tasks now m c =
     (if isLeader c clusterLeadershipKey = Inr True then (rebalanceCluster isLeader acquire ord nodes tasks now m c, True)
      else ((m, c), False))"

text \<open>The handler of a leadership event of the task (\<^verbatim>\<open>WatchLeadership\<close>).\<close>

definition on_leadership :: "'k ClusterManager \<Rightarrow> string \<Rightarrow> bool \<Rightarrow> string \<Rightarrow> 'k ClusterManager" where
  "on_leadership m taskID evIsLeader evLeaderID =
     (if \<not> evIsLeader \<and> evLeaderID \<noteq> cm_nodeID m \<and> cm_onLost m
      then m\<lparr> cm_localTasks := AList.delete taskID (cm_localTasks m), cm_lost := cm_lost m @ [taskID] \<rparr>
      else m)"

definition LocalTaskCount :: "'k ClusterManager \<Rightarrow> int" where
  "LocalTaskCount m = int (length (cm_localTasks m))"

section \<open>What rebalancing does\<close>

text \<open>
  The interface of a coordinator that the proofs rest on: acquiring a key that the node already leads
  succeeds and changes nothing.
\<close>

locale leadership =
  fixes isLeader :: "'c \<Rightarrow> string \<Rightarrow> bool res"
    and acquire :: "'c \<Rightarrow> string \<Rightarrow> 'c \<times> bool res"
  assumes acquire_led: "isLeader c key = Inr True \<Longrightarrow> acquire c key = (c, Inr True)"
begin

lemma acquireTask_led:
  assumes "isLeader c (tk_ID task) = Inr True"
  shows "snd (acquireTask acquire m c task) = c"
    and "fst ` set (cm_localTasks (fst (acquireTask acquire m c task))) \<subseteq> fst ` set (cm_localTasks m) \<union> {tk_ID task}"
    and "cm_nodeID (fst (acquireTask acquire m c task)) = cm_nodeID m"
  using acquire_led [OF assms] by (auto simp: acquireTask_def dom_update)

lemma assign_loop_led:
  assumes "\<forall>t \<in> set tasks. isLeader c (tk_ID t) = Inr True"
  shows "snd (assign_loop acquire ord alive i tasks counts m c) = c
    \<and> fst ` set (cm_localTasks (fst (assign_loop acquire ord alive i tasks counts m c)))
        \<subseteq> fst ` set (cm_localTasks m) \<union> {k. isLeader c k = Inr True}"
  using assms
proof (induction tasks arbitrary: i counts m)
  case (Cons task tasks)
  have task: "isLeader c (tk_ID task) = Inr True" and tasks: "\<forall>t \<in> set tasks. isLeader c (tk_ID t) = Inr True"
    using Cons.prems by simp_all
  define m' where "m' = fst (acquireTask acquire m c task)"
  have m': "acquireTask acquire m c task = (m', c)"
    using acquireTask_led(1) [OF task, of m] unfolding m'_def by (simp add: prod_eq_iff)
  have keys: "fst ` set (cm_localTasks m') \<subseteq> fst ` set (cm_localTasks m) \<union> {tk_ID task}"
    unfolding m'_def by (rule acquireTask_led(2) [OF task])
  let ?target = "pickLeastLoaded (ord i alive) counts"
  consider "?target = []" | "?target \<noteq> []" "?target \<noteq> cm_nodeID m" | "?target \<noteq> []" "?target = cm_nodeID m" by blast
  then show ?case
  proof cases
    case 1
    then have eq: "assign_loop acquire ord alive i (task # tasks) counts m c = (m, c)" by (simp add: Let_def)
    show ?thesis unfolding eq by simp
  next
    case 2
    have eq: "assign_loop acquire ord alive i (task # tasks) counts m c
        = assign_loop acquire ord alive (Suc i) tasks (AList.update ?target (node_load counts ?target + 1) counts) m c"
      using 2 by (simp add: Let_def)
    show ?thesis unfolding eq by (rule Cons.IH [OF tasks])
  next
    case 3
    have one: "{tk_ID task} \<subseteq> {k. isLeader c k = Inr True}" using task by simp
    have sub: "fst ` set (cm_localTasks m') \<union> {k. isLeader c k = Inr True} \<subseteq> fst ` set (cm_localTasks m) \<union> {k. isLeader c k = Inr True}"
      by (rule Un_least [OF subset_trans [OF keys Un_mono [OF subset_refl one]] Un_upper2])
    have IH: "snd (assign_loop acquire ord alive j tasks cs m' c) = c
      \<and> fst ` set (cm_localTasks (fst (assign_loop acquire ord alive j tasks cs m' c)))
        \<subseteq> fst ` set (cm_localTasks m') \<union> {k. isLeader c k = Inr True}" for j cs by (rule Cons.IH [OF tasks])
    have eq: "assign_loop acquire ord alive i (task # tasks) counts m c
        = assign_loop acquire ord alive (Suc i) tasks (AList.update ?target (node_load counts ?target + 1) counts) m' c"
      using 3 m' by (simp add: Let_def)
    show ?thesis unfolding eq by (intro conjI conjunct1 [OF IH] order_trans [OF conjunct2 [OF IH] sub])
  qed
qed simp

lemma rebalance_led:
  "snd (rebalanceCluster isLeader acquire ord nodes tasks now m c) = c
   \<and> fst ` set (cm_localTasks (fst (rebalanceCluster isLeader acquire ord nodes tasks now m c)))
        \<subseteq> fst ` set (cm_localTasks m) \<union> {k. isLeader c k = Inr True}"
proof -
  let ?P = "\<lambda>t. (tk_Status t = TaskStatusRunning \<or> tk_Status t = TaskStatusCreated) \<and> isLeader c (tk_ID t) = Inr True"
  have "snd (assign_loop acquire ord alive i (filter ?P ts) counts m c) = c
    \<and> fst ` set (cm_localTasks (fst (assign_loop acquire ord alive i (filter ?P ts) counts m c)))
        \<subseteq> fst ` set (cm_localTasks m) \<union> {k. isLeader c k = Inr True}" for ord alive i ts counts
    by (rule assign_loop_led) simp
  note loop = this
  show ?thesis
  proof (cases nodes)
    case (Inr ns)
    show ?thesis
    proof (cases tasks)
      case (Inr ts)
      let ?alive = "remdups (map (\<lambda>(n, _). ni_ID n) (filter (\<lambda>(_, lastSeen). \<not> now - lastSeen > NodeExpiryThreshold) ns))"
      have "rebalanceCluster isLeader acquire ord nodes tasks now m c
          = (if length ?alive = 0 then (m, c) else assign_loop acquire ord ?alive 0 (filter ?P ts) [] m c)"
        using \<open>nodes = Inr ns\<close> Inr by (simp only: rebalanceCluster_def Let_def prod.case sum.case)
      then show ?thesis using loop by (cases "length ?alive = 0") (simp_all only: if_True if_False fst_conv snd_conv Un_upper1 simp_thms)
    qed (simp add: rebalanceCluster_def Inr)
  qed (simp add: rebalanceCluster_def)
qed

end

definition mem_isLeader :: "('t, 'n) MemoryCoordinator \<Rightarrow> string \<Rightarrow> bool res" where
  "mem_isLeader c key = Inr (mc_IsLeader c key)"

definition mem_acquire :: "('t, 'n) MemoryCoordinator \<Rightarrow> string \<Rightarrow> ('t, 'n) MemoryCoordinator \<times> bool res" where
  "mem_acquire c key = map_prod id Inr (mc_AcquireLeadership c key)"

interpretation mem_leadership: leadership mem_isLeader mem_acquire
  by unfold_locales (simp add: mem_isLeader_def mem_acquire_def mc_IsLeader_def mc_AcquireLeadership_def)

text \<open>Runs of rebalancing: every tick with the nodes, tasks, time and iteration orders it finds.\<close>

definition rebalance_run ::
  "((nat \<Rightarrow> string list \<Rightarrow> string list) \<times> (NodeInfo \<times> int) list res \<times> 'k Task list res \<times> int) list
     \<Rightarrow> 'k ClusterManager \<times> ('t, 'n) MemoryCoordinator \<Rightarrow> 'k ClusterManager \<times> ('t, 'n) MemoryCoordinator" where
  "rebalance_run ticks mc =
     fold (\<lambda>(ord, nodes, tasks, now) (m, c). fst (leader_tick mem_isLeader mem_acquire ord nodes tasks now m c)) ticks mc"

lemma leader_tick_led:
  "snd (fst (leader_tick mem_isLeader mem_acquire ord nodes tasks now m c)) = c
   \<and> fst ` set (cm_localTasks (fst (fst (leader_tick mem_isLeader mem_acquire ord nodes tasks now m c))))
        \<subseteq> fst ` set (cm_localTasks m) \<union> {k. mc_IsLeader c k}"
  using mem_leadership.rebalance_led [of ord nodes tasks now m c]
  by (cases "mem_isLeader c clusterLeadershipKey = Inr True") (simp_all add: leader_tick_def mem_isLeader_def)

text \<open>
  C24. There is no failover. However often the cluster leader rebalances, whatever nodes and tasks it
  finds, no leadership changes, and every task it takes over is one this node already led: a task whose
  node has died, or that never had one, is not assigned to anybody.
\<close>

theorem no_failover:
  assumes "rebalance_run ticks (m, c) = (m', c')"
  shows "c' = c \<and> (\<forall>t. t \<in> fst ` set (cm_localTasks m') \<longrightarrow> t \<in> fst ` set (cm_localTasks m) \<or> mc_IsLeader c t)"
  using assms
proof (induction ticks arbitrary: m)
  case (Cons tick ticks)
  obtain ord nodes tasks now where tick: "tick = (ord, nodes, tasks, now)" by (metis prod_cases4)
  obtain m1 c1 where one: "fst (leader_tick mem_isLeader mem_acquire ord nodes tasks now m c) = (m1, c1)" by fastforce
  have led: "c1 = c" "fst ` set (cm_localTasks m1) \<subseteq> fst ` set (cm_localTasks m) \<union> {k. mc_IsLeader c k}"
    using leader_tick_led [of ord nodes tasks now m c] one by simp_all
  have "rebalance_run ticks (m1, c) = (m', c')" using Cons.prems one led(1) tick by (simp add: rebalance_run_def)
  then show ?case using Cons.IH [of m1] led(2) by blast
qed (simp add: rebalance_run_def)

theorem no_failover_witness:
  "\<exists>m' c'. rebalance_run [(\<lambda>_. id, Inr [(\<lparr> ni_ID = ''n'', ni_Address = [], ni_Hostname = [], ni_StartedAt = 0 \<rparr>, 0)],
        Inr [NewTask ''orphan'' [] 0, NewTask ''own'' [] 0], 1000)]
      (NewClusterManager 0 0 ''n'' [] [] :: unit ClusterManager,
       (NewMemoryCoordinator ''n'' :: (unit, unit) MemoryCoordinator)\<lparr> mc_leaders := [(''_cluster_leader'', ''n''), (''own'', ''n'')] \<rparr>) = (m', c')
    \<and> map_of (mc_leaders c') ''orphan'' = None \<and> ''orphan'' \<notin> fst ` set (cm_localTasks m') \<and> map fst (cm_localTasks m') = [''own'']"
proof -
  let ?ticks = "[(\<lambda>_. id, Inr [(\<lparr> ni_ID = ''n'', ni_Address = [], ni_Hostname = [], ni_StartedAt = 0 \<rparr>, 0)],
        Inr [NewTask ''orphan'' [] 0 :: unit Task, NewTask ''own'' [] 0], 1000)]"
  let ?m = "NewClusterManager 0 0 ''n'' [] [] :: unit ClusterManager"
  let ?c = "(NewMemoryCoordinator ''n'' :: (unit, unit) MemoryCoordinator)\<lparr> mc_leaders := [(''_cluster_leader'', ''n''), (''own'', ''n'')] \<rparr>"
  obtain m' c' where run: "rebalance_run ?ticks (?m, ?c) = (m', c')" by fastforce
  have own: "map fst (cm_localTasks (fst (rebalance_run ?ticks (?m, ?c)))) = [''own'']"
    by (simp add: rebalance_run_def leader_tick_def rebalanceCluster_def mem_isLeader_def mem_acquire_def mc_IsLeader_def
        mc_AcquireLeadership_def NewMemoryCoordinator_def NewClusterManager_def clusterLeadershipKey_def NewTask_def
        acquireTask_def pickLeastLoaded_def MaxTasksPerNode_def NodeExpiryThreshold_def node_load_def Let_def)
  have no: "\<not> mc_IsLeader ?c ''orphan''" "''orphan'' \<notin> fst ` set (cm_localTasks ?m)" "map_of (mc_leaders ?c) ''orphan'' = None"
    by (simp_all add: mc_IsLeader_def NewClusterManager_def)
  have "c' = ?c" "''orphan'' \<notin> fst ` set (cm_localTasks m')" using no_failover [OF run] no by blast+
  moreover have "map fst (cm_localTasks m') = [''own'']" using own unfolding run by simp
  moreover have "map_of (mc_leaders c') ''orphan'' = None" unfolding \<open>c' = ?c\<close> by (rule no(3))
  ultimately show ?thesis using run by (intro exI conjI)
qed

text \<open>
  The heartbeat of the in-memory coordinator stores milliseconds where the manager reads nanoseconds:
  a node whose last sign of life is that heartbeat counts as dead, at any time after the year 1970.
\<close>

lemma heartbeat_units:
  assumes "map_of (mc_nodes c) n = Some (info, x)" "now \<ge> 31 * 1000000000"
  shows "\<exists>lastSeen. map_of (mc_nodes (mc_Heartbeat (now div 1000000) c n)) n = Some (info, lastSeen) \<and> now - lastSeen > NodeExpiryThreshold"
proof -
  have "now div 1000000 * 1000000 \<le> now" by simp
  then have "now - now div 1000000 > NodeExpiryThreshold" using assms(2) unfolding NodeExpiryThreshold_def by linarith
  then show ?thesis using assms(1) by (simp add: mc_Heartbeat_def update_conv')
qed

text \<open>Choosing a node: the choice is one of the living nodes with the fewest tasks, if any has room.\<close>

lemma pick_fold:
  assumes "fold (\<lambda>nodeID (best, minTasks).
      let count = node_load counts nodeID in if count < minTasks then (nodeID, count) else (best, minTasks)) alive (b0, m0) = (b, mn)"
  shows "mn \<le> m0 \<and> (\<forall>n \<in> set alive. mn \<le> node_load counts n)
    \<and> (b = b0 \<and> mn = m0 \<or> b \<in> set alive \<and> mn = node_load counts b)"
  using assms
proof (induction alive arbitrary: b0 m0)
  case (Cons x alive)
  show ?case
  proof (cases "node_load counts x < m0")
    case True
    then show ?thesis using Cons.IH [of x "node_load counts x"] Cons.prems by (simp add: Let_def) force
  next
    case False
    then show ?thesis using Cons.IH [of b0 m0] Cons.prems by (simp add: Let_def) force
  qed
qed simp

lemma pickLeastLoaded_least:
  assumes "pickLeastLoaded alive counts = n" "n \<noteq> []"
  shows "n \<in> set alive \<and> (\<forall>x \<in> set alive. node_load counts n \<le> node_load counts x)"
proof -
  let ?p = "fold (\<lambda>nodeID (best, minTasks).
      let count = node_load counts nodeID in if count < minTasks then (nodeID, count) else (best, minTasks))
      alive ([], MaxTasksPerNode + 1)"
  have "?p = (n, snd ?p)" unfolding prod_eq_iff using assms(1) by (simp only: pickLeastLoaded_def fst_conv snd_conv simp_thms)
  from pick_fold [OF this] show ?thesis using assms(2) by auto
qed

end
