(* ===== verification/Offset_Storage.thy ===== *)
theory Offset_Storage
  imports Events
begin

section \<open>Offset storage (internal/offset/storage.go)\<close>

text \<open>
  The three stores in which the source connectors keep the position of a task: in memory, in a file
  that is flushed from time to time, and in etcd. \<^verbatim>\<open>encoding/json\<close> is the pair of arguments \<open>marshal\<close> and
  \<open>unmarshal\<close>, of a whole map for the file and of one position for etcd. The disk holds the file and the
  temporary one; faults of the operating system and of etcd are arguments of the calls they occur in.
  The timer of \<^verbatim>\<open>autoFlush\<close> is the sequence of flushes.
\<close>

subsection \<open>In memory\<close>

type_synonym MemoryStorage = "(string, Position) gomap"

definition NewMemoryStorage :: MemoryStorage where "NewMemoryStorage = []"

definition ms_Save :: "MemoryStorage \<Rightarrow> string \<Rightarrow> Position \<Rightarrow> MemoryStorage" where
  "ms_Save s taskID pos = AList.update taskID (Position_Clone pos) s"

definition ms_Load :: "MemoryStorage \<Rightarrow> string \<Rightarrow> Position option" where
  "ms_Load s taskID = map_option Position_Clone (map_of s taskID)"

definition ms_Delete :: "MemoryStorage \<Rightarrow> string \<Rightarrow> MemoryStorage" where
  "ms_Delete s taskID = AList.delete taskID s"

subsection \<open>In a file\<close>

text \<open>
  The map is nil after a file that holds \<^verbatim>\<open>null\<close> was loaded, and saving into it panics.
\<close>

record FileStorage =
  fst_offset :: "(string, Position) gomap option"
  fst_closed :: bool

record OffsetDisk =
  od_file :: "bytes option"
  od_tmp :: "bytes option"

definition fst_load ::
  "(bytes \<Rightarrow> (string, Position) gomap option res) \<Rightarrow> err option \<Rightarrow> OffsetDisk \<Rightarrow> FileStorage \<Rightarrow> FileStorage \<times> err option" where
  "fst_load unmarshal readErr d s =
     (case readErr of
        Some e \<Rightarrow> (s, Some (Wrapf ''failed to read offset file'' e))
      | None \<Rightarrow>
          (case od_file d of
             None \<Rightarrow> (s, None)
           | Some data \<Rightarrow>
               if length data = 0 then (s, None)
               else (case unmarshal data of
                       Inl e \<Rightarrow> (s, Some (Wrapf ''failed to unmarshal offsets'' e))
                     | Inr offsets \<Rightarrow> (s\<lparr> fst_offset := offsets \<rparr>, None))))"

text \<open>An error of \<^verbatim>\<open>load\<close> is only logged: the storage starts empty.\<close>

definition NewFileStorage ::
  "(bytes \<Rightarrow> (string, Position) gomap option res) \<Rightarrow> err option \<Rightarrow> err option \<Rightarrow> string \<Rightarrow> OffsetDisk \<Rightarrow> FileStorage res" where
  "NewFileStorage unmarshal mkdirErr readErr path d =
     (if path = [] then Inl (Errorf ''path is required'')
      else case mkdirErr of
        Some e \<Rightarrow> Inl (Wrapf ''failed to create directory'' e)
      | None \<Rightarrow> Inr (fst (fst_load unmarshal readErr d \<lparr> fst_offset = Some [], fst_closed = False \<rparr>)))"

definition fst_Save :: "FileStorage \<Rightarrow> string \<Rightarrow> Position \<Rightarrow> FileStorage res" where
  "fst_Save s taskID pos =
     (case fst_offset s of
        None \<Rightarrow> Inl (Panic ''assignment to entry in nil map'')
      | Some m \<Rightarrow> Inr (s\<lparr> fst_offset := Some (AList.update taskID (Position_Clone pos) m) \<rparr>))"

definition fst_Load :: "FileStorage \<Rightarrow> string \<Rightarrow> Position option" where
  "fst_Load s taskID =
     (case fst_offset s of None \<Rightarrow> None | Some m \<Rightarrow> map_option Position_Clone (map_of m taskID))"

definition fst_Delete :: "FileStorage \<Rightarrow> string \<Rightarrow> FileStorage" where
  "fst_Delete s taskID = s\<lparr> fst_offset := map_option (AList.delete taskID) (fst_offset s) \<rparr>"

text \<open>
  Flushing: the temporary file, then the renaming, which is atomic. A write that fails has stored the
  first \<open>n\<close> bytes. A crash between two steps leaves the disk as a failure of the next step does.
\<close>

datatype flush_fault = FlushOK | WriteFails nat err | RenameFails err

definition fst_flush ::
  "((string, Position) gomap option \<Rightarrow> bytes res) \<Rightarrow> flush_fault \<Rightarrow> FileStorage \<Rightarrow> OffsetDisk \<Rightarrow> OffsetDisk \<times> err option" where
  "fst_flush marshal fault s d =
     (case marshal (fst_offset s) of
        Inl e \<Rightarrow> (d, Some (Wrapf ''failed to marshal offsets'' e))
      | Inr data \<Rightarrow>
          (case fault of
             WriteFails n e \<Rightarrow> (d\<lparr> od_tmp := Some (take n data) \<rparr>, Some (Wrapf ''failed to write offset file'' e))
           | RenameFails e \<Rightarrow> (d\<lparr> od_tmp := Some data \<rparr>, Some (Wrapf ''failed to rename offset file'' e))
           | FlushOK \<Rightarrow> (d\<lparr> od_tmp := None, od_file := Some data \<rparr>, None)))"

definition fst_Close ::
  "((string, Position) gomap option \<Rightarrow> bytes res) \<Rightarrow> flush_fault \<Rightarrow> FileStorage \<Rightarrow> OffsetDisk \<Rightarrow> (FileStorage \<times> OffsetDisk \<times> err option) res" where
  "fst_Close marshal fault s d =
     (if fst_closed s then Inl (Panic ''close of closed channel'')
      else let (d, r) = fst_flush marshal fault s d in Inr (s\<lparr> fst_closed := True \<rparr>, d, r))"

subsection \<open>In etcd\<close>

text \<open>
  The entries of etcd are a map of its own. The answer of a \<^verbatim>\<open>Get\<close> with a prefix is an argument: the
  entries in the order etcd returns them, or its error.
\<close>

record EtcdStorage =
  ets_prefix :: string
  ets_offset :: "(string, Position) gomap"

definition offset_key :: "EtcdStorage \<Rightarrow> string \<Rightarrow> string" where
  "offset_key s taskID = ets_prefix s @ ''/'' @ taskID"

definition ets_Save ::
  "(Position \<Rightarrow> bytes res) \<Rightarrow> err option \<Rightarrow> EtcdStorage \<Rightarrow> (string, bytes) gomap \<Rightarrow> string \<Rightarrow> Position
     \<Rightarrow> EtcdStorage \<times> (string, bytes) gomap \<times> err option" where
  "ets_Save marshal putErr s kv taskID pos =
     (let s = s\<lparr> ets_offset := AList.update taskID (Position_Clone pos) (ets_offset s) \<rparr> in
      case marshal pos of
        Inl e \<Rightarrow> (s, kv, Some (Wrapf ''failed to marshal position'' e))
      | Inr data \<Rightarrow>
          (case putErr of
             Some e \<Rightarrow> (s, kv, Some (Wrapf ''failed to save position to etcd'' e))
           | None \<Rightarrow> (s, AList.update (offset_key s taskID) data kv, None)))"

definition ets_Load ::
  "(bytes \<Rightarrow> Position res) \<Rightarrow> err option \<Rightarrow> EtcdStorage \<Rightarrow> (string, bytes) gomap \<Rightarrow> string \<Rightarrow> EtcdStorage \<times> Position option res" where
  "ets_Load unmarshal getErr s kv taskID =
     (case map_of (ets_offset s) taskID of
        Some pos \<Rightarrow> (s, Inr (Some (Position_Clone pos)))
      | None \<Rightarrow>
          (case getErr of
             Some e \<Rightarrow> (s, Inl (Wrapf ''failed to get position from etcd'' e))
           | None \<Rightarrow>
               (case map_of kv (offset_key s taskID) of
                  None \<Rightarrow> (s, Inr None)
                | Some v \<Rightarrow>
                    (case unmarshal v of
                       Inl e \<Rightarrow> (s, Inl (Wrapf ''failed to unmarshal position'' e))
                     | Inr pos \<Rightarrow> (s\<lparr> ets_offset := AList.update taskID pos (ets_offset s) \<rparr>, Inr (Some pos))))))"

definition ets_Delete :: "err option \<Rightarrow> EtcdStorage \<Rightarrow> (string, bytes) gomap \<Rightarrow> string \<Rightarrow> EtcdStorage \<times> (string, bytes) gomap \<times> err option" where
  "ets_Delete delErr s kv taskID =
     (let s = s\<lparr> ets_offset := AList.delete taskID (ets_offset s) \<rparr> in
      case delErr of
        Some e \<Rightarrow> (s, kv, Some (Wrapf ''failed to delete position from etcd'' e))
      | None \<Rightarrow> (s, AList.delete (offset_key s taskID) kv, None))"

text \<open>Entries that do not decode are skipped; cutting the prefix and a slash off a key that has no more panics.\<close>

fun load_entries :: "(bytes \<Rightarrow> Position res) \<Rightarrow> (string \<times> bytes) list \<Rightarrow> EtcdStorage \<Rightarrow> EtcdStorage res" where
  "load_entries unmarshal [] s = Inr s"
| "load_entries unmarshal ((key, v) # kvs) s =
     (case unmarshal v of
        Inl _ \<Rightarrow> load_entries unmarshal kvs s
      | Inr pos \<Rightarrow>
          if length key < length (ets_prefix s) + 1 then Inl (Panic ''slice bounds out of range'')
          else load_entries unmarshal kvs
            (s\<lparr> ets_offset := AList.update (drop (length (ets_prefix s) + 1) key) pos (ets_offset s) \<rparr>))"

definition ets_loadAll :: "(bytes \<Rightarrow> Position res) \<Rightarrow> (string \<times> bytes) list res \<Rightarrow> EtcdStorage \<Rightarrow> (EtcdStorage \<times> err option) res" where
  "ets_loadAll unmarshal resp s =
     (case resp of
        Inl e \<Rightarrow> Inr (s, Some (Wrapf ''failed to get offsets from etcd'' e))
      | Inr kvs \<Rightarrow> (case load_entries unmarshal kvs s of Inl p \<Rightarrow> Inl p | Inr s \<Rightarrow> Inr (s, None)))"

definition NewEtcdStorage ::
  "(bytes \<Rightarrow> Position res) \<Rightarrow> err option \<Rightarrow> (string \<Rightarrow> (string \<times> bytes) list res) \<Rightarrow> string list \<Rightarrow> string \<Rightarrow> EtcdStorage res" where
  "NewEtcdStorage unmarshal newErr get endpoints prefix =
     (if length endpoints = 0 then Inl (Errorf ''etcd endpoints are required'')
      else case newErr of
        Some e \<Rightarrow> Inl (Wrapf ''failed to create etcd client'' e)
      | None \<Rightarrow>
          (let prefix = (if prefix = [] then ''/datastream/offsets'' else prefix) in
           case ets_loadAll unmarshal (get prefix) \<lparr> ets_prefix = prefix, ets_offset = [] \<rparr> of
             Inl p \<Rightarrow> Inl p
           | Inr (s, _) \<Rightarrow> Inr s))"

definition ets_flushAll :: "(Position \<Rightarrow> bytes res) \<Rightarrow> (string \<Rightarrow> err option) \<Rightarrow> EtcdStorage \<Rightarrow> (string, bytes) gomap \<Rightarrow> (string, bytes) gomap" where
  "ets_flushAll marshal putErr s kv =
     fold (\<lambda>(taskID, pos) kv.
         case marshal pos of
           Inl _ \<Rightarrow> kv
         | Inr data \<Rightarrow> (case putErr taskID of Some _ \<Rightarrow> kv | None \<Rightarrow> AList.update (offset_key s taskID) data kv))
       (ets_offset s) kv"

subsection \<open>The choice of the backend\<close>

record OffsetConfig =
  oc_Backend :: string
  oc_Path :: string
  oc_EtcdEndpoints :: "string list"
  oc_FlushInterval :: int

datatype offset_Storage = MemoryBackend MemoryStorage | FileBackend FileStorage int | EtcdBackend EtcdStorage int

text \<open>Intervals are in milliseconds; the storage keeps the interval of its timer.\<close>

definition NewStorage ::
  "(bytes \<Rightarrow> (string, Position) gomap option res) \<Rightarrow> err option \<Rightarrow> err option \<Rightarrow> OffsetDisk
     \<Rightarrow> (bytes \<Rightarrow> Position res) \<Rightarrow> err option \<Rightarrow> (string \<Rightarrow> (string \<times> bytes) list res) \<Rightarrow> OffsetConfig \<Rightarrow> offset_Storage res" where
  "NewStorage unmarshalMap mkdirErr readErr d unmarshal newErr get cfg =
     (let flushInterval = (if oc_FlushInterval cfg = 0 then 1000 else oc_FlushInterval cfg) in
      if oc_Backend cfg = ''memory'' \<or> oc_Backend cfg = [] then Inr (MemoryBackend NewMemoryStorage)
      else if oc_Backend cfg = ''file'' then
        (case NewFileStorage unmarshalMap mkdirErr readErr (oc_Path cfg) d of
           Inl e \<Rightarrow> Inl e | Inr s \<Rightarrow> Inr (FileBackend s flushInterval))
      else if oc_Backend cfg = ''etcd'' then
        (case NewEtcdStorage unmarshal newErr get (oc_EtcdEndpoints cfg) [] of
           Inl e \<Rightarrow> Inl e | Inr s \<Rightarrow> Inr (EtcdBackend s flushInterval))
      else Inl (Errorf (''unsupported backend: '' @ oc_Backend cfg)))"

section \<open>The contract of a storage\<close>

text \<open>What a task resumes from: the last position saved and not deleted since.\<close>

fun last_change :: "string \<Rightarrow> (string \<times> Position option option) list \<Rightarrow> Position option \<Rightarrow> Position option" where
  "last_change t [] x = x"
| "last_change t ((u, c) # ops) x = last_change t ops (case c of None \<Rightarrow> x | Some y \<Rightarrow> if u = t then y else x)"

text \<open>
  What the connectors rely on: \<open>view s\<close> is the positions a storage holds. Saving and deleting change the
  one of their task, and loading returns it and changes nothing.
\<close>

locale position_storage =
  fixes ok :: "'s \<Rightarrow> bool" and view :: "'s \<Rightarrow> string \<Rightarrow> Position option"
    and save :: "'s \<Rightarrow> string \<Rightarrow> Position \<Rightarrow> 's" and load :: "'s \<Rightarrow> string \<Rightarrow> 's \<times> Position option" and del :: "'s \<Rightarrow> string \<Rightarrow> 's"
  assumes ok_save: "ok s \<Longrightarrow> ok (save s t p)" and ok_load: "ok s \<Longrightarrow> ok (fst (load s t))" and ok_del: "ok s \<Longrightarrow> ok (del s t)"
    and view_save: "ok s \<Longrightarrow> view (save s t p) = (view s)(t \<mapsto> p)"
    and view_del: "ok s \<Longrightarrow> view (del s t) = (view s)(t := None)"
    and view_load: "ok s \<Longrightarrow> view (fst (load s t)) = view s" and load_view: "ok s \<Longrightarrow> snd (load s t) = view s t"
begin

fun op :: "'s \<Rightarrow> string \<times> Position option option \<Rightarrow> 's" where
  "op s (t, None) = fst (load s t)"
| "op s (t, Some None) = del s t"
| "op s (t, Some (Some p)) = save s t p"

lemma op_keeps: "ok s \<Longrightarrow> ok (op s c)"
  by (cases "(s, c)" rule: op.cases) (auto simp: ok_save ok_load ok_del)

lemma op_view: "ok s \<Longrightarrow> view (op s (u, c)) t = (case c of None \<Rightarrow> view s t | Some y \<Rightarrow> if u = t then y else view s t)"
  by (cases "(s, (u, c))" rule: op.cases) (auto simp: view_save view_load view_del)

lemma resume: "ok s \<Longrightarrow> snd (load (foldl op s ops) t) = last_change t ops (view s t)"
proof (induction ops arbitrary: s)
  case (Cons c ops)
  obtain u x where c: "c = (u, x)" by fastforce
  show ?case using Cons.IH [OF op_keeps [OF Cons.prems, of c]] op_view [OF Cons.prems, of u x t] c by simp
qed (simp add: load_view)

end

interpretation mem_storage: position_storage "\<lambda>_. True" ms_Load ms_Save "\<lambda>s t. (s, ms_Load s t)" ms_Delete
  by unfold_locales (auto simp: ms_Load_def ms_Save_def ms_Delete_def fun_eq_iff update_conv' delete_conv')

text \<open>The file storage, as long as its map is not nil.\<close>

definition file_save :: "FileStorage \<Rightarrow> string \<Rightarrow> Position \<Rightarrow> FileStorage" where
  "file_save s t p = (case fst_Save s t p of Inr s \<Rightarrow> s | Inl _ \<Rightarrow> s)"

interpretation file_storage: position_storage "\<lambda>s. fst_offset s \<noteq> None" fst_Load file_save "\<lambda>s t. (s, fst_Load s t)" fst_Delete
  by unfold_locales (auto simp: fst_Load_def file_save_def fst_Save_def fst_Delete_def fun_eq_iff update_conv' delete_conv')

text \<open>The etcd storage without faults, with its entries of etcd as part of the state.\<close>

definition etcd_view :: "(bytes \<Rightarrow> Position res) \<Rightarrow> EtcdStorage \<times> (string, bytes) gomap \<Rightarrow> string \<Rightarrow> Position option" where
  "etcd_view unmarshal sk t =
     (case map_of (ets_offset (fst sk)) t of
        Some p \<Rightarrow> Some p
      | None \<Rightarrow> (case map_of (snd sk) (offset_key (fst sk) t) of
                   None \<Rightarrow> None | Some v \<Rightarrow> (case unmarshal v of Inl _ \<Rightarrow> None | Inr p \<Rightarrow> Some p)))"

definition etcd_save :: "(Position \<Rightarrow> bytes) \<Rightarrow> EtcdStorage \<times> (string, bytes) gomap \<Rightarrow> string \<Rightarrow> Position \<Rightarrow> EtcdStorage \<times> (string, bytes) gomap" where
  "etcd_save marshal sk t p = (case ets_Save (\<lambda>p. Inr (marshal p)) None (fst sk) (snd sk) t p of (s, kv, _) \<Rightarrow> (s, kv))"

definition etcd_load ::
  "(bytes \<Rightarrow> Position res) \<Rightarrow> EtcdStorage \<times> (string, bytes) gomap \<Rightarrow> string \<Rightarrow> (EtcdStorage \<times> (string, bytes) gomap) \<times> Position option" where
  "etcd_load unmarshal sk t =
     (case ets_Load unmarshal None (fst sk) (snd sk) t of
        (s, Inr r) \<Rightarrow> ((s, snd sk), r)
      | (s, Inl _) \<Rightarrow> ((s, snd sk), None))"

definition etcd_del :: "EtcdStorage \<times> (string, bytes) gomap \<Rightarrow> string \<Rightarrow> EtcdStorage \<times> (string, bytes) gomap" where
  "etcd_del sk t = (case ets_Delete None (fst sk) (snd sk) t of (s, kv, _) \<Rightarrow> (s, kv))"

lemma offset_key_inject [simp]: "offset_key s t = offset_key s u \<longleftrightarrow> t = u"
  by (simp add: offset_key_def)

lemma offset_key_update [simp]: "offset_key (s\<lparr> ets_offset := m \<rparr>) t = offset_key s t"
  by (simp add: offset_key_def)

interpretation etcd_storage: position_storage "\<lambda>_. True" "etcd_view unmarshal" "etcd_save marshal" "etcd_load unmarshal" etcd_del
  by unfold_locales
    (auto simp: etcd_view_def etcd_save_def etcd_load_def etcd_del_def ets_Save_def ets_Load_def ets_Delete_def Let_def fun_eq_iff
      update_conv' delete_conv' split: option.splits sum.splits)

section \<open>Durability of the file storage\<close>

text \<open>
  A life of the file: saving, deleting, flushes that may fail at any step, an end of the process without
  a flush, and a proper restart through \<^verbatim>\<open>Close\<close>; the file may be unreadable when it is opened again.
\<close>

datatype file_op =
    FSave string Position
  | FDelete string
  | FFlush flush_fault
  | FCrash "err option"
  | FRestart flush_fault "err option"

definition file_step ::
  "((string, Position) gomap option \<Rightarrow> bytes res) \<Rightarrow> (bytes \<Rightarrow> (string, Position) gomap option res) \<Rightarrow> string
     \<Rightarrow> file_op \<Rightarrow> FileStorage \<times> OffsetDisk \<Rightarrow> (FileStorage \<times> OffsetDisk) res" where
  "file_step marshal unmarshal path c sd =
     (case sd of (s, d) \<Rightarrow>
       (case c of
          FSave t p \<Rightarrow> (case fst_Save s t p of Inl e \<Rightarrow> Inl e | Inr s \<Rightarrow> Inr (s, d))
        | FDelete t \<Rightarrow> Inr (fst_Delete s t, d)
        | FFlush f \<Rightarrow> Inr (s, fst (fst_flush marshal f s d))
        | FCrash r \<Rightarrow> (case NewFileStorage unmarshal None r path d of Inl e \<Rightarrow> Inl e | Inr s \<Rightarrow> Inr (s, d))
        | FRestart f r \<Rightarrow>
            (case fst_Close marshal f s d of
               Inl e \<Rightarrow> Inl e
             | Inr (_, d, _) \<Rightarrow> (case NewFileStorage unmarshal None r path d of Inl e \<Rightarrow> Inl e | Inr s \<Rightarrow> Inr (s, d)))))"

fun file_run ::
  "((string, Position) gomap option \<Rightarrow> bytes res) \<Rightarrow> (bytes \<Rightarrow> (string, Position) gomap option res) \<Rightarrow> string
     \<Rightarrow> file_op list \<Rightarrow> FileStorage \<times> OffsetDisk \<Rightarrow> (FileStorage \<times> OffsetDisk) res" where
  "file_run marshal unmarshal path [] sd = Inr sd"
| "file_run marshal unmarshal path (c # cs) sd =
     (case file_step marshal unmarshal path c sd of Inl e \<Rightarrow> Inl e | Inr sd \<Rightarrow> file_run marshal unmarshal path cs sd)"

text \<open>
  The specification: the positions held and the positions on disk. Only a flush that ends makes the first
  the second; a restart takes up what is on disk, and nothing when the file cannot be read.
\<close>

fun durable_step :: "file_op \<Rightarrow> (string \<rightharpoonup> Position) \<times> (string \<rightharpoonup> Position) \<Rightarrow> (string \<rightharpoonup> Position) \<times> (string \<rightharpoonup> Position)" where
  "durable_step (FSave t p) (cur, dur) = (cur(t \<mapsto> p), dur)"
| "durable_step (FDelete t) (cur, dur) = (cur(t := None), dur)"
| "durable_step (FFlush f) (cur, dur) = (cur, if f = FlushOK then cur else dur)"
| "durable_step (FCrash r) (cur, dur) = (if r = None then dur else Map.empty, dur)"
| "durable_step (FRestart f r) (cur, dur) =
     (let dur = (if f = FlushOK then cur else dur) in (if r = None then dur else Map.empty, dur))"

text \<open>
  JSON gives back a map of positions it can represent: \<open>rep\<close> leaves out texts that are not UTF-8, years
  after 9999 and an empty resume token that is not nil, which it does not keep.
\<close>

definition offset_json ::
  "(string \<times> Position \<Rightarrow> bool) \<Rightarrow> ((string, Position) gomap option \<Rightarrow> bytes res) \<Rightarrow> (bytes \<Rightarrow> (string, Position) gomap option res) \<Rightarrow> bool" where
  "offset_json rep marshal unmarshal \<longleftrightarrow>
     (\<forall>m. gomap_ok m \<and> list_all rep m \<longrightarrow>
        (\<exists>data m'. marshal (Some m) = Inr data \<and> data \<noteq> [] \<and> unmarshal data = Inr (Some m') \<and> gomap_ok m' \<and> map_of m' = map_of m))"

fun op_rep :: "(string \<times> Position \<Rightarrow> bool) \<Rightarrow> file_op \<Rightarrow> bool" where
  "op_rep rep (FSave t p) = rep (t, p)"
| "op_rep rep _ = True"

definition held :: "(string \<times> Position \<Rightarrow> bool) \<Rightarrow> FileStorage \<Rightarrow> (string \<rightharpoonup> Position) \<Rightarrow> bool" where
  "held rep s cur \<longleftrightarrow> (\<exists>m. fst_offset s = Some m \<and> gomap_ok m \<and> list_all rep m \<and> map_of m = cur) \<and> \<not> fst_closed s"

definition stored ::
  "(string \<times> Position \<Rightarrow> bool) \<Rightarrow> (bytes \<Rightarrow> (string, Position) gomap option res) \<Rightarrow> OffsetDisk \<Rightarrow> (string \<rightharpoonup> Position) \<Rightarrow> bool" where
  "stored rep unmarshal d dur \<longleftrightarrow>
     (case od_file d of
        None \<Rightarrow> dur = Map.empty
      | Some data \<Rightarrow> data \<noteq> [] \<and> (\<exists>m. unmarshal data = Inr (Some m) \<and> gomap_ok m \<and> list_all rep m \<and> map_of m = dur))"

lemma rep_update: "list_all rep m \<Longrightarrow> rep (t, p) \<Longrightarrow> list_all rep (AList.update t p m)"
  by (induction m) auto

lemma rep_delete: "list_all rep m \<Longrightarrow> list_all rep (AList.delete t m)"
  by (induction m) auto

lemma rep_same:
  assumes "gomap_ok m" and "gomap_ok m'" and "map_of m' = map_of m" and "list_all rep m"
  shows "list_all rep m'"
  unfolding list_all_iff
proof
  fix x assume "x \<in> set m'"
  then have "x \<in> set m" using assms(1-3) gomap_mem_iff [of m' "fst x" "snd x"] gomap_mem_iff [of m "fst x" "snd x"] by simp
  then show "rep x" using assms(4) by (simp add: list_all_iff)
qed

lemma save_held: "held rep s cur \<Longrightarrow> rep (t, p) \<Longrightarrow> \<exists>s'. fst_Save s t p = Inr s' \<and> held rep s' (cur(t \<mapsto> p))"
  by (auto simp: held_def fst_Save_def rep_update)

lemma delete_held: "held rep s cur \<Longrightarrow> held rep (fst_Delete s t) (cur(t := None))"
  by (auto simp: held_def fst_Delete_def rep_delete)

lemma flush_stored:
  assumes json: "offset_json rep marshal unmarshal" and s: "held rep s cur" and d: "stored rep unmarshal d dur"
  shows "stored rep unmarshal (fst (fst_flush marshal f s d)) (if f = FlushOK then cur else dur)"
proof -
  obtain m where m: "fst_offset s = Some m" "gomap_ok m" "list_all rep m" "map_of m = cur" using s by (auto simp: held_def)
  obtain data m' where j: "marshal (Some m) = Inr data" "data \<noteq> []" "unmarshal data = Inr (Some m')" "gomap_ok m'" "map_of m' = map_of m"
    using json m(2,3) unfolding offset_json_def by blast
  show ?thesis using rep_same [OF m(2) j(4,5) m(3)] d m j by (cases f) (auto simp: fst_flush_def stored_def)
qed

lemma reopen_held:
  assumes d: "stored rep unmarshal d dur" and path: "path \<noteq> []"
  shows "\<exists>s. NewFileStorage unmarshal None r path d = Inr s \<and> held rep s (if r = None then dur else Map.empty)"
proof (cases r)
  case None
  then show ?thesis using d path by (cases "od_file d") (auto simp: NewFileStorage_def fst_load_def stored_def held_def)
qed (use path in \<open>auto simp: NewFileStorage_def fst_load_def held_def\<close>)

lemma step_durable:
  assumes json: "offset_json rep marshal unmarshal" and path: "path \<noteq> []" and c: "op_rep rep c"
    and s: "held rep s cur" and d: "stored rep unmarshal d dur"
  shows "\<exists>s' d'. file_step marshal unmarshal path c (s, d) = Inr (s', d')
    \<and> held rep s' (fst (durable_step c (cur, dur))) \<and> stored rep unmarshal d' (snd (durable_step c (cur, dur)))"
proof (cases c)
  case (FSave t p)
  obtain s' where "fst_Save s t p = Inr s'" "held rep s' (cur(t \<mapsto> p))" using save_held [OF s, of t p] c FSave by auto
  then show ?thesis using FSave d by (simp add: file_step_def)
next
  case (FCrash r)
  obtain s' where "NewFileStorage unmarshal None r path d = Inr s'" "held rep s' (if r = None then dur else Map.empty)"
    using reopen_held [OF d path] by blast
  then show ?thesis using FCrash d by (simp add: file_step_def)
next
  case (FRestart f r)
  have "fst_Close marshal f s d = Inr (s\<lparr> fst_closed := True \<rparr>, fst_flush marshal f s d)"
    using s by (simp add: fst_Close_def held_def split_beta)
  then show ?thesis using FRestart flush_stored [OF json s d, of f] reopen_held [OF flush_stored [OF json s d, of f] path, of r]
    by (cases "fst_flush marshal f s d") (auto simp: file_step_def Let_def)
qed (use s d delete_held [OF s] flush_stored [OF json s d] in \<open>auto simp: file_step_def\<close>)

lemma run_durable:
  assumes json: "offset_json rep marshal unmarshal" and path: "path \<noteq> []"
  shows "list_all (op_rep rep) cs \<Longrightarrow> held rep s cur \<Longrightarrow> stored rep unmarshal d dur \<Longrightarrow>
    \<exists>s' d'. file_run marshal unmarshal path cs (s, d) = Inr (s', d') \<and> held rep s' (fst (fold durable_step cs (cur, dur)))"
proof (induction cs arbitrary: s d cur dur)
  case (Cons c cs)
  obtain s' d' where n: "file_step marshal unmarshal path c (s, d) = Inr (s', d')"
    "held rep s' (fst (durable_step c (cur, dur)))" "stored rep unmarshal d' (snd (durable_step c (cur, dur)))"
    using step_durable [OF json path _ Cons.prems(2,3), of c] Cons.prems(1) by auto
  show ?case using Cons.IH [OF _ n(2,3)] n(1) Cons.prems(1) by simp
qed auto

lemma Position_Clone_fun: "Position_Clone = (\<lambda>p. p)"
  by (simp add: fun_eq_iff)

lemma held_Load: "held rep s cur \<Longrightarrow> fst_Load s = cur"
  by (auto simp: held_def fst_Load_def Position_Clone_fun option.map_ident)

text \<open>
  C15. The file storage keeps what was flushed. From an empty directory, through any sequence of saving,
  deleting, flushes failing while they write or rename, crashes and restarts, no call panics and loading
  returns for every task exactly the position the specification holds: the last one saved or, after a crash,
  the one of the last flush that ended. A failed flush never damages the file. The price of starting
  fresh is also there: when the file cannot be read the positions are gone.
\<close>

theorem file_offsets_durable:
  assumes "offset_json rep marshal unmarshal" and "path \<noteq> []" and "list_all (op_rep rep) cs"
    and "NewFileStorage unmarshal None None path \<lparr> od_file = None, od_tmp = tmp \<rparr> = Inr s0"
  shows "\<exists>s d. file_run marshal unmarshal path cs (s0, \<lparr> od_file = None, od_tmp = tmp \<rparr>) = Inr (s, d)
    \<and> fst_Load s = fst (fold durable_step cs (Map.empty, Map.empty))"
proof -
  have d: "stored rep unmarshal \<lparr> od_file = None, od_tmp = tmp \<rparr> Map.empty" by (simp add: stored_def)
  have "held rep s0 Map.empty" using reopen_held [OF d assms(2), of None] assms(4) by simp
  then show ?thesis using run_durable [OF assms(1,2,3) _ d] held_Load by blast
qed

definition wit_offmarshal :: "(string, Position) gomap option \<Rightarrow> bytes res" where
  "wit_offmarshal m =
     (case m of
        None \<Rightarrow> Inr [0]
      | Some m \<Rightarrow> Inr [case map_of m ''t'' of None \<Rightarrow> 1 | Some p \<Rightarrow> if pos_LSN p = 5 then 2 else 3])"

definition wit_pos :: "uint64 \<Rightarrow> Position" where
  "wit_pos n = Position_zero\<lparr> pos_LSN := n \<rparr>"

definition wit_offunmarshal :: "bytes \<Rightarrow> (string, Position) gomap option res" where
  "wit_offunmarshal data =
     (if data = [1] then Inr (Some []) else if data = [2] then Inr (Some [(''t'', wit_pos 5)])
      else if data = [3] then Inr (Some [(''t'', wit_pos 6)]) else Inl (Errorf ''invalid character''))"

definition wit_rep :: "string \<times> Position \<Rightarrow> bool" where
  "wit_rep x \<longleftrightarrow> x = (''t'', wit_pos 5) \<or> x = (''t'', wit_pos 6)"

lemma wit_maps:
  assumes "gomap_ok m" and "list_all wit_rep m"
  shows "m = [] \<or> m = [(''t'', wit_pos 5)] \<or> m = [(''t'', wit_pos 6)]"
  using assms by (cases m; cases "tl m") (auto simp: wit_rep_def)

lemma wit_tables:
  "wit_offmarshal (Some []) = Inr [1]" "wit_offmarshal (Some [(''t'', wit_pos 5)]) = Inr [2]" "wit_offmarshal (Some [(''t'', wit_pos 6)]) = Inr [3]"
  "wit_offunmarshal [1] = Inr (Some [])" "wit_offunmarshal [2] = Inr (Some [(''t'', wit_pos 5)])" "wit_offunmarshal [3] = Inr (Some [(''t'', wit_pos 6)])"
  by (simp_all add: wit_offmarshal_def wit_offunmarshal_def wit_pos_def)

lemma offset_jsonI:
  assumes "\<And>m. gomap_ok m \<Longrightarrow> list_all rep m \<Longrightarrow> \<exists>data. marshal (Some m) = Inr data \<and> data \<noteq> [] \<and> unmarshal data = Inr (Some m)"
  shows "offset_json rep marshal unmarshal"
  unfolding offset_json_def using assms by blast

lemma wit_json: "offset_json wit_rep wit_offmarshal wit_offunmarshal"
proof (rule offset_jsonI)
  fix m assume "gomap_ok m" "list_all wit_rep m"
  from wit_maps [OF this] consider "m = []" | "m = [(''t'', wit_pos 5)]" | "m = [(''t'', wit_pos 6)]" by (elim disjE)
  then show "\<exists>data. wit_offmarshal (Some m) = Inr data \<and> data \<noteq> [] \<and> wit_offunmarshal data = Inr (Some m)"
  proof cases
    case 1 show ?thesis unfolding 1 by (rule exI [of _ "[1]"]) (simp add: wit_tables)
  next
    case 2 show ?thesis unfolding 2 by (rule exI [of _ "[2]"]) (simp add: wit_tables)
  next
    case 3 show ?thesis unfolding 3 by (rule exI [of _ "[3]"]) (simp add: wit_tables)
  qed
qed

text \<open>Saved and flushed, saved again with a flush cut short, then a crash: the first position is back.\<close>

theorem file_offsets_durable_witness:
  "\<exists>s d. file_run wit_offmarshal wit_offunmarshal ''o''
       [FSave ''t'' (wit_pos 5), FFlush FlushOK, FSave ''t'' (wit_pos 6), FFlush (WriteFails 0 (Errorf ''no space'')), FCrash None]
       (\<lparr> fst_offset = Some [], fst_closed = False \<rparr>, \<lparr> od_file = None, od_tmp = None \<rparr>) = Inr (s, d)
     \<and> fst_Load s ''t'' = Some (wit_pos 5)"
  using file_offsets_durable [OF wit_json, of "''o''"
      "[FSave ''t'' (wit_pos 5), FFlush FlushOK, FSave ''t'' (wit_pos 6), FFlush (WriteFails 0 (Errorf ''no space'')), FCrash None]" None
      "\<lparr> fst_offset = Some [], fst_closed = False \<rparr>"]
  by (auto simp: wit_rep_def NewFileStorage_def fst_load_def)

text \<open>
  What etcd's prefix does: the task of a key is what follows the prefix and one more character, whatever that
  is. A key of another prefix that extends this one is taken for a task, and the key that is the prefix panics.
\<close>

lemma loadAll_panics:
  assumes "unmarshal v = Inr p"
  shows "ets_loadAll unmarshal (Inr [(ets_prefix s, v)]) s = Inl (Panic ''slice bounds out of range'')"
  using assms by (simp add: ets_loadAll_def)

lemma loadAll_foreign:
  assumes "unmarshal v = Inr p"
  shows "ets_loadAll unmarshal (Inr [(ets_prefix s @ x # t, v)]) s = Inr (s\<lparr> ets_offset := AList.update t p (ets_offset s) \<rparr>, None)"
  using assms by (simp add: ets_loadAll_def)

text \<open>A save that etcd refuses is an error, but the position is served from the cache and the next flush stores it.\<close>

lemma failed_save_cached:
  assumes "ets_Save marshal (Some e) s kv t p = (s', kv', r)"
  shows "kv' = kv" and "r \<noteq> None" and "ets_Load unmarshal getErr s' kv' t = (s', Inr (Some p))"
  using assms by (auto simp: ets_Save_def ets_Load_def Let_def split: sum.splits)

end
