(* ===== verification/Transforms.thy ===== *)
theory Transforms
  imports Events
begin

section \<open>Event transformers (internal/transform)\<close>

text \<open>
  The transformers an event may pass through, their chain, and the registry of the named ones. A
  transformer takes and gives a pointer to an event, which may be nil, or fails; dereferencing nil and
  storing into a nil map panic. The mapping transformer ranges over the fields of a row, so the order of
  the row's list is the order of one iteration.
\<close>

type_synonym Transformer = "ChangeEvent option \<Rightarrow> ChangeEvent option res"

subsection \<open>Chains (transform.go)\<close>

fun TransformChain_Transform :: "Transformer list \<Rightarrow> Transformer" where
  "TransformChain_Transform [] e = Inr e"
| "TransformChain_Transform (t # ts) e = (case t e of Inl er \<Rightarrow> Inl er | Inr e \<Rightarrow> TransformChain_Transform ts e)"

definition TransformChain_Add :: "Transformer list \<Rightarrow> Transformer \<Rightarrow> Transformer list" where
  "TransformChain_Add tc t = tc @ [t]"

definition IdentityTransformer :: Transformer where
  "IdentityTransformer e = Inr e"

text \<open>An operation on the event a pointer points to.\<close>

definition on_event :: "(ChangeEvent \<Rightarrow> ChangeEvent res) \<Rightarrow> Transformer" where
  "on_event f e =
     (case e of
        None \<Rightarrow> Inl (Panic ''invalid memory address or nil pointer dereference'')
      | Some e \<Rightarrow> (case f e of Inl er \<Rightarrow> Inl er | Inr e \<Rightarrow> Inr (Some e)))"

subsection \<open>Mapping (mapper.go)\<close>

record MappingTransformer =
  mt_fieldMapping :: "(string, string) gomap"
  mt_fieldConverters :: "(string, gval \<Rightarrow> gval res) gomap"
  mt_staticFields :: "(string, gval) gomap"

text \<open>The configuration has the same three maps.\<close>

definition NewMappingTransformer :: "MappingTransformer option \<Rightarrow> MappingTransformer" where
  "NewMappingTransformer cfg =
     (case cfg of
        None \<Rightarrow> \<lparr> mt_fieldMapping = [], mt_fieldConverters = [], mt_staticFields = [] \<rparr>
      | Some cfg \<Rightarrow>
          \<lparr> mt_fieldMapping = fold (\<lambda>(k, v) m. AList.update k v m) (mt_fieldMapping cfg) [],
            mt_fieldConverters = fold (\<lambda>(k, v) m. AList.update k v m) (mt_fieldConverters cfg) [],
            mt_staticFields = fold (\<lambda>(k, v) m. AList.update k v m) (mt_staticFields cfg) [] \<rparr>)"

text \<open>The entry of the new row that a field of the old one gives: unchanged when its converter fails.\<close>

definition mapped_field :: "MappingTransformer \<Rightarrow> string \<Rightarrow> Field \<Rightarrow> string \<times> Field" where
  "mapped_field mt name field =
     (let rename = (\<lambda>v. let targetName = (case map_of (mt_fieldMapping mt) name of Some mapped \<Rightarrow> mapped | None \<Rightarrow> name)
            in (targetName, \<lparr> fld_Name = targetName, fld_Value = v, fld_Type = fld_Type field, fld_Null = fld_Null field \<rparr>))
      in case map_of (mt_fieldConverters mt) name of
           None \<Rightarrow> rename (fld_Value field)
         | Some converter \<Rightarrow>
             (case converter (fld_Value field) of
                Inl _ \<Rightarrow> (name, field)
              | Inr converted \<Rightarrow> rename converted))"

definition transformRowData :: "MappingTransformer \<Rightarrow> RowData \<Rightarrow> RowData" where
  "transformRowData mt row =
     (if length (fields_of row) = 0 then row
      else \<lparr> row_Fields = Some (fold (\<lambda>(name, field) r. case mapped_field mt name field of (t, f) \<Rightarrow> AList.update t f r)
                                  (fields_of row) []) \<rparr>)"

definition static_field :: "string \<Rightarrow> gval \<Rightarrow> Field" where
  "static_field name v = \<lparr> fld_Name = name, fld_Value = v, fld_Type = ''static'', fld_Null = False \<rparr>"

fun add_static :: "(string \<times> gval) list \<Rightarrow> RowData \<Rightarrow> RowData res" where
  "add_static [] row = Inr row"
| "add_static ((name, v) # fs) row =
     (case row_Fields row of
        None \<Rightarrow> Inl (Panic ''assignment to entry in nil map'')
      | Some m \<Rightarrow> add_static fs (row\<lparr> row_Fields := Some (AList.update name (static_field name v) m) \<rparr>))"

definition mapping_event :: "MappingTransformer \<Rightarrow> ChangeEvent \<Rightarrow> ChangeEvent res" where
  "mapping_event mt e =
     (let active = (0 < length (mt_fieldMapping mt) \<or> 0 < length (mt_fieldConverters mt));
          e = (if active then e\<lparr> ev_After := transformRowData mt (ev_After e) \<rparr> else e);
          e = (if 0 < length (fields_of (ev_Before e)) \<and> active then e\<lparr> ev_Before := transformRowData mt (ev_Before e) \<rparr> else e)
      in case add_static (mt_staticFields mt) (ev_After e) of
           Inl p \<Rightarrow> Inl p
         | Inr row \<Rightarrow> Inr (e\<lparr> ev_After := row \<rparr>))"

definition MappingTransformer_Transform :: "MappingTransformer \<Rightarrow> Transformer" where
  "MappingTransformer_Transform mt = on_event (mapping_event mt)"

definition AddFieldMapping :: "MappingTransformer \<Rightarrow> string \<Rightarrow> string \<Rightarrow> MappingTransformer" where
  "AddFieldMapping mt src dst = mt\<lparr> mt_fieldMapping := AList.update src dst (mt_fieldMapping mt) \<rparr>"

definition AddFieldConverter :: "MappingTransformer \<Rightarrow> string \<Rightarrow> (gval \<Rightarrow> gval res) \<Rightarrow> MappingTransformer" where
  "AddFieldConverter mt name converter = mt\<lparr> mt_fieldConverters := AList.update name converter (mt_fieldConverters mt) \<rparr>"

definition AddStaticField :: "MappingTransformer \<Rightarrow> string \<Rightarrow> gval \<Rightarrow> MappingTransformer" where
  "AddStaticField mt name v = mt\<lparr> mt_staticFields := AList.update name v (mt_staticFields mt) \<rparr>"

subsection \<open>Custom transformers (custom.go)\<close>

record CustomTransformer =
  ct_name :: string
  ct_transformFn :: "Transformer option"

definition NewCustomTransformer :: "string \<Rightarrow> string \<Rightarrow> Transformer option \<Rightarrow> CustomTransformer res" where
  "NewCustomTransformer name typ fn =
     (if typ = ''native'' then
        (case fn of
           None \<Rightarrow> Inl (Errorf ''native transformer requires TransformFunc'')
         | Some f \<Rightarrow> Inr \<lparr> ct_name = name, ct_transformFn = Some f \<rparr>)
      else if typ = ''lua'' then Inl (Errorf ''lua transformer not yet implemented'')
      else if typ = ''wasm'' then Inl (Errorf ''wasm transformer not yet implemented'')
      else Inl (Errorf (''unknown transformer type: '' @ typ)))"

definition CustomTransformer_Transform :: "CustomTransformer \<Rightarrow> Transformer" where
  "CustomTransformer_Transform t e = (case ct_transformFn t of None \<Rightarrow> Inr e | Some f \<Rightarrow> f e)"

text \<open>The registry; a registered pointer is a transformer.\<close>

type_synonym ScriptTransformerRegistry = "(string, CustomTransformer) gomap"

definition str_Register :: "ScriptTransformerRegistry \<Rightarrow> string \<Rightarrow> CustomTransformer \<Rightarrow> ScriptTransformerRegistry" where
  "str_Register r name t = AList.update name t r"

definition str_Get :: "ScriptTransformerRegistry \<Rightarrow> string \<Rightarrow> CustomTransformer option" where
  "str_Get r name = map_of r name"

definition str_Remove :: "ScriptTransformerRegistry \<Rightarrow> string \<Rightarrow> ScriptTransformerRegistry" where
  "str_Remove r name = AList.delete name r"

definition str_List :: "ScriptTransformerRegistry \<Rightarrow> string list" where
  "str_List r = map fst r"

text \<open>The built-in ones. A row with a field has a map, so the test for a nil map never succeeds.\<close>

definition set_field :: "string \<Rightarrow> gval \<Rightarrow> string \<Rightarrow> RowData \<Rightarrow> RowData" where
  "set_field name v typ row =
     (if RowData_IsEmpty (Some row) then row
      else row\<lparr> row_Fields := Some (AList.update name \<lparr> fld_Name = name, fld_Value = v, fld_Type = typ, fld_Null = False \<rparr> (fields_of row)) \<rparr>)"

definition remove_field :: "string \<Rightarrow> RowData \<Rightarrow> RowData" where
  "remove_field name row =
     (if RowData_IsEmpty (Some row) then row else row\<lparr> row_Fields := Some (AList.delete name (fields_of row)) \<rparr>)"

definition rename_field :: "string \<Rightarrow> string \<Rightarrow> RowData \<Rightarrow> RowData" where
  "rename_field oldName newName row =
     (if RowData_IsEmpty (Some row) then row
      else case map_of (fields_of row) oldName of
        None \<Rightarrow> row
      | Some v \<Rightarrow> row\<lparr> row_Fields := Some (AList.update newName (v\<lparr> fld_Name := newName \<rparr>) (AList.delete oldName (fields_of row))) \<rparr>)"

definition NewAddFieldTransformer :: "string \<Rightarrow> gval \<Rightarrow> CustomTransformer" where
  "NewAddFieldTransformer fieldName v = \<lparr> ct_name = ''add-field-'' @ fieldName,
     ct_transformFn = Some (on_event (\<lambda>e. Inr (e\<lparr> ev_After := set_field fieldName v ''string'' (ev_After e) \<rparr>))) \<rparr>"

definition NewRemoveFieldTransformer :: "string \<Rightarrow> CustomTransformer" where
  "NewRemoveFieldTransformer fieldName = \<lparr> ct_name = ''remove-field-'' @ fieldName,
     ct_transformFn = Some (on_event (\<lambda>e. Inr (e\<lparr> ev_After := remove_field fieldName (ev_After e),
       ev_Before := remove_field fieldName (ev_Before e) \<rparr>))) \<rparr>"

definition NewRenameFieldTransformer :: "string \<Rightarrow> string \<Rightarrow> CustomTransformer" where
  "NewRenameFieldTransformer oldName newName = \<lparr> ct_name = ''rename-field-'' @ oldName,
     ct_transformFn = Some (on_event (\<lambda>e. Inr (e\<lparr> ev_After := rename_field oldName newName (ev_After e),
       ev_Before := rename_field oldName newName (ev_Before e) \<rparr>))) \<rparr>"

definition NewTimestampTransformer :: "string \<Rightarrow> CustomTransformer" where
  "NewTimestampTransformer fieldName = \<lparr> ct_name = ''timestamp-'' @ fieldName,
     ct_transformFn = Some (on_event (\<lambda>e. Inr (e\<lparr> ev_After := set_field fieldName (VTime (ev_Timestamp e)) ''timestamp'' (ev_After e) \<rparr>))) \<rparr>"

section \<open>Properties\<close>

subsection \<open>Chains and copies\<close>

lemma chain_append:
  "TransformChain_Transform (ts @ us) e = (case TransformChain_Transform ts e of Inl er \<Rightarrow> Inl er | Inr e \<Rightarrow> TransformChain_Transform us e)"
  by (induction ts arbitrary: e) (auto split: sum.split)

lemma chain_Add:
  "TransformChain_Transform (TransformChain_Add tc t) e = (case TransformChain_Transform tc e of Inl er \<Rightarrow> Inl er | Inr e \<Rightarrow> t e)"
  by (simp add: TransformChain_Add_def chain_append split: sum.split)

lemma copy_map:
  "gomap_ok m \<Longrightarrow> map_of (fold (\<lambda>(k, v) m. AList.update k v m) m acc) = map_of acc ++ map_of m"
proof (induction m arbitrary: acc)
  case (Cons p m)
  then show ?case by (cases p) (auto simp: fun_eq_iff map_add_def dom_map_of_conv_image_fst image_iff split: option.splits dest: map_of_SomeD)
qed simp

subsection \<open>Mapping\<close>

text \<open>The fields of a row go to their targets: what the loop of \<^verbatim>\<open>transformRowData\<close> has built.\<close>

definition targets :: "MappingTransformer \<Rightarrow> (string, Field) gomap \<Rightarrow> (string \<times> Field) list" where
  "targets mt m = map (\<lambda>(n, f). mapped_field mt n f) m"

lemma transform_fold:
  "fold (\<lambda>(name, field) r. case mapped_field mt name field of (t, f) \<Rightarrow> AList.update t f r) m acc
     = fold (\<lambda>(k, v) m. AList.update k v m) (targets mt m) acc"
  by (induction m arbitrary: acc) (auto simp: targets_def split: prod.split)

lemma transformRowData_lookup:
  assumes "gomap_ok (targets mt (fields_of row))"
  shows "map_of (fields_of (transformRowData mt row)) = map_of (targets mt (fields_of row))"
  using assms by (simp add: transformRowData_def transform_fold copy_map fields_of_def targets_def split: option.split)

lemma transformRowData_nil [simp]: "row_Fields (transformRowData mt row) = None \<longleftrightarrow> row_Fields row = None"
  by (auto simp: transformRowData_def fields_of_def split: option.splits)

lemma add_static_lookup:
  assumes "gomap_ok fs" and "row_Fields row = Some m"
  shows "\<exists>m'. add_static fs row = Inr (row\<lparr> row_Fields := Some m' \<rparr>)
    \<and> map_of m' = map_of m ++ map_of (map (\<lambda>(n, v). (n, static_field n v)) fs)"
  using assms
proof (induction fs arbitrary: row m)
  case (Cons p fs)
  obtain n v where p: "p = (n, v)" by fastforce
  have "n \<notin> fst ` set fs" using Cons.prems(1) p by simp
  then have "map_of (map (\<lambda>(n, v). (n, static_field n v)) fs) n = None" by (force simp: map_of_eq_None_iff)
  moreover obtain m' where "add_static fs (row\<lparr> row_Fields := Some (AList.update n (static_field n v) m) \<rparr>) = Inr (row\<lparr> row_Fields := Some m' \<rparr>)"
    "map_of m' = map_of (AList.update n (static_field n v) m) ++ map_of (map (\<lambda>(n, v). (n, static_field n v)) fs)"
    using Cons.IH [of "row\<lparr> row_Fields := Some (AList.update n (static_field n v) m) \<rparr>"] Cons.prems by auto
  ultimately show ?case using p Cons.prems(2) by (auto simp: map_add_def fun_eq_iff split: option.split)
next
  case Nil
  then show ?case by (intro exI [of _ m]) (cases row, simp)
qed

text \<open>What a row should become: every field converted under its target name.\<close>

definition mapped_row :: "MappingTransformer \<Rightarrow> (string \<rightharpoonup> Field) \<Rightarrow> (string \<rightharpoonup> Field) \<Rightarrow> bool" where
  "mapped_row mt r r' \<longleftrightarrow> (\<forall>t g. r' t = Some g \<longleftrightarrow> (\<exists>n f. r n = Some f \<and> mapped_field mt n f = (t, g)))"

lemma targets_mem: "p \<in> set (targets mt m) \<longleftrightarrow> (\<exists>n f. (n, f) \<in> set m \<and> mapped_field mt n f = p)"
  unfolding targets_def set_map image_iff by (auto split: prod.split)

lemma targets_mapped:
  assumes "gomap_ok m" and "gomap_ok (targets mt m)"
  shows "mapped_row mt (map_of m) (map_of (targets mt m))"
  unfolding mapped_row_def
proof (intro allI)
  fix t g
  show "map_of (targets mt m) t = Some g \<longleftrightarrow> (\<exists>n f. map_of m n = Some f \<and> mapped_field mt n f = (t, g))"
    unfolding gomap_mem_iff [OF assms(2), symmetric] gomap_mem_iff [OF assms(1), symmetric] targets_mem ..
qed

lemma identity_mapped:
  assumes "mt_fieldMapping mt = []" and "mt_fieldConverters mt = []" and "\<forall>n f. r n = Some f \<longrightarrow> fld_Name f = n"
  shows "mapped_row mt r r"
proof -
  have same: "mapped_field mt n f = (n, f)" if "r n = Some f" for n f
    using assms(1,2) assms(3) [rule_format, OF that] by (cases f) (simp add: mapped_field_def)
  show ?thesis unfolding mapped_row_def
  proof (intro allI iffI)
    fix t g assume "r t = Some g"
    then show "\<exists>n f. r n = Some f \<and> mapped_field mt n f = (t, g)" using same by blast
  next
    fix t g assume "\<exists>n f. r n = Some f \<and> mapped_field mt n f = (t, g)"
    then obtain n f where "r n = Some f" "mapped_field mt n f = (t, g)" by blast
    then show "r t = Some g" using same [of n f] by simp
  qed
qed

text \<open>The row part of a transformation, active or not.\<close>

definition map_side :: "MappingTransformer \<Rightarrow> RowData \<Rightarrow> RowData" where
  "map_side mt row = (if mt_fieldMapping mt \<noteq> [] \<or> mt_fieldConverters mt \<noteq> [] then transformRowData mt row else row)"

lemma mapping_event_sides:
  "mapping_event mt e =
     (case add_static (mt_staticFields mt) (map_side mt (ev_After e)) of
        Inl p \<Rightarrow> Inl p
      | Inr row \<Rightarrow> Inr (e\<lparr> ev_After := row, ev_Before := map_side mt (ev_Before e) \<rparr>))"
proof -
  have "transformRowData mt (ev_Before e) = ev_Before e" if "fields_of (ev_Before e) = []"
    using that by (simp add: transformRowData_def)
  moreover have "e\<lparr> ev_Before := ev_Before e \<rparr> = e" by simp
  ultimately show ?thesis
    by (cases "mt_fieldMapping mt \<noteq> [] \<or> mt_fieldConverters mt \<noteq> []"; cases "fields_of (ev_Before e) = []")
      (auto simp: mapping_event_def map_side_def Let_def split: sum.split)
qed

lemma map_side_mapped:
  assumes "gomap_ok (fields_of row)" and "gomap_ok (targets mt (fields_of row))"
    and "\<forall>n f. map_of (fields_of row) n = Some f \<longrightarrow> fld_Name f = n"
  shows "mapped_row mt (map_of (fields_of row)) (map_of (fields_of (map_side mt row)))"
proof (cases "mt_fieldMapping mt \<noteq> [] \<or> mt_fieldConverters mt \<noteq> []")
  case True
  then show ?thesis using targets_mapped [OF assms(1,2)] transformRowData_lookup [OF assms(2)] by (simp add: map_side_def)
next
  case False
  then show ?thesis using identity_mapped [of mt, OF _ _ assms(3)] by (simp add: map_side_def)
qed

lemma map_side_nil: "row_Fields (map_side mt row) = None \<longleftrightarrow> row_Fields row = None"
  by (simp add: map_side_def)

lemma add_static_nil: "row_Fields row = None \<Longrightarrow> fs \<noteq> [] \<Longrightarrow> add_static fs row = Inl (Panic ''assignment to entry in nil map'')"
  by (cases fs) auto


definition wit_mt :: MappingTransformer where
  "wit_mt = \<lparr> mt_fieldMapping = [(''a'', ''x'')], mt_fieldConverters = [(''b'', \<lambda>_. Inr (VInt 9))], mt_staticFields = [(''s'', VInt 1)] \<rparr>"

definition wit_field :: "string \<Rightarrow> int \<Rightarrow> Field" where
  "wit_field n v = \<lparr> fld_Name = n, fld_Value = VInt v, fld_Type = ''int'', fld_Null = False \<rparr>"

definition wit_mapped :: ChangeEvent where
  "wit_mapped = \<lparr> ev_ID = [], ev_Source = SourceInfo_zero, ev_Type = EventTypeInsert, ev_Position = Position_zero, ev_Table = TableInfo_zero,
     ev_Before = RowData_zero, ev_After = \<lparr> row_Fields = Some [(''a'', wit_field ''a'' 1), (''b'', wit_field ''b'' 2)] \<rparr>,
     ev_Timestamp = 0, ev_Transaction = None, ev_Schema = None, ev_Metadata = None \<rparr>"

lemma wit_mapped_rows:
  "fields_of (ev_After wit_mapped) = [(''a'', wit_field ''a'' 1), (''b'', wit_field ''b'' 2)]" "fields_of (ev_Before wit_mapped) = []"
  "row_Fields (ev_After wit_mapped) \<noteq> None" "mapped_field wit_mt ''a'' (wit_field ''a'' 1) = (''x'', wit_field ''x'' 1)"
  "mapped_field wit_mt ''b'' (wit_field ''b'' 2) = (''b'', wit_field ''b'' 9)"
  by (simp_all add: wit_mapped_def fields_of_def RowData_zero_def mapped_field_def wit_mt_def wit_field_def Let_def)


text \<open>Two fields with one target: which of them the row keeps depends on the order of the iteration.\<close>

lemma mapping_collision:
  assumes "a \<noteq> b" and "mt_fieldMapping mt = [(a, b)]" and "mt_fieldConverters mt = []"
  shows "map_of (fields_of (transformRowData mt \<lparr> row_Fields = Some [(a, f), (b, g)] \<rparr>)) b = Some (g\<lparr> fld_Name := b \<rparr>)"
    and "map_of (fields_of (transformRowData mt \<lparr> row_Fields = Some [(b, g), (a, f)] \<rparr>)) b = Some (f\<lparr> fld_Name := b \<rparr>)"
  using assms by (simp_all add: transformRowData_def fields_of_def mapped_field_def Let_def)

text \<open>Renaming a field and renaming it back, when the new name was free.\<close>

lemma rename_fields:
  assumes "map_of (fields_of row) x = Some v"
  shows "fields_of (rename_field x y row) = AList.update y (v\<lparr> fld_Name := y \<rparr>) (AList.delete x (fields_of row))"
proof -
  have "fields_of row \<noteq> []" using assms by auto
  then have "rename_field x y row = row\<lparr> row_Fields := Some (AList.update y (v\<lparr> fld_Name := y \<rparr>) (AList.delete x (fields_of row))) \<rparr>"
    using assms by (simp add: rename_field_def RowData_IsEmpty_def)
  then show ?thesis by (simp add: fields_of_def)
qed

lemma rename_roundtrip:
  assumes "map_of (fields_of row) b = None" and "map_of (fields_of row) a = Some f" and "fld_Name f = a"
  shows "map_of (fields_of (rename_field b a (rename_field a b row))) = map_of (fields_of row)"
proof
  fix x
  have f: "f\<lparr> fld_Name := b, fld_Name := a \<rparr> = f" using assms(3) by (cases f) simp
  have one: "map_of (fields_of (rename_field a b row)) y
      = (if y = b then Some (f\<lparr> fld_Name := b \<rparr>) else if y = a then None else map_of (fields_of row) y)" for y
    unfolding rename_fields [OF assms(2)] by simp
  have "map_of (fields_of (rename_field a b row)) b = Some (f\<lparr> fld_Name := b \<rparr>)" by (simp add: one)
  note two = rename_fields [OF this, of a]
  show "map_of (fields_of (rename_field b a (rename_field a b row))) x = map_of (fields_of row) x"
    unfolding two f using one [of x] assms(1,2) by simp
qed

end
