(* ===== verification/Spec2Isabelle.thy ===== *)
theory Spec2Isabelle
  imports Ddl_Handling Catch_Up Snapshot_Chunks Sink_Writer Oracle_Dml Resilience Pipelines Mysql_Binlog Pgoutput Filter_Router Sql_Sink
    Cluster Offset_Storage Transforms
begin

text \<open>
  A verification library for the DataStream change-data-capture platform (Go, under src/).

  \<^bold>\<open>The program.\<close> A source connector (internal/source) reads the changes of a database, from the MySQL binlog,
  the PostgreSQL replication stream or Oracle's LogMiner, and turns them into change events (pkg/event). The
  scope and the table manager (internal/source) say which tables are captured. A pipeline (internal/pipeline)
  dispatches the events to its sinks (internal/sink), with buffers and backpressure between them. Filters
  (internal/filter), transformers (internal/transform) and routers (internal/router) are packages of their own
  that no other package of the repository imports. A
  table that is not yet streaming has a lifecycle (internal/source, internal/lifecycle): it is snapshotted in chunks while its
  changes go to a binlog cache (internal/cache), which is replayed before it streams. DDL statements are parsed
  (pkg/parser), applied to the table definitions and recorded in a schema history (internal/schema), in a file or
  in the target database (internal/store). Positions are kept by the offset storage (internal/offset), tasks and
  leadership by a coordinator and the cluster manager (internal/pipeline).

  \<^bold>\<open>How the code is modelled.\<close> A struct is a record whose fields carry a short prefix, an enumeration is a datatype.
  A method is a function that takes and returns the state of its receiver; a name that two packages share has a
  prefix, as in \<open>ms_Save\<close>, \<open>fst_Save\<close> and \<open>ets_Save\<close>. Errors and panics are values of \<open>err\<close>, results are \<open>err + 'a\<close>. A
  Go map is the list of its entries in the order of one iteration, so a theorem about a loop over a map holds for
  every order. A method that holds a mutex throughout is one step; where the interleaving matters (the concurrent
  sink writer, concurrent calls of a sink) the steps are those between two accesses to shared state. Channels are
  lists, timers and \<^verbatim>\<open>select\<close> are sequences of steps or arguments that say which case is taken. Code that is not under
  src/ (drivers, JSON, regular expressions, the clock, the file system and its faults, etcd) is an argument, with
  its documented behaviour as a named hypothesis where a theorem needs it; the witness of such a theorem
  instantiates it by a concrete function.

  \<^bold>\<open>Theories.\<close>
  \<^item> Prelude: types, errors, the standard library's byte and text functions, generic lemmas. Go_Text: more text
    functions. Framing: the contract of length-prefixed records (locale \<open>framing\<close>) and what torn files give.
  \<^item> Events (pkg/event): positions, rows, tables, events. Positions compare as a total preorder, by the locale
    \<open>comparator\<close> and its lexicographic extension.
  \<^item> Table_Lifecycle (internal/source: table_lifecycle.go, lifecycle_store.go, global_min_position.go): the state machine, its phases, pausing
    and resuming, the global minimum position; the locale \<open>lifecycle_store\<close> is the contract of the store.
  \<^item> Binlog_Cache (internal/cache): the cache refines one append-only log per table, also after torn batches.
  \<^item> Schema_History (internal/schema): recovering the history file rebuilds the tables in memory; the locale
    \<open>schema_history\<close> is shared with Target_Store (internal/store), where a dropped table comes back.
  \<^item> Scheduler (internal/lifecycle/snapshot_scheduler.go): restarting, pausing and resuming; every stored table has a lifecycle run.
  \<^item> Ddl_Apply, Mysql_Ddl (pkg/parser): what ALTER and CREATE TABLE do to a definition.
  \<^item> Consumer, Ddl_Handling, Catch_Up (internal/lifecycle): routing by state, DDL with its retries on the
    contract \<open>ddl_store\<close>, and the composition of consumer, cache and replayer: what is routed during a snapshot
    is replayed completely and in order.
  \<^item> Snapshot_Chunks (internal/source/snapshot_coordinator.go, internal/lifecycle/hash_chunker.go): chunks partition the key range; when their generation does not end.
  \<^item> Sink_Writer (internal/sink): the changes to one row keep their order in every interleaving of the workers.
  \<^item> Sql_Sink (internal/sink: mysql, postgres, oracle, sqlserver): the statements, atomicity of a batch, replaying with
    upserts, the loss of changes by concurrent calls, and the insert that does not return.
  \<^item> Buffers, Pipelines, Cluster (internal/pipeline): buffers, dispatchers, the event loop, tasks, the in-memory
    coordinator, and the cluster manager on the contract \<open>leadership\<close>, which never takes a task over.
  \<^item> Filter_Router, Transforms: filter rules and expressions, routers, and the transformers.
  \<^item> Offset_Storage (internal/offset): the contract \<open>position_storage\<close> of the three backends and the durability of
    the file through failing flushes and crashes.
  \<^item> Table_Scope, Mysql_Binlog, Pgoutput, Oracle_Dml (internal/source): scope, table manager and discovery; the
    binlog syncer and the PostgreSQL handler send exactly the events of the captured rows; LogMiner's SQL text is
    read back with its values.
  \<^item> Resilience (pkg/errors, pkg/utils): error classes, the circuit breaker and the retry helper.

  \<^bold>\<open>Bounds and termination.\<close> There is no fuel. Loops are structural or have a termination proof, except three that
  need not end in the code and are partial functions into options: the chunk loop, the value loop of the DML parser
  and the PostgreSQL insert; for each there is a theorem on the inputs for which it does not return and one, or the
  main theorem of the component, that it returns on the others it is used for. Integers are words, or integers with
  the wrap-around written out, where the width matters: positions, lengths and checksums, chunk ranges. Event and
  retry counters of type int or int64 are unbounded integers.

  \<^bold>\<open>Not modelled.\<close> The HTTP API, the command line, configuration and start-up, metrics, logging and alerts, which are
  input and output; the rate limiter, which forwards to a library; the etcd coordinator, whose behaviour is that of
  the client library's leases and elections (the in-memory coordinator is modelled); the sinks for Kafka, Redis,
  Elasticsearch and MongoDB, whose keys and documents are the default formatting or JSON of values of any Go type;
  the source connectors' connections, snapshot queries and polling loops, which depend on live databases; the
  generated parsers, whose trees are arguments, and the tree walks of the PostgreSQL, Oracle and SQL Server visitors;
  the size of the cache directory (a system call and floating point); opening and configuring the SQL sinks.
\<close>

end
